(* ===== verification/Expr_Syntax.thy ===== *)
theory Expr_Syntax
  imports Prelude
begin

text \<open>
  The predicate language of \<^verbatim>\<open>src/expr\<close>: its types (\<^verbatim>\<open>types.rs\<close>), its abstract syntax and its
  evaluators (\<^verbatim>\<open>ast.rs\<close>). The trait \<open>PuzzleStates\<close> is a record of its methods; identifiers of
  type \<open>u32\<close> are naturals, and the parser bounds them by \<open>u32::MAX\<close>.
\<close>

section \<open>Types\<close>

type_synonym puzzle_id = nat
type_synonym round_id = nat

datatype puzzle_ref = PId puzzle_id | PSlug ustr
datatype round_ref = RId round_id | RSlug ustr

record puzzle_states =
  is_solved :: "puzzle_id \<Rightarrow> bool"
  solved :: "puzzle_id list"
  puzzle_slug :: "ustr \<Rightarrow> puzzle_id option"
  round_slug :: "ustr \<Rightarrow> round_id option"
  round_puzzles :: "round_id \<Rightarrow> puzzle_id list option"
  game_started :: bool
  is_triggered :: "puzzle_id \<Rightarrow> ustr \<Rightarrow> bool"

section \<open>Abstract syntax\<close>

datatype cmp_op = Gt | Ge | Lt | Le | Eq | Ne

datatype set_expr =
    Puzzles "puzzle_ref list"
  | PuzzleRange (range_start: puzzle_id) (range_end: puzzle_id)
  | RoundSet round_ref

datatype value_expr = SolvedCount set_expr | Number nat

datatype gate_expr =
    GTrue
  | GFalse
  | GAnd "gate_expr list"
  | GOr "gate_expr list"
  | GNot gate_expr
  | Solved puzzle_ref
  | AllSolved set_expr
  | AnySolved set_expr
  | GameStarted
  | Triggered puzzle_ref ustr
  | Cmp cmp_op value_expr value_expr

datatype hint_display_expr =
    HGate gate_expr
  | HAnd "hint_display_expr list"
  | HOr "hint_display_expr list"
  | HNot hint_display_expr
  | HintEnabled
  | HintCooledDown

section \<open>Evaluation\<close>

fun cmp_usize :: "cmp_op \<Rightarrow> nat \<Rightarrow> nat \<Rightarrow> bool" where
  "cmp_usize Gt lhs rhs = (lhs > rhs)"
| "cmp_usize Ge lhs rhs = (lhs \<ge> rhs)"
| "cmp_usize Lt lhs rhs = (lhs < rhs)"
| "cmp_usize Le lhs rhs = (lhs \<le> rhs)"
| "cmp_usize Eq lhs rhs = (lhs = rhs)"
| "cmp_usize Ne lhs rhs = (lhs \<noteq> rhs)"

fun resolve_puzzle :: "puzzle_states \<Rightarrow> puzzle_ref \<Rightarrow> puzzle_id option" where
  "resolve_puzzle state (PId i) = Some i"
| "resolve_puzzle state (PSlug slug) = puzzle_slug state slug"

fun resolve_round :: "puzzle_states \<Rightarrow> round_ref \<Rightarrow> puzzle_id list option" where
  "resolve_round state (RId i) = round_puzzles state i"
| "resolve_round state (RSlug slug) =
     (case round_slug state slug of None \<Rightarrow> None | Some i \<Rightarrow> round_puzzles state i)"

fun materialize_set :: "puzzle_states \<Rightarrow> set_expr \<Rightarrow> puzzle_id list option" where
  "materialize_set state (Puzzles v) = collect_opt (resolve_puzzle state) v"
| "materialize_set state (PuzzleRange a b) =
     Some (if a \<le> b then [a ..< Suc b] else [b ..< Suc a])"
| "materialize_set state (RoundSet r) = resolve_round state r"

definition unwrap_or_default :: "'a list option \<Rightarrow> 'a list" where
  "unwrap_or_default x = (case x of None \<Rightarrow> [] | Some ys \<Rightarrow> ys)"

definition is_some_and :: "('a \<Rightarrow> bool) \<Rightarrow> 'a option \<Rightarrow> bool" where
  "is_some_and p x = (case x of None \<Rightarrow> False | Some y \<Rightarrow> p y)"

fun eval_value :: "puzzle_states \<Rightarrow> value_expr \<Rightarrow> nat" where
  "eval_value state (SolvedCount s) =
     length (filter (is_solved state) (unwrap_or_default (materialize_set state s)))"
| "eval_value state (Number n) = n"

fun eval_compiled :: "puzzle_states \<Rightarrow> gate_expr \<Rightarrow> bool" where
  "eval_compiled state GTrue = True"
| "eval_compiled state GFalse = False"
| "eval_compiled state (GAnd xs) = list_all (eval_compiled state) xs"
| "eval_compiled state (GOr xs) = list_ex (eval_compiled state) xs"
| "eval_compiled state (GNot x) = (\<not> eval_compiled state x)"
| "eval_compiled state (Solved p) = is_some_and (is_solved state) (resolve_puzzle state p)"
| "eval_compiled state (AllSolved s) =
     is_some_and (list_all (is_solved state)) (materialize_set state s)"
| "eval_compiled state (AnySolved s) =
     is_some_and (list_ex (is_solved state)) (materialize_set state s)"
| "eval_compiled state GameStarted = game_started state"
| "eval_compiled state (Triggered p key) =
     is_some_and (\<lambda>i. is_triggered state i key) (resolve_puzzle state p)"
| "eval_compiled state (Cmp op lhs rhs) =
     cmp_usize op (eval_value state lhs) (eval_value state rhs)"

fun eval_hint_display_compiled :: "puzzle_states \<Rightarrow> hint_display_expr \<Rightarrow> bool \<Rightarrow> bool \<Rightarrow> bool" where
  "eval_hint_display_compiled state (HGate g) en cd = eval_compiled state g"
| "eval_hint_display_compiled state (HAnd xs) en cd =
     list_all (\<lambda>e. eval_hint_display_compiled state e en cd) xs"
| "eval_hint_display_compiled state (HOr xs) en cd =
     list_ex (\<lambda>e. eval_hint_display_compiled state e en cd) xs"
| "eval_hint_display_compiled state (HNot e) en cd = (\<not> eval_hint_display_compiled state e en cd)"
| "eval_hint_display_compiled state HintEnabled en cd = en"
| "eval_hint_display_compiled state HintCooledDown en cd = cd"

fun hint_display_uses_cooldown :: "hint_display_expr \<Rightarrow> bool" where
  "hint_display_uses_cooldown (HAnd xs) = list_ex hint_display_uses_cooldown xs"
| "hint_display_uses_cooldown (HOr xs) = list_ex hint_display_uses_cooldown xs"
| "hint_display_uses_cooldown (HNot e) = hint_display_uses_cooldown e"
| "hint_display_uses_cooldown HintCooledDown = True"
| "hint_display_uses_cooldown (HGate g) = False"
| "hint_display_uses_cooldown HintEnabled = False"

section \<open>Facts about evaluation\<close>

lemma is_some_and_iff: "is_some_and p x \<longleftrightarrow> (\<exists>y. x = Some y \<and> p y)"
  by (cases x) (auto simp: is_some_and_def)

lemma list_all_eval_append [simp]:
  "eval_compiled st (GAnd (xs @ ys)) \<longleftrightarrow> eval_compiled st (GAnd xs) \<and> eval_compiled st (GAnd ys)"
  "eval_compiled st (GOr (xs @ ys)) \<longleftrightarrow> eval_compiled st (GOr xs) \<or> eval_compiled st (GOr ys)"
  by simp_all

lemma cooldown_irrelevant:
  "\<not> hint_display_uses_cooldown e \<Longrightarrow>
   eval_hint_display_compiled st e en cd = eval_hint_display_compiled st e en cd'"
proof (induction e rule: hint_display_uses_cooldown.induct)
  case (1 xs)
  then show ?case by (auto simp: list_all_iff list_ex_iff)
next
  case (2 xs)
  then show ?case by (auto simp: list_all_iff list_ex_iff)
qed auto

lemma range_materializes:
  assumes "materialize_set st (PuzzleRange a b) = Some ids"
  shows "sorted ids" and "distinct ids" and "set ids = {min a b .. max a b}"
    and "length ids = max a b - min a b + 1"
  using assms by (auto simp: min_def max_def simp del: upt_Suc)

text \<open>
  A gate is positive when no operator in it can turn false as puzzles are solved: it has no
  negation, and a comparison bounds a count of solved puzzles from below.
\<close>

fun lower_bound_cmp :: "cmp_op \<Rightarrow> value_expr \<Rightarrow> value_expr \<Rightarrow> bool" where
  "lower_bound_cmp Gt _ (Number _) = True"
| "lower_bound_cmp Ge _ (Number _) = True"
| "lower_bound_cmp Lt (Number _) _ = True"
| "lower_bound_cmp Le (Number _) _ = True"
| "lower_bound_cmp _ _ _ = False"

fun positive_gate :: "gate_expr \<Rightarrow> bool" where
  "positive_gate (GAnd xs) = list_all positive_gate xs"
| "positive_gate (GOr xs) = list_all positive_gate xs"
| "positive_gate (GNot _) = False"
| "positive_gate (Cmp op lhs rhs) = lower_bound_cmp op lhs rhs"
| "positive_gate _ = True"

text \<open>The second state has everything the first has: more solved, started, triggered.\<close>

definition states_le :: "puzzle_states \<Rightarrow> puzzle_states \<Rightarrow> bool" where
  "states_le s t \<longleftrightarrow> (\<forall>i. is_solved s i \<longrightarrow> is_solved t i)
     \<and> puzzle_slug t = puzzle_slug s \<and> round_slug t = round_slug s
     \<and> round_puzzles t = round_puzzles s \<and> (game_started s \<longrightarrow> game_started t)
     \<and> (\<forall>i k. is_triggered s i k \<longrightarrow> is_triggered t i k)"

lemma states_le_resolve:
  assumes "states_le s t"
  shows "resolve_puzzle t = resolve_puzzle s" and "materialize_set t = materialize_set s"
proof -
  show r: "resolve_puzzle t = resolve_puzzle s"
  proof
    fix p show "resolve_puzzle t p = resolve_puzzle s p"
      using assms by (cases p) (auto simp: states_le_def)
  qed
  show "materialize_set t = materialize_set s"
  proof
    fix e show "materialize_set t e = materialize_set s e"
    proof (cases e)
      case (RoundSet x)
      with assms show ?thesis by (cases x) (auto simp: states_le_def split: option.splits)
    qed (simp_all add: r)
  qed
qed

lemma states_le_count:
  assumes "states_le s t"
  shows "eval_value s v \<le> eval_value t v"
proof (cases v)
  case (SolvedCount e)
  have "length (filter (is_solved s) ids) \<le> length (filter (is_solved t) ids)" for ids
    using assms by (induction ids) (auto simp: states_le_def)
  with SolvedCount assms show ?thesis by (simp add: states_le_resolve)
qed simp

lemma lower_bound_cmp_mono:
  assumes "lower_bound_cmp op l r" and "states_le s t"
    and "cmp_usize op (eval_value s l) (eval_value s r)"
  shows "cmp_usize op (eval_value t l) (eval_value t r)"
  using assms states_le_count [OF assms(2), of l] states_le_count [OF assms(2), of r]
  by (cases "(op, l, r)" rule: lower_bound_cmp.cases) auto

lemma eval_mono:
  "positive_gate g \<Longrightarrow> states_le s t \<Longrightarrow> eval_compiled s g \<Longrightarrow> eval_compiled t g"
proof (induction g rule: positive_gate.induct)
  case (4 op lhs rhs)
  then show ?case by (auto intro: lower_bound_cmp_mono)
qed (auto simp: list_all_iff list_ex_iff is_some_and_iff states_le_resolve, auto simp: states_le_def)

end
