(* ===== verification/Expr_Parser.thy ===== *)
theory Expr_Parser
  imports Expr_Syntax
begin

text \<open>
  \<^verbatim>\<open>src/expr/parser.rs\<close> and \<^verbatim>\<open>parse\<close> of \<^verbatim>\<open>src/expr/mod.rs\<close>: the tokenizer, the
  S-expression parser with its token index, and a printer that is their inverse. The recursion of
  \<open>parse_at\<close> spends fuel; \<open>parse_expr\<close> supplies twice the number of tokens, which is shown to be
  enough, so running out is not a possible result of \<open>parse_expr\<close>.
\<close>

datatype token = LParen | RParen | TAtom ustr

datatype parse_error = UnexpectedEof | UnexpectedToken ustr | UnbalancedParen

datatype raw_sexpr = Atom ustr | SList "raw_sexpr list"

section \<open>Tokenizer\<close>

fun flush :: "token list \<times> ustr \<Rightarrow> token list \<times> ustr" where
  "flush (tokens, buf) = (if buf \<noteq> [] then (tokens @ [TAtom buf], []) else (tokens, buf))"

definition push_token :: "token \<Rightarrow> token list \<times> ustr \<Rightarrow> token list \<times> ustr" where
  "push_token t st = (fst st @ [t], snd st)"

definition tokenize_char :: "token list \<times> ustr \<Rightarrow> nat \<Rightarrow> token list \<times> ustr" where
  "tokenize_char st ch =
     (if ch = 40 then push_token LParen (flush st)
      else if ch = 41 then push_token RParen (flush st)
      else if is_whitespace ch then flush st
      else (fst st, snd st @ [ch]))"

definition tokenize :: "ustr \<Rightarrow> token list" where
  "tokenize expr = fst (flush (foldl tokenize_char ([], []) expr))"

section \<open>Parser\<close>

fun parse_at :: "nat \<Rightarrow> nat \<Rightarrow> token list \<Rightarrow> (parse_error + raw_sexpr \<times> nat) option"
and parse_list_loop ::
  "nat \<Rightarrow> raw_sexpr list \<Rightarrow> nat \<Rightarrow> token list \<Rightarrow> (parse_error + raw_sexpr \<times> nat) option" where
  "parse_at 0 index tokens = None"
| "parse_at (Suc fuel) index tokens =
     (case get_opt tokens index of
        None \<Rightarrow> Some (Inl UnexpectedEof)
      | Some LParen \<Rightarrow> parse_list_loop fuel [] (index + 1) tokens
      | Some RParen \<Rightarrow> Some (Inl (UnexpectedToken (lit '')'')))
      | Some (TAtom expr) \<Rightarrow> Some (Inr (Atom expr, index + 1)))"
| "parse_list_loop 0 inline_tokens inline_index tokens = None"
| "parse_list_loop (Suc fuel) inline_tokens inline_index tokens =
     (case get_opt tokens inline_index of
        None \<Rightarrow> Some (Inl UnexpectedEof)
      | Some inline_token \<Rightarrow>
          if inline_token = RParen then Some (Inr (SList inline_tokens, inline_index + 1))
          else case parse_at fuel inline_index tokens of
                 None \<Rightarrow> None
               | Some (Inl e) \<Rightarrow> Some (Inl e)
               | Some (Inr (s, index)) \<Rightarrow> parse_list_loop fuel (inline_tokens @ [s]) index tokens)"

definition parse_fuel :: "token list \<Rightarrow> nat" where
  "parse_fuel tokens = 2 * length tokens + 1"

definition parse_expr :: "token list \<Rightarrow> parse_error + raw_sexpr \<times> nat" where
  "parse_expr tokens =
     (case parse_at (parse_fuel tokens) 0 tokens of None \<Rightarrow> Inl UnexpectedEof | Some r \<Rightarrow> r)"

datatype parse_failure = ParseErr parse_error | TrailingTokens

definition parse :: "ustr \<Rightarrow> parse_failure + raw_sexpr" where
  "parse expr =
     (let tokens = tokenize expr
      in case parse_expr tokens of
           Inl e \<Rightarrow> Inl (ParseErr e)
         | Inr (sexpr, used) \<Rightarrow>
             if used \<noteq> length tokens then Inl TrailingTokens else Inr sexpr)"

section \<open>Termination: the fuel is enough\<close>

lemma parse_progress:
  "parse_at fuel i ts = Some (Inr (s, j)) \<Longrightarrow> i < j \<and> j \<le> length ts"
  "parse_list_loop fuel acc k ts = Some (Inr (s, j)) \<Longrightarrow> k < j \<and> j \<le> length ts"
proof (induction fuel i ts and fuel acc k ts arbitrary: s j and s j
    rule: parse_at_parse_list_loop.induct)
  case (2 fuel index tokens)
  then show ?case
    by (fastforce simp: get_opt_Some_iff split: option.splits token.splits)
next
  case (4 fuel acc k tokens)
  show ?case
  proof (cases "get_opt tokens k")
    case None
    with "4.prems" show ?thesis by simp
  next
    case (Some t)
    then have k: "k < length tokens" by (simp add: get_opt_Some_iff)
    show ?thesis
    proof (cases "t = RParen")
      case True
      with "4.prems" Some k show ?thesis by simp
    next
      case False
      with "4.prems" Some obtain s' j' where
        at: "parse_at fuel k tokens = Some (Inr (s', j'))"
        and rest: "parse_list_loop fuel (acc @ [s']) j' tokens = Some (Inr (s, j))"
        by (auto split: option.splits sum.splits)
      from "4.IH"(1) [OF Some False at] have "k < j'" by simp
      moreover from "4.IH"(2) [OF Some False at refl refl rest] have "j' < j \<and> j \<le> length tokens" .
      ultimately show ?thesis by simp
    qed
  qed
qed auto

lemma parse_enough_fuel:
  "2 * (length ts - i) < fuel \<Longrightarrow> parse_at fuel i ts \<noteq> None"
  "2 * (length ts - k) + 1 < fuel \<Longrightarrow> parse_list_loop fuel acc k ts \<noteq> None"
proof (induction fuel i ts and fuel acc k ts rule: parse_at_parse_list_loop.induct)
  case (2 fuel index tokens)
  then show ?case
    by (auto simp: get_opt_Some_iff split: option.splits token.splits)
next
  case (4 fuel acc k tokens)
  show ?case
  proof (cases "get_opt tokens k")
    case (Some t)
    then have k: "k < length tokens" by (simp add: get_opt_Some_iff)
    show ?thesis
    proof (cases "t = RParen")
      case False
      have at: "parse_at fuel k tokens \<noteq> None"
        using "4.IH"(1) [OF Some False] "4.prems" k by simp
      have "parse_list_loop fuel (acc @ [s]) j tokens \<noteq> None"
        if "parse_at fuel k tokens = Some (Inr (s, j))" for s j
        using "4.IH"(2) [OF Some False that, of "(s, j)"] parse_progress(1) [OF that] "4.prems" k
        by auto
      with Some False at show ?thesis by (auto split: sum.splits)
    qed (simp add: Some)
  qed simp
qed auto

lemma parse_more_fuel:
  "parse_at fuel i ts = Some r \<Longrightarrow> fuel \<le> fuel' \<Longrightarrow> parse_at fuel' i ts = Some r"
  "parse_list_loop fuel acc k ts = Some r \<Longrightarrow> fuel \<le> fuel' \<Longrightarrow> parse_list_loop fuel' acc k ts = Some r"
proof (induction fuel i ts and fuel acc k ts arbitrary: r fuel' and r fuel'
    rule: parse_at_parse_list_loop.induct)
  case (2 fuel index tokens)
  from "2.prems"(2) obtain f where f: "fuel' = Suc f" "fuel \<le> f" by (cases fuel') auto
  show ?case
  proof (cases "get_opt tokens index")
    case None
    with "2.prems"(1) f(1) show ?thesis by simp
  next
    case (Some t)
    show ?thesis
    proof (cases t)
      case LParen
      with "2.prems"(1) Some have "parse_list_loop fuel [] (index + 1) tokens = Some r" by simp
      from "2.IH" [OF Some LParen this f(2)] show ?thesis by (simp add: Some LParen f(1))
    next
      case RParen
      with "2.prems"(1) Some f(1) show ?thesis by simp
    next
      case (TAtom a)
      with "2.prems"(1) Some f(1) show ?thesis by simp
    qed
  qed
next
  case (4 fuel acc k tokens)
  from "4.prems"(2) obtain f where f: "fuel' = Suc f" "fuel \<le> f" by (cases fuel') auto
  show ?case
  proof (cases "get_opt tokens k")
    case None
    with "4.prems"(1) f(1) show ?thesis by simp
  next
    case (Some t)
    show ?thesis
    proof (cases "t = RParen")
      case True
      with "4.prems"(1) Some f(1) show ?thesis by simp
    next
      case False
      with "4.prems"(1) Some obtain q where at: "parse_at fuel k tokens = Some q"
        by (auto split: option.splits)
      have at': "parse_at f k tokens = Some q"
        using "4.IH"(1) [OF Some False at f(2)] .
      show ?thesis
      proof (cases q)
        case (Inl e)
        with "4.prems"(1) Some False at at' f show ?thesis by auto
      next
        case (Inr p)
        obtain s j where p: "p = (s, j)" by (cases p)
        from "4.prems"(1) Some False at Inr p
        have "parse_list_loop fuel (acc @ [s]) j tokens = Some r" by simp
        from "4.IH"(2) [OF Some False at Inr p [symmetric] this f(2)]
        show ?thesis using Some False at' Inr p f by simp
      qed
    qed
  qed
qed auto

section \<open>The printer, and the parser as its inverse\<close>

fun tokens_of :: "raw_sexpr \<Rightarrow> token list" where
  "tokens_of (Atom a) = [TAtom a]"
| "tokens_of (SList xs) = LParen # concat (map tokens_of xs) @ [RParen]"

lemma tokens_of_hd: "\<exists>t ts. tokens_of e = t # ts \<and> t \<noteq> RParen"
  by (cases e) auto

text \<open>\<open>parses ts i s j\<close>: some amount of fuel reads \<open>s\<close> from index \<open>i\<close> up to \<open>j\<close>.\<close>

definition parses :: "token list \<Rightarrow> nat \<Rightarrow> raw_sexpr \<Rightarrow> nat \<Rightarrow> bool" where
  "parses ts i s j \<longleftrightarrow> (\<exists>n. parse_at n i ts = Some (Inr (s, j)))"

definition loops :: "token list \<Rightarrow> raw_sexpr list \<Rightarrow> nat \<Rightarrow> raw_sexpr \<Rightarrow> nat \<Rightarrow> bool" where
  "loops ts acc i s j \<longleftrightarrow> (\<exists>n. parse_list_loop n acc i ts = Some (Inr (s, j)))"

lemma parses_atom: "get_opt ts i = Some (TAtom a) \<Longrightarrow> parses ts i (Atom a) (Suc i)"
  unfolding parses_def by (rule exI [of _ 1]) simp

lemma parses_list: "get_opt ts i = Some LParen \<Longrightarrow> loops ts [] (Suc i) s j \<Longrightarrow> parses ts i s j"
  unfolding parses_def loops_def
  by (erule exE, rule_tac x = "Suc n" in exI) simp

lemma loops_stop: "get_opt ts i = Some RParen \<Longrightarrow> loops ts acc i (SList acc) (Suc i)"
  unfolding loops_def by (rule exI [of _ 1]) simp

lemma loops_step:
  assumes t: "get_opt ts i = Some t" "t \<noteq> RParen"
    and p: "parses ts i s k" and l: "loops ts (acc @ [s]) k r j"
  shows "loops ts acc i r j"
proof -
  from p obtain n where n: "parse_at n i ts = Some (Inr (s, k))" by (auto simp: parses_def)
  from l obtain m where m: "parse_list_loop m (acc @ [s]) k ts = Some (Inr (r, j))"
    by (auto simp: loops_def)
  from parse_more_fuel(1) [OF n, of "max n m"] parse_more_fuel(2) [OF m, of "max n m"] t
  have "parse_list_loop (Suc (max n m)) acc i ts = Some (Inr (r, j))" by simp
  then show ?thesis unfolding loops_def ..
qed

lemma get_opt_middle [simp]: "get_opt (pre @ t # post) (length pre) = Some t"
  by (simp add: get_opt_def)

lemma loops_complete:
  assumes "\<And>x pre post. x \<in> set xs \<Longrightarrow>
      parses (pre @ tokens_of x @ post) (length pre) x (length pre + length (tokens_of x))"
  shows "loops (pre @ concat (map tokens_of xs) @ RParen # post) acc (length pre) (SList (acc @ xs))
    (length pre + length (concat (map tokens_of xs)) + 1)"
  using assms
proof (induction xs arbitrary: acc pre)
  case Nil
  show ?case using loops_stop [of "pre @ RParen # post" "length pre" acc] by simp
next
  case (Cons x xs)
  let ?ts = "pre @ tokens_of x @ concat (map tokens_of xs) @ RParen # post"
  obtain t u where t: "tokens_of x = t # u" "t \<noteq> RParen" using tokens_of_hd by blast
  have "get_opt ?ts (length pre) = Some t" by (simp add: t)
  moreover have "parses ?ts (length pre) x (length (pre @ tokens_of x))"
    using Cons.prems [of x pre] by simp
  moreover have "loops ?ts (acc @ [x]) (length (pre @ tokens_of x)) (SList ((acc @ [x]) @ xs))
      (length (pre @ tokens_of x) + length (concat (map tokens_of xs)) + 1)"
    using Cons.IH [of "pre @ tokens_of x" "acc @ [x]"] Cons.prems by simp
  ultimately show ?case using loops_step [OF _ t(2)] by (simp add: add.assoc)
qed

lemma parses_complete:
  "parses (pre @ tokens_of e @ post) (length pre) e (length pre + length (tokens_of e))"
proof (induction e arbitrary: pre post)
  case (Atom a)
  then show ?case using parses_atom [of "pre @ TAtom a # post"] by simp
next
  case (SList xs)
  let ?ts = "pre @ LParen # concat (map tokens_of xs) @ RParen # post"
  have "loops ?ts [] (Suc (length pre)) (SList xs) (length pre + length (tokens_of (SList xs)))"
    using loops_complete [of xs "pre @ [LParen]" post "[]"] SList.IH by simp
  then show ?case using parses_list [of ?ts] by simp
qed

lemma parse_sound:
  "parse_at n i ts = Some (Inr (s, j)) \<Longrightarrow> take (j - i) (drop i ts) = tokens_of s"
  "parse_list_loop n acc k ts = Some (Inr (s, j)) \<Longrightarrow>
     \<exists>xs. s = SList (acc @ xs) \<and> take (j - k) (drop k ts) = concat (map tokens_of xs) @ [RParen]"
proof (induction n i ts and n acc k ts arbitrary: s j and s j rule: parse_at_parse_list_loop.induct)
  case (2 fuel i ts)
  from "2.prems" obtain t where t: "get_opt ts i = Some t" by (auto split: option.splits)
  then have d: "drop i ts = t # drop (Suc i) ts"
    by (auto simp: get_opt_Some_iff Cons_nth_drop_Suc)
  show ?case
  proof (cases t)
    case LParen
    with "2.prems" t have l: "parse_list_loop fuel [] (i + 1) ts = Some (Inr (s, j))" by simp
    from parse_progress(2) [OF this] have "j - i = Suc (j - Suc i)" by arith
    with "2.IH" [OF t LParen l] d LParen show ?thesis by auto
  qed (use "2.prems" t d in auto)
next
  case (4 fuel acc k ts)
  from "4.prems" obtain t where t: "get_opt ts k = Some t" by (auto split: option.splits)
  then have d: "drop k ts = t # drop (Suc k) ts"
    by (auto simp: get_opt_Some_iff Cons_nth_drop_Suc)
  show ?case
  proof (cases "t = RParen")
    case True
    with "4.prems" t d show ?thesis by auto
  next
    case False
    with "4.prems" t obtain s' k' where
      at: "parse_at fuel k ts = Some (Inr (s', k'))"
      and l: "parse_list_loop fuel (acc @ [s']) k' ts = Some (Inr (s, j))"
      by (auto split: option.splits sum.splits)
    from "4.IH"(2) [OF t False at refl refl l] obtain xs where
      xs: "s = SList ((acc @ [s']) @ xs)"
      "take (j - k') (drop k' ts) = concat (map tokens_of xs) @ [RParen]" by auto
    have split: "j - k = (k' - k) + (j - k')" and dr: "drop (k' - k) (drop k ts) = drop k' ts"
      using parse_progress(1) [OF at] parse_progress(2) [OF l] by simp_all
    have "take (j - k) (drop k ts) = take (k' - k) (drop k ts) @ take (j - k') (drop k' ts)"
      by (simp only: split take_add dr)
    with "4.IH"(1) [OF t False at] xs show ?thesis by (intro exI [of _ "s' # xs"]) simp
  qed
qed auto

lemma parse_expr_iff:
  "parse_expr ts = Inr (e, n) \<longleftrightarrow> n = length (tokens_of e) \<and> take n ts = tokens_of e"
proof
  assume "parse_expr ts = Inr (e, n)"
  then have at: "parse_at (parse_fuel ts) 0 ts = Some (Inr (e, n))"
    by (auto simp: parse_expr_def split: option.splits)
  with parse_sound(1) [OF at] parse_progress(1) [OF at]
  show "n = length (tokens_of e) \<and> take n ts = tokens_of e"
    by (auto dest: arg_cong [of _ _ length])
next
  assume a: "n = length (tokens_of e) \<and> take n ts = tokens_of e"
  then have ts: "ts = tokens_of e @ drop n ts" by (metis append_take_drop_id)
  from parses_complete [of "[]" e "drop n ts"] obtain m where
    m: "parse_at m 0 ts = Some (Inr (e, n))" using ts a by (auto simp: parses_def)
  obtain r where r: "parse_at (parse_fuel ts) 0 ts = Some r"
    using parse_enough_fuel(1) [of ts 0 "parse_fuel ts"] by (auto simp: parse_fuel_def)
  from parse_more_fuel(1) [OF m, of "max m (parse_fuel ts)"]
    parse_more_fuel(1) [OF r, of "max m (parse_fuel ts)"]
  have "r = Inr (e, n)" by simp
  with r show "parse_expr ts = Inr (e, n)" by (simp add: parse_expr_def)
qed

text \<open>Rendering as text: atoms separated by single spaces inside parentheses.\<close>

definition wf_atom :: "ustr \<Rightarrow> bool" where
  "wf_atom a \<longleftrightarrow> a \<noteq> [] \<and> list_all (\<lambda>c. c \<noteq> 40 \<and> c \<noteq> 41 \<and> \<not> is_whitespace c) a"

fun wf_sexpr :: "raw_sexpr \<Rightarrow> bool" where
  "wf_sexpr (Atom a) = wf_atom a"
| "wf_sexpr (SList xs) = list_all wf_sexpr xs"

fun join_spaces :: "ustr list \<Rightarrow> ustr" where
  "join_spaces [] = []"
| "join_spaces [s] = s"
| "join_spaces (s # ss) = s @ 32 # join_spaces ss"

fun render :: "raw_sexpr \<Rightarrow> ustr" where
  "render (Atom a) = a"
| "render (SList xs) = 40 # join_spaces (map render xs) @ [41]"

lemma tokenize_atom:
  "list_all (\<lambda>c. c \<noteq> 40 \<and> c \<noteq> 41 \<and> \<not> is_whitespace c) a \<Longrightarrow>
   foldl tokenize_char (ts, buf) a = (ts, buf @ a)"
  by (induction a arbitrary: buf) (auto simp: tokenize_char_def)

lemma tokenize_delims [simp]:
  "tokenize_char st 32 = flush st"
  "tokenize_char st 40 = push_token LParen (flush st)"
  "tokenize_char st 41 = push_token RParen (flush st)"
  by (simp_all add: tokenize_char_def is_whitespace_def)

lemma tokenize_items:
  assumes "\<And>x ts. x \<in> set xs \<Longrightarrow>
      flush (foldl tokenize_char (ts, []) (render x)) = (ts @ tokens_of x, [])"
  shows "flush (foldl tokenize_char (ts, []) (join_spaces (map render xs)))
    = (ts @ concat (map tokens_of xs), [])"
  using assms
proof (induction xs arbitrary: ts rule: induct_list012)
  case (3 x y zs)
  from "3.prems" [of x ts] "3.IH"(2) [of "ts @ tokens_of x"] "3.prems" show ?case by simp
qed auto

lemma tokenize_render:
  "wf_sexpr e \<Longrightarrow> flush (foldl tokenize_char (ts, []) (render e)) = (ts @ tokens_of e, [])"
proof (induction e arbitrary: ts)
  case (Atom a)
  then show ?case by (simp add: wf_atom_def tokenize_atom)
next
  case (SList xs)
  then have "flush (foldl tokenize_char (ts @ [LParen], []) (join_spaces (map render xs)))
    = ((ts @ [LParen]) @ concat (map tokens_of xs), [])"
    by (intro tokenize_items) (auto simp: list_all_iff)
  then show ?case by (simp add: push_token_def)
qed

fun tokens_ok :: "token list \<times> ustr \<Rightarrow> bool" where
  "tokens_ok (ts, buf) \<longleftrightarrow> (\<forall>a. TAtom a \<in> set ts \<longrightarrow> wf_atom a)
     \<and> list_all (\<lambda>c. c \<noteq> 40 \<and> c \<noteq> 41 \<and> \<not> is_whitespace c) buf"

lemma tokens_ok_step: "tokens_ok st \<Longrightarrow> tokens_ok (tokenize_char st c)"
  by (cases st) (auto simp: tokenize_char_def push_token_def wf_atom_def)

lemma tokens_ok_foldl: "tokens_ok st \<Longrightarrow> tokens_ok (foldl tokenize_char st s)"
  by (induction s arbitrary: st) (simp_all add: tokens_ok_step)

lemma tokenize_wf_atoms: "TAtom a \<in> set (tokenize s) \<Longrightarrow> wf_atom a"
proof -
  assume a: "TAtom a \<in> set (tokenize s)"
  obtain ts buf where f: "foldl tokenize_char ([], []) s = (ts, buf)" by fastforce
  have "tokens_ok (ts, buf)" using tokens_ok_foldl [of "([], [])" s] f by simp
  with a f show "wf_atom a" by (auto simp: tokenize_def wf_atom_def split: if_splits)
qed

lemma parse_iff: "parse s = Inr e \<longleftrightarrow> tokenize s = tokens_of e"
proof
  assume "parse s = Inr e"
  then have "parse_expr (tokenize s) = Inr (e, length (tokenize s))"
    by (auto simp: parse_def Let_def split: sum.splits if_splits)
  then show "tokenize s = tokens_of e" by (simp add: parse_expr_iff)
next
  assume "tokenize s = tokens_of e"
  then have "parse_expr (tokenize s) = Inr (e, length (tokenize s))" by (simp add: parse_expr_iff)
  then show "parse s = Inr e" by (simp add: parse_def)
qed

lemma parse_wf: "parse s = Inr e \<Longrightarrow> wf_sexpr e"
proof -
  assume "parse s = Inr e"
  then have "\<forall>a. TAtom a \<in> set (tokens_of e) \<longrightarrow> wf_atom a"
    using tokenize_wf_atoms [of _ s] by (simp add: parse_iff)
  then show "wf_sexpr e"
    by (induction e) (auto simp: list_all_iff)
qed

lemma parse_render: "wf_sexpr e \<Longrightarrow> parse (render e) = Inr e"
  using tokenize_render [of e "[]"] by (simp add: parse_iff tokenize_def)

section \<open>Properties\<close>

text \<open>
  C24: the parser always returns. The fuel \<open>parse_expr\<close> supplies is enough on every token list, and
  any larger amount gives the same answer.
\<close>

theorem parse_expr_terminates:
  "\<exists>r. parse_at (2 * length tokens + 1) 0 tokens = Some r \<and> parse_expr tokens = r
    \<and> (\<forall>k. parse_at (2 * length tokens + 1 + k) 0 tokens = Some r)"
proof -
  obtain r where r: "parse_at (2 * length tokens + 1) 0 tokens = Some r"
    using parse_enough_fuel(1) [of tokens 0 "2 * length tokens + 1"] by auto
  have "parse_expr tokens = r" by (simp only: parse_expr_def parse_fuel_def r option.case)
  with r show ?thesis using parse_more_fuel(1) [OF r] le_add1 by blast
qed

text \<open>
  C31: parsing inverts printing. The text rendered from an expression whose atoms are non-empty and
  free of parentheses and white space parses back to that expression; everything the parser accepts
  is such an expression, so re-rendering and re-parsing an accepted text gives the same expression.
\<close>

theorem parse_render_roundtrip:
  "(wf_sexpr e \<longrightarrow> parse (render e) = Inr e) \<and> (parse s = Inr e \<longrightarrow> parse (render e) = Inr e)"
  using parse_render parse_wf by blast

lemma parse_render_roundtrip_witness:
  "parse (render (SList [Atom [97], SList [], Atom [49, 50]]))
    = Inr (SList [Atom [97], SList [], Atom [49, 50]])"
proof -
  have "wf_sexpr (SList [Atom [97], SList [], Atom [49, 50]])"
    by (simp add: wf_atom_def is_whitespace_def)
  then show ?thesis
    using parse_render_roundtrip [of "SList [Atom [97], SList [], Atom [49, 50]]" "[]"] by blast
qed

text \<open>
  C23: the accepted language, exactly. \<open>parse\<close> accepts a text with result \<open>e\<close> if and only if the text's
  tokens are the printed form of \<open>e\<close>; in particular no text has two parses and trailing tokens are
  always refused.
\<close>

theorem parse_accepts_exactly_printed:
  "parse s = Inr e \<longleftrightarrow> tokenize s = tokens_of e"
  by (rule parse_iff)

end
