(* ===== verification/Expr_Compiler.thy ===== *)
theory Expr_Compiler
  imports Expr_Parser
begin

text \<open>
  \<^verbatim>\<open>src/expr/compiler.rs\<close>: from S-expressions to gate and hint-display expressions, with the
  simplifications the compiler makes on the way. The reference meaning \<open>gate_meaning\<close> reads the
  S-expression directly and is what the compiled form is compared with.
\<close>

datatype compile_error =
    BadForm string
  | UnknownOp ustr
  | ExpectedAtom
  | ExpectedNumber
  | ExpectedSetExpr
  | ExpectedValueExpr

section \<open>Atoms\<close>

fun atom :: "raw_sexpr \<Rightarrow> compile_error + ustr" where
  "atom (Atom a) = Inr a"
| "atom (SList xs) = Inl ExpectedAtom"

definition parse_u32 :: "raw_sexpr \<Rightarrow> compile_error + nat" where
  "parse_u32 s = res_bind (atom s) (\<lambda>a. ok_or ExpectedNumber (parse_unsigned u32_max a))"

definition parse_usize :: "raw_sexpr \<Rightarrow> compile_error + nat" where
  "parse_usize s = res_bind (atom s) (\<lambda>a. ok_or ExpectedNumber (parse_unsigned usize_max a))"

definition parse_puzzle_ref :: "raw_sexpr \<Rightarrow> compile_error + puzzle_ref" where
  "parse_puzzle_ref s = res_bind (atom s) (\<lambda>a.
     Inr (case parse_unsigned u32_max a of Some i \<Rightarrow> PId i | None \<Rightarrow> PSlug a))"

definition parse_round_ref :: "raw_sexpr \<Rightarrow> compile_error + round_ref" where
  "parse_round_ref s = res_bind (atom s) (\<lambda>a.
     Inr (case parse_unsigned u32_max a of Some i \<Rightarrow> RId i | None \<Rightarrow> RSlug a))"

definition op_to_cmp :: "ustr \<Rightarrow> cmp_op option" where
  "op_to_cmp op =
     (if op = lit ''gt'' then Some Gt
      else if op = lit ''ge'' then Some Ge
      else if op = lit ''lt'' then Some Lt
      else if op = lit ''le'' then Some Le
      else if op = lit ''eq'' then Some Eq
      else if op = lit ''ne'' then Some Ne
      else None)"

section \<open>Simplifying constructors\<close>

fun and_child :: "gate_expr \<Rightarrow> gate_expr list" where
  "and_child GTrue = []"
| "and_child (GAnd children) = children"
| "and_child child = [child]"

fun or_child :: "gate_expr \<Rightarrow> gate_expr list" where
  "or_child GFalse = []"
| "or_child (GOr children) = children"
| "or_child child = [child]"

definition simplify_and :: "gate_expr list \<Rightarrow> gate_expr" where
  "simplify_and children =
     (if GFalse \<in> set children then GFalse
      else case concat (map and_child children) of
             [] \<Rightarrow> GTrue
           | [x] \<Rightarrow> x
           | compiled \<Rightarrow> GAnd compiled)"

definition simplify_or :: "gate_expr list \<Rightarrow> gate_expr" where
  "simplify_or children =
     (if GTrue \<in> set children then GTrue
      else case concat (map or_child children) of
             [] \<Rightarrow> GFalse
           | [x] \<Rightarrow> x
           | compiled \<Rightarrow> GOr compiled)"

fun negate_gate :: "gate_expr \<Rightarrow> gate_expr" where
  "negate_gate GTrue = GFalse"
| "negate_gate GFalse = GTrue"
| "negate_gate (GNot inner) = inner"
| "negate_gate expr = GNot expr"

section \<open>Compiling sets, values and gates\<close>

fun compile_set :: "raw_sexpr \<Rightarrow> compile_error + set_expr" where
  "compile_set (Atom a) = Inl ExpectedSetExpr"
| "compile_set (SList []) = Inl (BadForm ''empty list'')"
| "compile_set (SList (h # args)) = res_bind (atom h) (\<lambda>head.
     if head = lit ''puzzles'' then
       res_bind (collect_res parse_puzzle_ref args) (\<lambda>ids. Inr (Puzzles ids))
     else if head = lit ''puzzle-range'' then
       (case args of
          [a, b] \<Rightarrow> res_bind (parse_u32 a) (\<lambda>s. res_bind (parse_u32 b) (\<lambda>e. Inr (PuzzleRange s e)))
        | _ \<Rightarrow> Inl (BadForm ''puzzle-range expects 2 args''))
     else if head = lit ''round'' then
       (case args of
          [a] \<Rightarrow> res_bind (parse_round_ref a) (\<lambda>r. Inr (RoundSet r))
        | _ \<Rightarrow> Inl (BadForm ''round expects 1 arg''))
     else Inl ExpectedSetExpr)"

fun compile_value :: "raw_sexpr \<Rightarrow> compile_error + value_expr" where
  "compile_value (Atom a) = res_bind (parse_usize (Atom a)) (\<lambda>n. Inr (Number n))"
| "compile_value (SList []) = Inl (BadForm ''empty list'')"
| "compile_value (SList (h # args)) = res_bind (atom h) (\<lambda>head.
     if head = lit ''solved-count'' then
       (case args of
          [a] \<Rightarrow> res_bind (compile_set a) (\<lambda>s. Inr (SolvedCount s))
        | _ \<Rightarrow> Inl (BadForm ''solved-count expects 1 set arg''))
     else Inl ExpectedValueExpr)"

definition trigger_key_tail :: "nat \<Rightarrow> bool" where
  "trigger_key_tail ch \<longleftrightarrow> is_ascii_alphanumeric ch \<or> ch = 95 \<or> ch = 45"

fun valid_key :: "ustr \<Rightarrow> bool" where
  "valid_key [] = False"
| "valid_key (c # cs) =
     (str_len (c # cs) \<le> 64 \<and> is_ascii_alphabetic c \<and> list_all trigger_key_tail cs)"

fun compile_gate :: "raw_sexpr \<Rightarrow> compile_error + gate_expr" where
  "compile_gate (Atom a) = Inl (BadForm ''bare atom not allowed'')"
| "compile_gate (SList []) = Inl (BadForm ''empty list'')"
| "compile_gate (SList (h # args)) = res_bind (atom h) (\<lambda>head.
     if head = lit ''true'' then
       (if args \<noteq> [] then Inl (BadForm ''true expects 0 arg'') else Inr GTrue)
     else if head = lit ''false'' then
       (if args \<noteq> [] then Inl (BadForm ''false expects 0 arg'') else Inr GFalse)
     else if head = lit ''and'' then
       res_bind (collect_res compile_gate args) (\<lambda>children. Inr (simplify_and children))
     else if head = lit ''or'' then
       res_bind (collect_res compile_gate args) (\<lambda>children. Inr (simplify_or children))
     else if head = lit ''not'' then
       (case args of
          [a] \<Rightarrow> res_bind (compile_gate a) (\<lambda>g. Inr (negate_gate g))
        | _ \<Rightarrow> Inl (BadForm ''not expects 1 arg''))
     else if head = lit ''solved'' then
       (case args of
          [a] \<Rightarrow> res_bind (parse_puzzle_ref a) (\<lambda>p. Inr (Solved p))
        | _ \<Rightarrow> Inl (BadForm ''solved expects 1 arg''))
     else if head = lit ''all-solved'' then
       (case args of
          [a] \<Rightarrow> res_bind (compile_set a) (\<lambda>s. Inr (AllSolved s))
        | _ \<Rightarrow> Inl (BadForm ''all-solved expects 1 set arg''))
     else if head = lit ''any-solved'' then
       (case args of
          [a] \<Rightarrow> res_bind (compile_set a) (\<lambda>s. Inr (AnySolved s))
        | _ \<Rightarrow> Inl (BadForm ''any-solved expects 1 set arg''))
     else if head = lit ''game-started'' then
       (if args \<noteq> [] then Inl (BadForm ''game-started expects 0 arg'') else Inr GameStarted)
     else if head = lit ''triggered'' then
       (case args of
          [a, b] \<Rightarrow> res_bind (atom b) (\<lambda>key.
             if \<not> valid_key key then Inl (BadForm ''invalid trigger key'')
             else res_bind (parse_puzzle_ref a) (\<lambda>p. Inr (Triggered p key)))
        | _ \<Rightarrow> Inl (BadForm ''triggered expects 2 args''))
     else if op_to_cmp head \<noteq> None then
       (case args of
          [a, b] \<Rightarrow> res_bind (compile_value a) (\<lambda>l. res_bind (compile_value b) (\<lambda>r.
             Inr (Cmp (the (op_to_cmp head)) l r)))
        | _ \<Rightarrow> Inl (BadForm ''comparison expects 2 args''))
     else Inl (UnknownOp head))"

section \<open>Hint display expressions\<close>

fun hint_and_child :: "hint_display_expr \<Rightarrow> hint_display_expr list" where
  "hint_and_child (HGate GTrue) = []"
| "hint_and_child (HAnd children) = children"
| "hint_and_child child = [child]"

fun hint_or_child :: "hint_display_expr \<Rightarrow> hint_display_expr list" where
  "hint_or_child (HGate GFalse) = []"
| "hint_or_child (HOr children) = children"
| "hint_or_child child = [child]"

definition simplify_hint_and :: "hint_display_expr list \<Rightarrow> hint_display_expr" where
  "simplify_hint_and children =
     (if HGate GFalse \<in> set children then HGate GFalse
      else case concat (map hint_and_child children) of
             [] \<Rightarrow> HGate GTrue
           | [x] \<Rightarrow> x
           | compiled \<Rightarrow> HAnd compiled)"

definition simplify_hint_or :: "hint_display_expr list \<Rightarrow> hint_display_expr" where
  "simplify_hint_or children =
     (if HGate GTrue \<in> set children then HGate GTrue
      else case concat (map hint_or_child children) of
             [] \<Rightarrow> HGate GFalse
           | [x] \<Rightarrow> x
           | compiled \<Rightarrow> HOr compiled)"

fun negate_hint :: "hint_display_expr \<Rightarrow> hint_display_expr" where
  "negate_hint (HGate GTrue) = HGate GFalse"
| "negate_hint (HGate GFalse) = HGate GTrue"
| "negate_hint (HNot inner) = inner"
| "negate_hint expr = HNot expr"

fun compile_hint_display :: "raw_sexpr \<Rightarrow> compile_error + hint_display_expr" where
  "compile_hint_display (Atom a) = Inl (BadForm ''bare atom not allowed'')"
| "compile_hint_display (SList []) = Inl (BadForm ''empty list'')"
| "compile_hint_display (SList (h # args)) = res_bind (atom h) (\<lambda>head.
     if head = lit ''hint-enabled'' then
       (if args \<noteq> [] then Inl (BadForm ''hint-enabled expects 0 arg'') else Inr HintEnabled)
     else if head = lit ''hint-cooled-down'' then
       (if args \<noteq> [] then Inl (BadForm ''hint-cooled-down expects 0 arg'') else Inr HintCooledDown)
     else if head = lit ''and'' then
       res_bind (collect_res compile_hint_display args) (\<lambda>cs. Inr (simplify_hint_and cs))
     else if head = lit ''or'' then
       res_bind (collect_res compile_hint_display args) (\<lambda>cs. Inr (simplify_hint_or cs))
     else if head = lit ''not'' then
       (case args of
          [a] \<Rightarrow> res_bind (compile_hint_display a) (\<lambda>g. Inr (negate_hint g))
        | _ \<Rightarrow> Inl (BadForm ''not expects 1 arg''))
     else res_bind (compile_gate (SList (h # args))) (\<lambda>g. Inr (HGate g)))"

section \<open>The simplifying constructors keep the meaning\<close>

lemma eval_and_children:
  "list_all (eval_compiled st) (concat (map and_child xs)) = list_all (eval_compiled st) xs"
proof (induction xs)
  case (Cons x xs)
  have "list_all (eval_compiled st) (and_child x) = eval_compiled st x" by (cases x) auto
  with Cons show ?case by simp
qed simp

lemma eval_or_children:
  "list_ex (eval_compiled st) (concat (map or_child xs)) = list_ex (eval_compiled st) xs"
proof (induction xs)
  case (Cons x xs)
  have "list_ex (eval_compiled st) (or_child x) = eval_compiled st x" by (cases x) auto
  with Cons show ?case by simp
qed simp

lemma eval_and_pick:
  "eval_compiled st (case xs of [] \<Rightarrow> GTrue | [x] \<Rightarrow> x | x # y # ys \<Rightarrow> GAnd (x # y # ys))
    = list_all (eval_compiled st) xs"
  by (auto split: list.split)

lemma eval_or_pick:
  "eval_compiled st (case xs of [] \<Rightarrow> GFalse | [x] \<Rightarrow> x | x # y # ys \<Rightarrow> GOr (x # y # ys))
    = list_ex (eval_compiled st) xs"
  by (auto split: list.split)

lemma eval_simplify_and [simp]:
  "eval_compiled st (simplify_and xs) = list_all (eval_compiled st) xs"
proof (cases "GFalse \<in> set xs")
  case True
  then have "\<not> list_all (eval_compiled st) xs" by (force simp: list_all_iff)
  with True show ?thesis by (simp add: simplify_and_def)
next
  case False
  then show ?thesis
    by (simp add: simplify_and_def eval_and_pick eval_and_children )
qed

lemma eval_simplify_or [simp]:
  "eval_compiled st (simplify_or xs) = list_ex (eval_compiled st) xs"
proof (cases "GTrue \<in> set xs")
  case True
  then have "list_ex (eval_compiled st) xs" by (force simp: list_ex_iff)
  with True show ?thesis by (simp add: simplify_or_def)
next
  case False
  then show ?thesis
    by (simp add: simplify_or_def eval_or_pick eval_or_children )
qed

lemma eval_negate_gate [simp]: "eval_compiled st (negate_gate g) = (\<not> eval_compiled st g)"
  by (cases g rule: negate_gate.cases) auto

section \<open>The meaning of an S-expression, read directly\<close>

definition ref_id :: "puzzle_states \<Rightarrow> ustr \<Rightarrow> puzzle_id option" where
  "ref_id st a = (case parse_unsigned u32_max a of Some i \<Rightarrow> Some i | None \<Rightarrow> puzzle_slug st a)"

definition round_ids :: "puzzle_states \<Rightarrow> ustr \<Rightarrow> puzzle_id list option" where
  "round_ids st a =
     (case parse_unsigned u32_max a of
        Some i \<Rightarrow> round_puzzles st i
      | None \<Rightarrow> (case round_slug st a of None \<Rightarrow> None | Some i \<Rightarrow> round_puzzles st i))"

fun text_of :: "raw_sexpr \<Rightarrow> ustr" where
  "text_of (Atom a) = a"
| "text_of (SList xs) = []"

fun set_meaning :: "puzzle_states \<Rightarrow> raw_sexpr \<Rightarrow> puzzle_id list option" where
  "set_meaning st (SList (Atom h # args)) =
     (if h = lit ''puzzles'' then collect_opt (\<lambda>x. ref_id st (text_of x)) args
      else if h = lit ''round'' then round_ids st (text_of (hd args))
      else (let a = the (parse_unsigned u32_max (text_of (args ! 0)));
                b = the (parse_unsigned u32_max (text_of (args ! 1)))
            in Some [min a b ..< Suc (max a b)]))"
| "set_meaning st _ = None"

fun value_meaning :: "puzzle_states \<Rightarrow> raw_sexpr \<Rightarrow> nat" where
  "value_meaning st (Atom a) = the (parse_unsigned usize_max a)"
| "value_meaning st (SList xs) =
     (case set_meaning st (last xs) of
        None \<Rightarrow> 0
      | Some ids \<Rightarrow> length (filter (is_solved st) ids))"

fun gate_meaning :: "puzzle_states \<Rightarrow> raw_sexpr \<Rightarrow> bool" where
  "gate_meaning st (SList (Atom h # args)) =
     (if h = lit ''true'' then True
      else if h = lit ''false'' then False
      else if h = lit ''and'' then (\<forall>x \<in> set args. gate_meaning st x)
      else if h = lit ''or'' then (\<exists>x \<in> set args. gate_meaning st x)
      else if h = lit ''not'' then (case args of a # _ \<Rightarrow> \<not> gate_meaning st a | [] \<Rightarrow> False)
      else if h = lit ''solved'' then
        (\<exists>i. ref_id st (text_of (hd args)) = Some i \<and> is_solved st i)
      else if h = lit ''all-solved'' then
        (\<exists>ids. set_meaning st (hd args) = Some ids \<and> (\<forall>i \<in> set ids. is_solved st i))
      else if h = lit ''any-solved'' then
        (\<exists>ids. set_meaning st (hd args) = Some ids \<and> (\<exists>i \<in> set ids. is_solved st i))
      else if h = lit ''game-started'' then game_started st
      else if h = lit ''triggered'' then
        (\<exists>i. ref_id st (text_of (hd args)) = Some i \<and> is_triggered st i (text_of (args ! 1)))
      else cmp_usize (the (op_to_cmp h)) (value_meaning st (hd args)) (value_meaning st (args ! 1)))"
| "gate_meaning st _ = False"

fun hint_meaning :: "puzzle_states \<Rightarrow> bool \<Rightarrow> bool \<Rightarrow> raw_sexpr \<Rightarrow> bool" where
  "hint_meaning st en cd (SList (Atom h # args)) =
     (if h = lit ''hint-enabled'' then en
      else if h = lit ''hint-cooled-down'' then cd
      else if h = lit ''and'' then (\<forall>x \<in> set args. hint_meaning st en cd x)
      else if h = lit ''or'' then (\<exists>x \<in> set args. hint_meaning st en cd x)
      else if h = lit ''not'' then (case args of a # _ \<Rightarrow> \<not> hint_meaning st en cd a | [] \<Rightarrow> False)
      else gate_meaning st (SList (Atom h # args)))"
| "hint_meaning st en cd _ = False"

lemma atom_Inr [simp]: "atom s = Inr a \<longleftrightarrow> s = Atom a"
  by (cases s) auto

lemma ok_or_Inr [simp]: "ok_or e x = Inr y \<longleftrightarrow> x = Some y"
  by (cases x) auto

lemma parse_num_Inr [simp]:
  "parse_u32 s = Inr n \<longleftrightarrow> (\<exists>a. s = Atom a \<and> parse_unsigned u32_max a = Some n)"
  "parse_usize s = Inr n \<longleftrightarrow> (\<exists>a. s = Atom a \<and> parse_unsigned usize_max a = Some n)"
  by (auto simp: parse_u32_def parse_usize_def res_bind_eq_Inr)

lemma parse_puzzle_ref_sound:
  "parse_puzzle_ref s = Inr r \<Longrightarrow> resolve_puzzle st r = ref_id st (text_of s)"
  by (auto simp: parse_puzzle_ref_def ref_id_def res_bind_eq_Inr split: option.splits)

lemma parse_round_ref_sound:
  "parse_round_ref s = Inr r \<Longrightarrow> resolve_round st r = round_ids st (text_of s)"
  by (auto simp: parse_round_ref_def round_ids_def res_bind_eq_Inr split: option.splits)

lemma collect_opt_map:
  "list_all2 (\<lambda>x y. f y = g x) xs ys \<Longrightarrow> collect_opt f ys = collect_opt g xs"
  by (induction rule: list_all2_induct) (auto split: option.split)

lemma compile_set_sound:
  assumes "compile_set e = Inr s"
  shows "materialize_set st s = set_meaning st e"
proof -
  obtain h args where e: "e = SList (Atom h # args)"
    using assms by (cases e rule: compile_set.cases) (auto simp: res_bind_eq_Inr)
  consider "h = lit ''puzzles''" | "h = lit ''puzzle-range''" | "h = lit ''round''"
    using assms by (auto simp: e res_bind_eq_Inr split: if_splits)
  then show ?thesis
  proof cases
    case 1
    with assms e obtain ids where s: "s = Puzzles ids" and c: "collect_res parse_puzzle_ref args = Inr ids"
      by (auto simp: res_bind_eq_Inr)
    have "list_all2 (\<lambda>x y. resolve_puzzle st y = ref_id st (text_of x)) args ids"
      using c unfolding collect_res_Inr by (rule list_all2_mono) (simp add: parse_puzzle_ref_sound)
    with 1 e s show ?thesis by (simp add: collect_opt_map)
  next
    case 2
    with assms e show ?thesis
      by (auto simp: res_bind_eq_Inr min_def max_def split: list.splits)
  next
    case 3
    with assms e show ?thesis
      by (auto simp: res_bind_eq_Inr parse_round_ref_sound split: list.splits)
  qed
qed

lemma compile_value_sound:
  assumes "compile_value e = Inr v"
  shows "eval_value st v = value_meaning st e"
  using assms
  by (cases e rule: compile_value.cases)
    (auto simp: res_bind_eq_Inr compile_set_sound unwrap_or_default_def
      split: if_splits list.splits option.splits)

lemma compile_gate_list:
  "compile_gate e = Inr g \<Longrightarrow> \<exists>h args. e = SList (Atom h # args)"
  by (cases e rule: compile_gate.cases) (auto simp: res_bind_eq_Inr)

lemma list_all2_eval:
  "list_all2 (\<lambda>x y. f x = Inr y) xs ys \<Longrightarrow>
   (\<And>x y. x \<in> set xs \<Longrightarrow> f x = Inr y \<Longrightarrow> p y = q x) \<Longrightarrow>
   list_all p ys = (\<forall>x \<in> set xs. q x) \<and> list_ex p ys = (\<exists>x \<in> set xs. q x)"
  by (induction rule: list_all2_induct) auto

lemma compile_gate_sound:
  "compile_gate e = Inr g \<Longrightarrow> eval_compiled st g = gate_meaning st e"
proof (induction e arbitrary: g rule: compile_gate.induct)
  case (3 x args)
  then obtain h where x: "x = Atom h" using compile_gate_list by blast
  have sets: "compile_set a = Inr s \<Longrightarrow> materialize_set st s = set_meaning st a" for a s
    by (rule compile_set_sound)
  consider "h = lit ''and''" | "h = lit ''or''" | "h = lit ''not''"
    | "h \<noteq> lit ''and''" "h \<noteq> lit ''or''" "h \<noteq> lit ''not''" by blast
  then show ?case
  proof cases
    case 1
    with 3(4) x obtain cs where g: "g = simplify_and cs"
      and c: "list_all2 (\<lambda>x y. compile_gate x = Inr y) args cs"
      by (auto simp: res_bind_eq_Inr collect_res_Inr)
    have "list_all (eval_compiled st) cs = (\<forall>x \<in> set args. gate_meaning st x)"
      using list_all2_eval [OF c, of "eval_compiled st" "gate_meaning st"] 3(1) x 1 by simp
    with g x 1 show ?thesis by simp
  next
    case 2
    with 3(4) x obtain cs where g: "g = simplify_or cs"
      and c: "list_all2 (\<lambda>x y. compile_gate x = Inr y) args cs"
      by (auto simp: res_bind_eq_Inr collect_res_Inr)
    have "list_ex (eval_compiled st) cs = (\<exists>x \<in> set args. gate_meaning st x)"
      using list_all2_eval [OF c, of "eval_compiled st" "gate_meaning st"] 3(2) x 2 by simp
    with g x 2 show ?thesis by simp
  next
    case 3
    with "3.prems" x obtain a g' where "args = [a]" "compile_gate a = Inr g'" "g = negate_gate g'"
      by (auto simp: res_bind_eq_Inr split: list.splits)
    with "3.IH"(3) x 3 show ?thesis by simp
  next
    case 4
    with "3.prems" x show ?thesis
      by (auto simp: res_bind_eq_Inr parse_puzzle_ref_sound sets compile_value_sound
          is_some_and_iff list_all_iff list_ex_iff split: if_splits list.splits)
  qed
qed simp_all

lemma eval_hint_and_children:
  "list_all (\<lambda>e. eval_hint_display_compiled st e en cd) (concat (map hint_and_child xs))
    = list_all (\<lambda>e. eval_hint_display_compiled st e en cd) xs"
proof (induction xs)
  case (Cons x xs)
  have "list_all (\<lambda>e. eval_hint_display_compiled st e en cd) (hint_and_child x)
      = eval_hint_display_compiled st x en cd"
    by (cases x rule: hint_and_child.cases) auto
  with Cons show ?case by simp
qed simp

lemma eval_hint_or_children:
  "list_ex (\<lambda>e. eval_hint_display_compiled st e en cd) (concat (map hint_or_child xs))
    = list_ex (\<lambda>e. eval_hint_display_compiled st e en cd) xs"
proof (induction xs)
  case (Cons x xs)
  have "list_ex (\<lambda>e. eval_hint_display_compiled st e en cd) (hint_or_child x)
      = eval_hint_display_compiled st x en cd"
    by (cases x rule: hint_or_child.cases) auto
  with Cons show ?case by simp
qed simp

lemma eval_hint_and_pick:
  "eval_hint_display_compiled st
     (case xs of [] \<Rightarrow> HGate GTrue | [x] \<Rightarrow> x | x # y # ys \<Rightarrow> HAnd (x # y # ys)) en cd
    = list_all (\<lambda>e. eval_hint_display_compiled st e en cd) xs"
  by (auto split: list.split)

lemma eval_hint_or_pick:
  "eval_hint_display_compiled st
     (case xs of [] \<Rightarrow> HGate GFalse | [x] \<Rightarrow> x | x # y # ys \<Rightarrow> HOr (x # y # ys)) en cd
    = list_ex (\<lambda>e. eval_hint_display_compiled st e en cd) xs"
  by (auto split: list.split)

lemma eval_simplify_hint_and [simp]:
  "eval_hint_display_compiled st (simplify_hint_and xs) en cd
    = list_all (\<lambda>e. eval_hint_display_compiled st e en cd) xs"
proof (cases "HGate GFalse \<in> set xs")
  case True
  then have "\<not> list_all (\<lambda>e. eval_hint_display_compiled st e en cd) xs"
    by (force simp: list_all_iff)
  with True show ?thesis by (simp add: simplify_hint_and_def)
next
  case False
  then show ?thesis
    by (simp add: simplify_hint_and_def eval_hint_and_pick eval_hint_and_children)
qed

lemma eval_simplify_hint_or [simp]:
  "eval_hint_display_compiled st (simplify_hint_or xs) en cd
    = list_ex (\<lambda>e. eval_hint_display_compiled st e en cd) xs"
proof (cases "HGate GTrue \<in> set xs")
  case True
  then have "list_ex (\<lambda>e. eval_hint_display_compiled st e en cd) xs" by (force simp: list_ex_iff)
  with True show ?thesis by (simp add: simplify_hint_or_def)
next
  case False
  then show ?thesis
    by (simp add: simplify_hint_or_def eval_hint_or_pick eval_hint_or_children)
qed

lemma eval_negate_hint [simp]:
  "eval_hint_display_compiled st (negate_hint e) en cd
    = (\<not> eval_hint_display_compiled st e en cd)"
  by (cases e rule: negate_hint.cases) auto

lemma compile_hint_list:
  "compile_hint_display e = Inr g \<Longrightarrow> \<exists>h args. e = SList (Atom h # args)"
  by (cases e rule: compile_hint_display.cases) (auto simp: res_bind_eq_Inr)

lemma compile_hint_sound:
  "compile_hint_display e = Inr g \<Longrightarrow>
   eval_hint_display_compiled st g en cd = hint_meaning st en cd e"
proof (induction e arbitrary: g rule: compile_hint_display.induct)
  case (3 x args)
  then obtain h where x: "x = Atom h" using compile_hint_list by blast
  consider "h = lit ''and''" | "h = lit ''or''" | "h = lit ''not''"
    | "h \<noteq> lit ''and''" "h \<noteq> lit ''or''" "h \<noteq> lit ''not''" by blast
  then show ?case
  proof cases
    case 1
    with 3(4) x obtain cs where g: "g = simplify_hint_and cs"
      and c: "list_all2 (\<lambda>x y. compile_hint_display x = Inr y) args cs"
      by (auto simp: res_bind_eq_Inr collect_res_Inr)
    have "list_all (\<lambda>e. eval_hint_display_compiled st e en cd) cs
        = (\<forall>x \<in> set args. hint_meaning st en cd x)"
      using list_all2_eval [OF c, of _ "hint_meaning st en cd"] 3(1) x 1 by simp
    with g x 1 show ?thesis by simp
  next
    case 2
    with 3(4) x obtain cs where g: "g = simplify_hint_or cs"
      and c: "list_all2 (\<lambda>x y. compile_hint_display x = Inr y) args cs"
      by (auto simp: res_bind_eq_Inr collect_res_Inr)
    have "list_ex (\<lambda>e. eval_hint_display_compiled st e en cd) cs
        = (\<exists>x \<in> set args. hint_meaning st en cd x)"
      using list_all2_eval [OF c, of _ "hint_meaning st en cd"] 3(2) x 2 by simp
    with g x 2 show ?thesis by simp
  next
    case 3
    with "3.prems" x obtain a g' where
      "args = [a]" "compile_hint_display a = Inr g'" "g = negate_hint g'"
      by (auto simp: res_bind_eq_Inr split: list.splits)
    with "3.IH"(3) x 3 show ?thesis by simp
  next
    case 4
    with "3.prems" x show ?thesis
      by (auto simp: res_bind_eq_Inr compile_gate_sound split: if_splits
          simp del: compile_gate.simps gate_meaning.simps)
  qed
qed simp_all

section \<open>The normal form the compiler produces\<close>

text \<open>
  Constants occur only at the top; a conjunction has at least two children, none of them a
  conjunction, and dually; no negation is applied to a negation.
\<close>

fun is_and :: "gate_expr \<Rightarrow> bool" where
  "is_and (GAnd xs) = True" | "is_and _ = False"

fun is_or :: "gate_expr \<Rightarrow> bool" where
  "is_or (GOr xs) = True" | "is_or _ = False"

fun is_not :: "gate_expr \<Rightarrow> bool" where
  "is_not (GNot x) = True" | "is_not _ = False"

fun nf_core :: "gate_expr \<Rightarrow> bool" where
  "nf_core GTrue = False"
| "nf_core GFalse = False"
| "nf_core (GAnd xs) = (2 \<le> length xs \<and> list_all (\<lambda>x. nf_core x \<and> \<not> is_and x) xs)"
| "nf_core (GOr xs) = (2 \<le> length xs \<and> list_all (\<lambda>x. nf_core x \<and> \<not> is_or x) xs)"
| "nf_core (GNot x) = (nf_core x \<and> \<not> is_not x)"
| "nf_core _ = True"

definition nf_gate :: "gate_expr \<Rightarrow> bool" where
  "nf_gate g \<longleftrightarrow> g = GTrue \<or> g = GFalse \<or> nf_core g"

lemma nf_and_children:
  "list_all nf_gate xs \<Longrightarrow> GFalse \<notin> set xs \<Longrightarrow>
   list_all (\<lambda>x. nf_core x \<and> \<not> is_and x) (concat (map and_child xs))"
proof (induction xs)
  case (Cons x xs)
  have "list_all (\<lambda>x. nf_core x \<and> \<not> is_and x) (and_child x)"
    using Cons.prems by (cases x) (auto simp: nf_gate_def)
  with Cons show ?case by simp
qed simp

lemma nf_or_children:
  "list_all nf_gate xs \<Longrightarrow> GTrue \<notin> set xs \<Longrightarrow>
   list_all (\<lambda>x. nf_core x \<and> \<not> is_or x) (concat (map or_child xs))"
proof (induction xs)
  case (Cons x xs)
  have "list_all (\<lambda>x. nf_core x \<and> \<not> is_or x) (or_child x)"
    using Cons.prems by (cases x) (auto simp: nf_gate_def)
  with Cons show ?case by simp
qed simp

lemma nf_pick:
  "list_all (\<lambda>x. nf_core x \<and> \<not> is_and x) xs \<Longrightarrow>
   nf_gate (case xs of [] \<Rightarrow> GTrue | [x] \<Rightarrow> x | x # y # ys \<Rightarrow> GAnd (x # y # ys))"
  "list_all (\<lambda>x. nf_core x \<and> \<not> is_or x) xs \<Longrightarrow>
   nf_gate (case xs of [] \<Rightarrow> GFalse | [x] \<Rightarrow> x | x # y # ys \<Rightarrow> GOr (x # y # ys))"
  by (auto simp: nf_gate_def split: list.split)

lemma nf_simplify:
  "list_all nf_gate xs \<Longrightarrow> nf_gate (simplify_and xs)"
  "list_all nf_gate xs \<Longrightarrow> nf_gate (simplify_or xs)"
  unfolding simplify_and_def simplify_or_def
  by (simp_all add: nf_pick nf_and_children nf_or_children nf_gate_def [of GFalse] nf_gate_def [of GTrue])

lemma nf_negate: "nf_gate g \<Longrightarrow> nf_gate (negate_gate g)"
  by (cases g rule: negate_gate.cases) (auto simp: nf_gate_def)

lemma list_all2_all:
  "list_all2 (\<lambda>x y. f x = Inr y) xs ys \<Longrightarrow>
   (\<And>x y. x \<in> set xs \<Longrightarrow> f x = Inr y \<Longrightarrow> p y) \<Longrightarrow> list_all p ys"
  by (induction rule: list_all2_induct) auto

lemma compile_gate_nf: "compile_gate e = Inr g \<Longrightarrow> nf_gate g"
proof (induction e arbitrary: g rule: compile_gate.induct)
  case (3 x args)
  then obtain h where x: "x = Atom h" using compile_gate_list by blast
  consider "h = lit ''and''" | "h = lit ''or''" | "h = lit ''not''"
    | "h \<noteq> lit ''and''" "h \<noteq> lit ''or''" "h \<noteq> lit ''not''" by blast
  then show ?case
  proof cases
    case 1
    with 3(4) x obtain cs where g: "g = simplify_and cs"
      and c: "list_all2 (\<lambda>x y. compile_gate x = Inr y) args cs"
      by (auto simp: res_bind_eq_Inr collect_res_Inr)
    have "list_all nf_gate cs" using list_all2_all [OF c] 3(1) x 1 by simp
    then show ?thesis unfolding g by (rule nf_simplify)
  next
    case 2
    with 3(4) x obtain cs where g: "g = simplify_or cs"
      and c: "list_all2 (\<lambda>x y. compile_gate x = Inr y) args cs"
      by (auto simp: res_bind_eq_Inr collect_res_Inr)
    have "list_all nf_gate cs" using list_all2_all [OF c] 3(2) x 2 by simp
    then show ?thesis unfolding g by (rule nf_simplify)
  next
    case 3
    with "3.prems" x obtain a g' where "args = [a]" "compile_gate a = Inr g'" "g = negate_gate g'"
      by (auto simp: res_bind_eq_Inr split: list.splits)
    with "3.IH"(3) x 3 show ?thesis by (simp add: nf_negate)
  next
    case 4
    with "3.prems" x show ?thesis
      by (auto simp: res_bind_eq_Inr nf_gate_def split: if_splits list.splits)
  qed
qed simp_all

fun hint_is_and :: "hint_display_expr \<Rightarrow> bool" where
  "hint_is_and (HAnd xs) = True" | "hint_is_and _ = False"

fun hint_is_or :: "hint_display_expr \<Rightarrow> bool" where
  "hint_is_or (HOr xs) = True" | "hint_is_or _ = False"

fun hint_is_not :: "hint_display_expr \<Rightarrow> bool" where
  "hint_is_not (HNot x) = True" | "hint_is_not _ = False"

fun nf_hint_core :: "hint_display_expr \<Rightarrow> bool" where
  "nf_hint_core (HGate g) = nf_core g"
| "nf_hint_core (HAnd xs) = (2 \<le> length xs \<and> list_all (\<lambda>x. nf_hint_core x \<and> \<not> hint_is_and x) xs)"
| "nf_hint_core (HOr xs) = (2 \<le> length xs \<and> list_all (\<lambda>x. nf_hint_core x \<and> \<not> hint_is_or x) xs)"
| "nf_hint_core (HNot x) = (nf_hint_core x \<and> \<not> hint_is_not x)"
| "nf_hint_core _ = True"

definition nf_hint :: "hint_display_expr \<Rightarrow> bool" where
  "nf_hint e \<longleftrightarrow> e = HGate GTrue \<or> e = HGate GFalse \<or> nf_hint_core e"

lemma nf_hint_and_children:
  "list_all nf_hint xs \<Longrightarrow> HGate GFalse \<notin> set xs \<Longrightarrow>
   list_all (\<lambda>x. nf_hint_core x \<and> \<not> hint_is_and x) (concat (map hint_and_child xs))"
proof (induction xs)
  case (Cons x xs)
  have "list_all (\<lambda>x. nf_hint_core x \<and> \<not> hint_is_and x) (hint_and_child x)"
    using Cons.prems by (cases x rule: hint_and_child.cases) (auto simp: nf_hint_def)
  with Cons show ?case by simp
qed simp

lemma nf_hint_or_children:
  "list_all nf_hint xs \<Longrightarrow> HGate GTrue \<notin> set xs \<Longrightarrow>
   list_all (\<lambda>x. nf_hint_core x \<and> \<not> hint_is_or x) (concat (map hint_or_child xs))"
proof (induction xs)
  case (Cons x xs)
  have "list_all (\<lambda>x. nf_hint_core x \<and> \<not> hint_is_or x) (hint_or_child x)"
    using Cons.prems by (cases x rule: hint_or_child.cases) (auto simp: nf_hint_def)
  with Cons show ?case by simp
qed simp

lemma nf_hint_pick:
  "list_all (\<lambda>x. nf_hint_core x \<and> \<not> hint_is_and x) xs \<Longrightarrow>
   nf_hint (case xs of [] \<Rightarrow> HGate GTrue | [x] \<Rightarrow> x | x # y # ys \<Rightarrow> HAnd (x # y # ys))"
  "list_all (\<lambda>x. nf_hint_core x \<and> \<not> hint_is_or x) xs \<Longrightarrow>
   nf_hint (case xs of [] \<Rightarrow> HGate GFalse | [x] \<Rightarrow> x | x # y # ys \<Rightarrow> HOr (x # y # ys))"
  by (auto simp: nf_hint_def split: list.split)

lemma nf_hint_simplify:
  "list_all nf_hint xs \<Longrightarrow> nf_hint (simplify_hint_and xs)"
  "list_all nf_hint xs \<Longrightarrow> nf_hint (simplify_hint_or xs)"
  unfolding simplify_hint_and_def simplify_hint_or_def
  by (simp_all add: nf_hint_pick nf_hint_and_children nf_hint_or_children
      nf_hint_def [of "HGate GFalse"] nf_hint_def [of "HGate GTrue"])

lemma nf_hint_negate: "nf_hint g \<Longrightarrow> nf_hint (negate_hint g)"
  by (cases g rule: negate_hint.cases) (auto simp: nf_hint_def)

lemma compile_hint_nf: "compile_hint_display e = Inr g \<Longrightarrow> nf_hint g"
proof (induction e arbitrary: g rule: compile_hint_display.induct)
  case (3 x args)
  then obtain h where x: "x = Atom h" using compile_hint_list by blast
  consider "h = lit ''and''" | "h = lit ''or''" | "h = lit ''not''"
    | "h \<noteq> lit ''and''" "h \<noteq> lit ''or''" "h \<noteq> lit ''not''" by blast
  then show ?case
  proof cases
    case 1
    with 3(4) x obtain cs where g: "g = simplify_hint_and cs"
      and c: "list_all2 (\<lambda>x y. compile_hint_display x = Inr y) args cs"
      by (auto simp: res_bind_eq_Inr collect_res_Inr)
    have "list_all nf_hint cs" using list_all2_all [OF c] 3(1) x 1 by simp
    then show ?thesis unfolding g by (rule nf_hint_simplify)
  next
    case 2
    with 3(4) x obtain cs where g: "g = simplify_hint_or cs"
      and c: "list_all2 (\<lambda>x y. compile_hint_display x = Inr y) args cs"
      by (auto simp: res_bind_eq_Inr collect_res_Inr)
    have "list_all nf_hint cs" using list_all2_all [OF c] 3(2) x 2 by simp
    then show ?thesis unfolding g by (rule nf_hint_simplify)
  next
    case 3
    with "3.prems" x obtain a g' where
      "args = [a]" "compile_hint_display a = Inr g'" "g = negate_hint g'"
      by (auto simp: res_bind_eq_Inr split: list.splits)
    with "3.IH"(3) x 3 show ?thesis by (simp add: nf_hint_negate)
  next
    case 4
    have gate: "nf_hint (HGate g')" if "compile_gate (SList (Atom h # args)) = Inr g'" for g'
      using compile_gate_nf [OF that] by (auto simp: nf_gate_def nf_hint_def)
    from 4 "3.prems" x gate show ?thesis
      by (auto simp: res_bind_eq_Inr nf_hint_def [of HintEnabled] nf_hint_def [of HintCooledDown]
          split: if_splits simp del: compile_gate.simps)
  qed
qed simp_all

section \<open>The accepted forms\<close>

inductive set_form :: "raw_sexpr \<Rightarrow> bool" where
  "set_form (SList (Atom (lit ''puzzles'') # map Atom refs))"
| "parse_unsigned u32_max a = Some i \<Longrightarrow> parse_unsigned u32_max b = Some j \<Longrightarrow>
   set_form (SList [Atom (lit ''puzzle-range''), Atom a, Atom b])"
| "set_form (SList [Atom (lit ''round''), Atom r])"

inductive value_form :: "raw_sexpr \<Rightarrow> bool" where
  "parse_unsigned usize_max a = Some n \<Longrightarrow> value_form (Atom a)"
| "set_form s \<Longrightarrow> value_form (SList [Atom (lit ''solved-count''), s])"

inductive gate_form :: "raw_sexpr \<Rightarrow> bool" where
  nullary: "h \<in> {lit ''true'', lit ''false'', lit ''game-started''} \<Longrightarrow> gate_form (SList [Atom h])"
| junction: "h \<in> {lit ''and'', lit ''or''} \<Longrightarrow> (\<And>x. x \<in> set xs \<Longrightarrow> gate_form x) \<Longrightarrow>
    gate_form (SList (Atom h # xs))"
| negation: "gate_form x \<Longrightarrow> gate_form (SList [Atom (lit ''not''), x])"
| solved: "gate_form (SList [Atom (lit ''solved''), Atom p])"
| quantified: "h \<in> {lit ''all-solved'', lit ''any-solved''} \<Longrightarrow> set_form s \<Longrightarrow>
    gate_form (SList [Atom h, s])"
| triggered: "valid_key key \<Longrightarrow> gate_form (SList [Atom (lit ''triggered''), Atom p, Atom key])"
| comparison: "op_to_cmp h = Some op \<Longrightarrow> value_form l \<Longrightarrow> value_form r \<Longrightarrow>
    gate_form (SList [Atom h, l, r])"

inductive_cases gate_form_listE: "gate_form (SList (Atom h # args))"
inductive_simps gate_form_atom [simp]: "gate_form (Atom a)"
inductive_simps gate_form_empty [simp]: "gate_form (SList [])"
inductive_simps gate_form_nested [simp]: "gate_form (SList (SList xs # args))"

lemma parse_ref_accepts [simp]:
  "(\<exists>r. parse_puzzle_ref s = Inr r) \<longleftrightarrow> (\<exists>a. s = Atom a)"
  "(\<exists>r. parse_round_ref s = Inr r) \<longleftrightarrow> (\<exists>a. s = Atom a)"
  by (cases s; simp add: parse_puzzle_ref_def parse_round_ref_def)+

lemma collect_res_accepts:
  "(\<exists>ys. collect_res f xs = Inr ys) \<longleftrightarrow> (\<forall>x \<in> set xs. \<exists>y. f x = Inr y)"
  by (induction xs) (auto split: sum.splits)

lemma atoms_iff: "(\<forall>x \<in> set xs. \<exists>a. x = Atom a) \<longleftrightarrow> (\<exists>as. xs = map Atom as)"
proof
  show "\<forall>x \<in> set xs. \<exists>a. x = Atom a \<Longrightarrow> \<exists>as. xs = map Atom as"
    by (induction xs) (auto intro: exI [of _ "[]"], metis list.simps(9))
qed auto

lemma compile_set_accepts: "(\<exists>s. compile_set e = Inr s) \<longleftrightarrow> set_form e"
proof
  assume "\<exists>s. compile_set e = Inr s"
  then obtain s where s: "compile_set e = Inr s" ..
  then obtain h args where e: "e = SList (Atom h # args)"
    by (cases e rule: compile_set.cases) (auto simp: res_bind_eq_Inr)
  consider "h = lit ''puzzles''" | "h = lit ''puzzle-range''" | "h = lit ''round''"
    using s by (auto simp: e res_bind_eq_Inr split: if_splits)
  then show "set_form e"
  proof cases
    case 1
    with s e obtain ids where "collect_res parse_puzzle_ref args = Inr ids"
      by (auto simp: res_bind_eq_Inr)
    then have "\<exists>as. args = map Atom as"
      unfolding atoms_iff [symmetric] using collect_res_accepts [of parse_puzzle_ref args] by auto
    with 1 e show ?thesis by (auto intro: set_form.intros)
  next
    case 2
    with s e show ?thesis by (auto simp: res_bind_eq_Inr intro: set_form.intros split: list.splits)
  next
    case 3
    with s e obtain a r where "args = [a]" "parse_round_ref a = Inr r"
      by (auto simp: res_bind_eq_Inr split: list.splits)
    moreover from this have "\<exists>t. a = Atom t" using parse_ref_accepts(2) [of a] by blast
    ultimately show ?thesis using 3 e by (auto intro: set_form.intros)
  qed
next
  assume "set_form e"
  then show "\<exists>s. compile_set e = Inr s"
  proof cases
    case (1 refs)
    have "\<exists>ids. collect_res parse_puzzle_ref (map Atom refs) = Inr ids"
      by (auto simp: collect_res_accepts)
    with 1 show ?thesis by auto
  next
    case (2 a i b j)
    then show ?thesis by (auto simp: parse_u32_def)
  next
    case (3 r)
    then show ?thesis by (simp add: parse_round_ref_def)
  qed
qed

lemma compile_value_accepts: "(\<exists>v. compile_value e = Inr v) \<longleftrightarrow> value_form e"
proof
  assume "\<exists>v. compile_value e = Inr v"
  then show "value_form e"
    by (cases e rule: compile_value.cases)
      (auto simp: res_bind_eq_Inr simp flip: compile_set_accepts split: if_splits list.splits
        intro: value_form.intros)
next
  assume "value_form e"
  then show "\<exists>v. compile_value e = Inr v"
    by cases (auto simp: parse_usize_def simp flip: compile_set_accepts)
qed

lemma compile_gate_accepted: "compile_gate e = Inr g \<Longrightarrow> gate_form e"
proof (induction e arbitrary: g rule: compile_gate.induct)
  case (3 x args)
  then obtain h where x: "x = Atom h" using compile_gate_list by blast
  have ref: "\<exists>t. a = Atom t" if "parse_puzzle_ref a = Inr r" for a r
    using parse_ref_accepts(1) [of a] that by blast
  have setf: "set_form a" if "compile_set a = Inr s" for a s
    using compile_set_accepts that by blast
  have valf: "value_form a" if "compile_value a = Inr s" for a s
    using compile_value_accepts that by blast
  consider (junction) "h = lit ''and'' \<or> h = lit ''or''" | (negation) "h = lit ''not''"
    | (other) "h \<noteq> lit ''and''" "h \<noteq> lit ''or''" "h \<noteq> lit ''not''" by blast
  then show ?case
  proof cases
    case junction
    with "3.prems" x obtain cs where "collect_res compile_gate args = Inr cs"
      by (auto simp: res_bind_eq_Inr)
    then have "\<forall>a \<in> set args. \<exists>g. compile_gate a = Inr g"
      using collect_res_accepts [of compile_gate args] by blast
    moreover have "gate_form a" if "a \<in> set args" "compile_gate a = Inr g" for a g
      using junction "3.IH"(1,2) x that by auto
    ultimately show ?thesis using junction x by (auto intro: gate_form.junction)
  next
    case negation
    with "3.prems" x obtain a g' where "args = [a]" "compile_gate a = Inr g'"
      by (auto simp: res_bind_eq_Inr split: list.splits)
    with "3.IH"(3) x negation show ?thesis by (auto intro: gate_form.negation)
  next
    case other
    with "3.prems" x show ?thesis
      by (auto simp: res_bind_eq_Inr split: if_splits list.splits intro: gate_form.intros setf valf
          dest!: ref)
  qed
qed simp_all

lemma gate_form_compiles: "gate_form e \<Longrightarrow> \<exists>g. compile_gate e = Inr g"
proof (induction rule: gate_form.induct)
  case (junction h xs)
  then have "\<exists>gs. collect_res compile_gate xs = Inr gs" by (simp add: collect_res_accepts)
  with junction show ?case by auto
next
  case (solved p)
  then show ?case by (simp add: parse_puzzle_ref_def)
next
  case (quantified h s)
  then show ?case by (auto simp flip: compile_set_accepts)
next
  case (triggered key p)
  then show ?case by (simp add: parse_puzzle_ref_def)
next
  case (comparison h op l r)
  then obtain v w where "compile_value l = Inr v" "compile_value r = Inr w"
    using compile_value_accepts by blast
  moreover from comparison(1) have "h \<in> {lit ''gt'', lit ''ge'', lit ''lt'', lit ''le'', lit ''eq'', lit ''ne''}"
    by (auto simp: op_to_cmp_def split: if_splits)
  ultimately show ?case by (auto simp: op_to_cmp_def)
qed auto

section \<open>Properties\<close>

text \<open>
  C1: compiling keeps the meaning. Whatever the compiler folds, drops or flattens, evaluating a
  compiled gate against any puzzle state gives the truth value of the S-expression read directly.
\<close>

theorem compile_gate_correct:
  assumes "compile_gate e = Inr g"
  shows "eval_compiled st g = gate_meaning st e"
  using assms by (rule compile_gate_sound)

lemmas ref_evals = parse_puzzle_ref_def parse_unsigned_def lit_def is_ascii_digit_def u32_max_def

lemma compile_gate_correct_witness:
  "\<forall>st. gate_meaning st (SList [Atom (lit ''and''), SList [Atom (lit ''true'')],
     SList [Atom (lit ''not''), SList [Atom (lit ''solved''), Atom (lit ''12'')]]])
   = (\<not> is_solved st 12)"
proof -
  let ?e = "SList [Atom (lit ''and''), SList [Atom (lit ''true'')],
     SList [Atom (lit ''not''), SList [Atom (lit ''solved''), Atom (lit ''12'')]]]"
  have p: "parse_puzzle_ref (Atom (lit ''12'')) = Inr (PId 12)" by (simp add: ref_evals)
  have "compile_gate ?e = Inr (GNot (Solved (PId 12)))" by (simp add: p simplify_and_def)
  from compile_gate_correct [OF this] show ?thesis
    by (simp add: is_some_and_iff del: gate_meaning.simps)
qed

text \<open>
  The same for hint display conditions, whose two extra atoms are the hint's enabled flag and
  its cool-down.
\<close>

theorem compile_hint_correct:
  assumes "compile_hint_display e = Inr g"
  shows "eval_hint_display_compiled st g en cd = hint_meaning st en cd e"
  using assms by (rule compile_hint_sound)

lemma compile_hint_correct_witness:
  "\<forall>st en cd. hint_meaning st en cd (SList [Atom (lit ''or''), SList [Atom (lit ''hint-enabled'')],
     SList [Atom (lit ''not''), SList [Atom (lit ''hint-cooled-down'')]]]) = (en \<or> \<not> cd)"
proof -
  have "compile_hint_display (SList [Atom (lit ''or''), SList [Atom (lit ''hint-enabled'')],
     SList [Atom (lit ''not''), SList [Atom (lit ''hint-cooled-down'')]]])
   = Inr (HOr [HintEnabled, HNot HintCooledDown])"
    by (simp add: simplify_hint_or_def)
  from compile_hint_correct [OF this] show ?thesis
    by (simp del: hint_meaning.simps)
qed

text \<open>
  C30: compiled expressions are in normal form: a constant occurs only as the whole expression, a
  conjunction or disjunction has at least two children and none of its own kind, and no negation
  stands under a negation, both in gates and in hint display conditions.
\<close>

theorem compiled_normal_form:
  "(compile_gate e = Inr g \<longrightarrow> nf_gate g) \<and> (compile_hint_display e = Inr h \<longrightarrow> nf_hint h)"
  using compile_gate_nf compile_hint_nf by blast

lemma compiled_normal_form_witness:
  "nf_gate (GOr [GameStarted, Solved (PId 7)])"
proof -
  have "parse_puzzle_ref (Atom (lit ''7'')) = Inr (PId 7)" by (simp add: ref_evals)
  then have "compile_gate (SList [Atom (lit ''or''), SList [Atom (lit ''game-started'')],
      SList [Atom (lit ''or''), SList [Atom (lit ''false'')], SList [Atom (lit ''solved''), Atom (lit ''7'')]]])
    = Inr (GOr [GameStarted, Solved (PId 7)])"
    by (simp add: simplify_or_def)
  with compiled_normal_form show ?thesis by blast
qed

text \<open>
  The compiler accepts exactly the documented forms. Every well-formed expression compiles and
  nothing else does, so a stored gate that compiled once is never rejected later.
\<close>

theorem compile_gate_total:
  "(\<exists>g. compile_gate e = Inr g) \<longleftrightarrow> gate_form e"
  using compile_gate_accepted gate_form_compiles by blast

text \<open>
  Unlock conditions without negation or upper bounds are monotone: once open they stay open
  while puzzles are solved, triggers fire and the game starts.
\<close>

theorem positive_gate_stays_open:
  assumes "positive_gate g" and "states_le s t" and "eval_compiled s g"
  shows "eval_compiled t g"
  using assms by (rule eval_mono)

definition blank_states :: puzzle_states where
  "blank_states = \<lparr>is_solved = (\<lambda>i. i = 1), solved = [1], puzzle_slug = (\<lambda>_. None),
    round_slug = (\<lambda>_. None), round_puzzles = (\<lambda>_. None), game_started = False,
    is_triggered = (\<lambda>_ _. False)\<rparr>"

lemma positive_gate_stays_open_witness:
  "eval_compiled (blank_states\<lparr>game_started := True\<rparr>)
    (GOr [Cmp Ge (SolvedCount (Puzzles [PId 1, PId 2])) (Number 1), GameStarted])"
proof (rule positive_gate_stays_open [of _ blank_states])
  show "states_le blank_states (blank_states\<lparr>game_started := True\<rparr>)"
    by (simp add: states_le_def blank_states_def)
qed (simp_all add: blank_states_def unwrap_or_default_def)

text \<open>
  \<open>uses_cooldown\<close> is sound. When it answers no, the condition has the same value whether or not
  the hint has cooled down; the admin API relies on this when it refuses a cool-down that would start
  from a display condition depending on the cool-down itself.
\<close>

theorem cooldown_free_condition:
  assumes "\<not> hint_display_uses_cooldown e"
  shows "eval_hint_display_compiled st e en cd = eval_hint_display_compiled st e en cd'"
  using assms by (rule cooldown_irrelevant)

lemma cooldown_free_condition_witness:
  "\<forall>st en. eval_hint_display_compiled st (HAnd [HintEnabled, HGate GameStarted]) en True
   = eval_hint_display_compiled st (HAnd [HintEnabled, HGate GameStarted]) en False"
  by (intro allI cooldown_free_condition) simp

end
