(* ===== verification/Expr_Cache.thy ===== *)
theory Expr_Cache
  imports Expr_Compiler "HOL-Library.AList"
begin

text \<open>
  The compile caches of \<^verbatim>\<open>src/expr/mod.rs\<close>. A hash map is an association list with distinct keys,
  whose length is \<^verbatim>\<open>len()\<close>; \<open>compile_cached\<close> takes the read lock and the write lock one after the
  other, so between the two another request may change the cache. The step relation \<open>cache_step\<close>
  has the write as an atomic step of its own.
\<close>

definition COMPILE_CACHE_CAPACITY :: nat where
  "COMPILE_CACHE_CAPACITY = 4096"

record 'r compile_cache =
  cvalues :: "(ustr \<times> 'r) list"
  insertion_order :: "ustr list"

definition cache_new :: "'r compile_cache" where
  "cache_new = \<lparr>cvalues = [], insertion_order = []\<rparr>"

definition cache_get :: "'r compile_cache \<Rightarrow> ustr \<Rightarrow> 'r option" where
  "cache_get c expression = map_of (cvalues c) expression"

text \<open>The eviction loop: it ends when there is room or when no key is left in insertion order.\<close>

fun evict :: "nat \<Rightarrow> (ustr \<times> 'r) list \<Rightarrow> ustr list \<Rightarrow> (ustr \<times> 'r) list \<times> ustr list" where
  "evict cap vals [] = (vals, [])"
| "evict cap vals (oldest # order) =
     (if length vals \<ge> cap then evict cap (AList.delete oldest vals) order
      else (vals, oldest # order))"

definition cache_insert :: "nat \<Rightarrow> 'r compile_cache \<Rightarrow> ustr \<Rightarrow> 'r \<Rightarrow> 'r compile_cache \<times> 'r" where
  "cache_insert cap c expression compiled =
     (case map_of (cvalues c) expression of
        Some existing \<Rightarrow> (c, existing)
      | None \<Rightarrow>
          (let (vals, order) = evict cap (cvalues c) (insertion_order c)
           in (\<lparr>cvalues = AList.update expression compiled vals,
                 insertion_order = order @ [expression]\<rparr>, compiled)))"

datatype expr_failure = ParseError parse_failure | CompileError compile_error

definition compile_gate_expr_uncached :: "ustr \<Rightarrow> expr_failure + gate_expr" where
  "compile_gate_expr_uncached expr =
     (case parse expr of
        Inl e \<Rightarrow> Inl (ParseError e)
      | Inr sexpr \<Rightarrow> (case compile_gate sexpr of Inl e \<Rightarrow> Inl (CompileError e) | Inr g \<Rightarrow> Inr g))"

definition compile_hint_display_expr_uncached :: "ustr \<Rightarrow> expr_failure + hint_display_expr" where
  "compile_hint_display_expr_uncached expr =
     (case parse expr of
        Inl e \<Rightarrow> Inl (ParseError e)
      | Inr sexpr \<Rightarrow>
          (case compile_hint_display sexpr of Inl e \<Rightarrow> Inl (CompileError e) | Inr g \<Rightarrow> Inr g))"

definition compile_cached ::
  "'r compile_cache \<Rightarrow> ustr \<Rightarrow> (ustr \<Rightarrow> 'r) \<Rightarrow> 'r compile_cache \<times> 'r" where
  "compile_cached c expression compile =
     (case cache_get c expression of
        Some compiled \<Rightarrow> (c, compiled)
      | None \<Rightarrow> cache_insert COMPILE_CACHE_CAPACITY c expression (compile expression))"

definition compile_gate_expr ::
  "(expr_failure + gate_expr) compile_cache \<Rightarrow> ustr
    \<Rightarrow> (expr_failure + gate_expr) compile_cache \<times> (expr_failure + gate_expr)" where
  "compile_gate_expr c expr = compile_cached c expr compile_gate_expr_uncached"

definition compile_hint_display_expr ::
  "(expr_failure + hint_display_expr) compile_cache \<Rightarrow> ustr
    \<Rightarrow> (expr_failure + hint_display_expr) compile_cache \<times> (expr_failure + hint_display_expr)" where
  "compile_hint_display_expr c expr = compile_cached c expr compile_hint_display_expr_uncached"

text \<open>Requests served one after the other, with their answers.\<close>

fun serve :: "('c \<Rightarrow> 'k \<Rightarrow> 'c \<times> 'r) \<Rightarrow> 'c \<Rightarrow> 'k list \<Rightarrow> 'c \<times> 'r list" where
  "serve call c [] = (c, [])"
| "serve call c (k # ks) = (let (c', r) = call c k; (c'', rs) = serve call c' ks in (c'', r # rs))"

section \<open>The interface of a memo table\<close>

text \<open>
  What a client of a memo table for \<open>f\<close> relies on: a state predicate \<open>ok\<close>, lookups that only
  return \<open>f\<close>'s values, and a store of \<open>f\<close>'s value that answers with it and keeps \<open>ok\<close>.
\<close>

locale memo_table =
  fixes f :: "'k \<Rightarrow> 'r"
    and ok :: "'c \<Rightarrow> bool"
    and get :: "'c \<Rightarrow> 'k \<Rightarrow> 'r option"
    and put :: "'c \<Rightarrow> 'k \<Rightarrow> 'r \<Rightarrow> 'c \<times> 'r"
  assumes get_sound: "ok c \<Longrightarrow> get c k = Some r \<Longrightarrow> r = f k"
    and put_ok: "ok c \<Longrightarrow> ok (fst (put c k (f k)))"
    and put_value: "ok c \<Longrightarrow> snd (put c k (f k)) = f k"
begin

definition memo_call :: "'c \<Rightarrow> 'k \<Rightarrow> 'c \<times> 'r" where
  "memo_call c k = (case get c k of Some r \<Rightarrow> (c, r) | None \<Rightarrow> put c k (f k))"

lemma memo_call_value: "ok c \<Longrightarrow> snd (memo_call c k) = f k"
  by (auto simp: memo_call_def put_value dest: get_sound split: option.split)

lemma memo_call_ok: "ok c \<Longrightarrow> ok (fst (memo_call c k))"
  by (auto simp: memo_call_def put_ok split: option.split)

lemma memo_calls_transparent:
  "ok c \<Longrightarrow> ok (fst (serve memo_call c ks)) \<and> snd (serve memo_call c ks) = map f ks"
proof (induction ks arbitrary: c)
  case (Cons k ks)
  from Cons.IH [OF memo_call_ok [OF Cons.prems]] memo_call_value [OF Cons.prems, of k]
  show ?case by (simp add: case_prod_beta Let_def)
qed simp

end

section \<open>The cache's invariant\<close>

definition cache_wf :: "nat \<Rightarrow> 'r compile_cache \<Rightarrow> bool" where
  "cache_wf cap c \<longleftrightarrow> distinct (map fst (cvalues c)) \<and> distinct (insertion_order c)
     \<and> set (insertion_order c) = fst ` set (cvalues c) \<and> length (cvalues c) \<le> cap"

definition cache_agrees :: "(ustr \<Rightarrow> 'r) \<Rightarrow> 'r compile_cache \<Rightarrow> bool" where
  "cache_agrees f c \<longleftrightarrow> (\<forall>(k, r) \<in> set (cvalues c). r = f k)"

definition cache_ok :: "nat \<Rightarrow> (ustr \<Rightarrow> 'r) \<Rightarrow> 'r compile_cache \<Rightarrow> bool" where
  "cache_ok cap f c \<longleftrightarrow> cache_wf cap c \<and> cache_agrees f c"

lemma cache_new_ok: "cache_ok cap f cache_new"
  by (simp add: cache_ok_def cache_wf_def cache_agrees_def cache_new_def)

lemma keys_delete: "fst ` set (AList.delete k vals) = fst ` set vals - {k}"
proof -
  have "set (map fst (AList.delete k vals)) = set (map fst vals) - {k}"
    by (simp only: AList.delete_keys set_removeAll)
  then show ?thesis by simp
qed

lemma length_delete:
  assumes "distinct (map fst vals)" and "k \<in> fst ` set vals"
  shows "length (AList.delete k vals) = length vals - 1"
proof -
  have "length (AList.delete k vals) = length (removeAll k (map fst vals))"
    by (simp only: AList.delete_keys [symmetric] length_map)
  also have "\<dots> = length (remove1 k (map fst vals))"
    using assms(1) by (simp add: distinct_remove1_removeAll)
  also have "\<dots> = length vals - 1" using assms(2) by (simp add: length_remove1)
  finally show ?thesis .
qed

lemma update_fresh: "k \<notin> fst ` set vals \<Longrightarrow> AList.update k v vals = vals @ [(k, v)]"
  by (induction vals) auto

lemma evict_props:
  assumes "distinct (map fst vals)" and "distinct order" and "set order = fst ` set vals"
    and "length vals \<le> cap" and "0 < cap" and "evict cap vals order = (vals', order')"
  shows "distinct (map fst vals') \<and> distinct order' \<and> set order' = fst ` set vals'
    \<and> length vals' < cap \<and> set vals' \<subseteq> set vals"
  using assms
proof (induction cap vals order rule: evict.induct)
  case (2 cap vals oldest order)
  show ?case
  proof (cases "length vals \<ge> cap")
    case True
    let ?v = "AList.delete oldest vals"
    have "length ?v = length vals - 1" using 2 by (intro length_delete) auto
    moreover have "set order = fst ` set ?v" using "2.prems" by (auto simp: keys_delete)
    moreover have "set ?v \<subseteq> set vals" by (auto simp: AList.delete_eq)
    moreover have "distinct (map fst ?v)" using "2.prems" by (simp add: AList.distinct_delete)
    ultimately show ?thesis using "2.IH" True "2.prems" by auto
  next
    case False
    with "2.prems"(6) have "vals' = vals" "order' = oldest # order" by simp_all
    with "2.prems" False show ?thesis by simp
  qed
qed auto

lemma cache_insert_ok:
  assumes ok: "cache_ok cap f c" and cap: "0 < cap"
  shows "cache_ok cap f (fst (cache_insert cap c k (f k)))"
    and "snd (cache_insert cap c k (f k)) = f k"
proof -
  have wf: "distinct (map fst (cvalues c))" "distinct (insertion_order c)"
    "set (insertion_order c) = fst ` set (cvalues c)" "length (cvalues c) \<le> cap"
    and ag: "\<And>k r. (k, r) \<in> set (cvalues c) \<Longrightarrow> r = f k"
    using ok by (auto simp: cache_ok_def cache_wf_def cache_agrees_def)
  show "snd (cache_insert cap c k (f k)) = f k"
    by (auto simp: cache_insert_def case_prod_beta dest: map_of_SomeD ag split: option.split)
  show "cache_ok cap f (fst (cache_insert cap c k (f k)))"
  proof (cases "map_of (cvalues c) k")
    case None
    obtain vs os where ev: "evict cap (cvalues c) (insertion_order c) = (vs, os)" by fastforce
    from evict_props [OF wf cap ev]
    have e: "distinct (map fst vs)" "distinct os" "set os = fst ` set vs" "length vs < cap"
      "set vs \<subseteq> set (cvalues c)" by auto
    from None e(5) have "k \<notin> fst ` set vs" by (auto simp: map_of_eq_None_iff)
    with None ev e ag show ?thesis
      by (auto simp: cache_insert_def cache_ok_def cache_wf_def cache_agrees_def update_fresh)
  qed (use ok in \<open>simp add: cache_insert_def\<close>)
qed

lemma cache_get_sound: "cache_ok cap f c \<Longrightarrow> cache_get c k = Some r \<Longrightarrow> r = f k"
  by (auto simp: cache_ok_def cache_agrees_def cache_get_def dest: map_of_SomeD)

lemma capacity_pos: "0 < COMPILE_CACHE_CAPACITY"
  by (simp add: COMPILE_CACHE_CAPACITY_def)

interpretation gate_memo: memo_table compile_gate_expr_uncached
  "cache_ok COMPILE_CACHE_CAPACITY compile_gate_expr_uncached" cache_get
  "cache_insert COMPILE_CACHE_CAPACITY"
  by unfold_locales (auto intro: cache_get_sound cache_insert_ok capacity_pos)

interpretation hint_memo: memo_table compile_hint_display_expr_uncached
  "cache_ok COMPILE_CACHE_CAPACITY compile_hint_display_expr_uncached" cache_get
  "cache_insert COMPILE_CACHE_CAPACITY"
  by unfold_locales (auto intro: cache_get_sound cache_insert_ok capacity_pos)

lemma compile_gate_expr_memo: "compile_gate_expr c e = gate_memo.memo_call c e"
  by (simp add: compile_gate_expr_def compile_cached_def gate_memo.memo_call_def)

lemma compile_hint_display_expr_memo: "compile_hint_display_expr c e = hint_memo.memo_call c e"
  by (simp add: compile_hint_display_expr_def compile_cached_def hint_memo.memo_call_def)

section \<open>Concurrent requests\<close>

text \<open>
  A request that misses remembers the expression and stores its result later; other requests run
  in between. A state is the cache and the expressions whose store is still to come.
\<close>

inductive cache_step ::
  "(ustr \<Rightarrow> 'r) \<Rightarrow> 'r compile_cache \<times> ustr list \<Rightarrow> (ustr \<times> 'r) option
    \<Rightarrow> 'r compile_cache \<times> ustr list \<Rightarrow> bool" for f where
  hit: "cache_get c k = Some r \<Longrightarrow> cache_step f (c, ps) (Some (k, r)) (c, ps)"
| miss: "cache_get c k = None \<Longrightarrow> cache_step f (c, ps) None (c, k # ps)"
| store: "k \<in> set ps \<Longrightarrow> cache_insert COMPILE_CACHE_CAPACITY c k (f k) = (c', r) \<Longrightarrow>
    cache_step f (c, ps) (Some (k, r)) (c', remove1 k ps)"

inductive cache_reachable :: "(ustr \<Rightarrow> 'r) \<Rightarrow> 'r compile_cache \<times> ustr list \<Rightarrow> bool" for f where
  start: "cache_reachable f (cache_new, [])"
| step: "cache_reachable f s \<Longrightarrow> cache_step f s reply t \<Longrightarrow> cache_reachable f t"

inductive_cases cache_stepE: "cache_step f s reply t"

lemma cache_reachable_ok:
  "cache_reachable f s \<Longrightarrow> cache_ok COMPILE_CACHE_CAPACITY f (fst s)"
proof (induction rule: cache_reachable.induct)
  case (step s reply t)
  from step(2,3) show ?case
  proof cases
    case (store k ps c c' r)
    with step(3) cache_insert_ok(1) [OF _ capacity_pos, of f c k] show ?thesis by simp
  qed auto
qed (simp add: cache_new_ok)

section \<open>Properties\<close>

text \<open>
  C25: the cache is transparent. Starting from an empty cache, any sequence of requests is answered
  with exactly what compiling each expression afresh gives, for gates and for hint conditions.
\<close>

theorem compile_cache_transparent:
  "snd (serve compile_gate_expr cache_new es) = map compile_gate_expr_uncached es
   \<and> snd (serve compile_hint_display_expr cache_new es) = map compile_hint_display_expr_uncached es"
proof -
  have g: "compile_gate_expr = gate_memo.memo_call" and h: "compile_hint_display_expr = hint_memo.memo_call"
    by (simp_all only: fun_eq_iff compile_gate_expr_memo compile_hint_display_expr_memo) simp_all
  show ?thesis
    unfolding g h using gate_memo.memo_calls_transparent [OF cache_new_ok, of es]
      hint_memo.memo_calls_transparent [OF cache_new_ok, of es] by blast
qed

text \<open>
  Concurrent requests. In every state reachable by interleaved lookups and stores the cache
  holds at most 4096 entries, its eviction queue names exactly its keys, each once, and every reply
  given next is the value of the compile function at the requested expression.
\<close>

theorem concurrent_cache_safe:
  assumes "cache_reachable f (c, ps)" and "cache_step f (c, ps) (Some (k, r)) t"
  shows "r = f k \<and> length (cvalues c) \<le> 4096 \<and> distinct (insertion_order c)
    \<and> set (insertion_order c) = fst ` set (cvalues c)"
proof -
  have ok: "cache_ok COMPILE_CACHE_CAPACITY f c" using cache_reachable_ok [OF assms(1)] by simp
  from assms(2) have "r = f k"
  proof cases
    case hit
    with ok show ?thesis by (auto intro: cache_get_sound)
  next
    case (store c')
    with cache_insert_ok(2) [OF ok capacity_pos, of k] show ?thesis by simp
  qed
  with ok show ?thesis by (simp add: cache_ok_def cache_wf_def COMPILE_CACHE_CAPACITY_def)
qed

lemma concurrent_cache_safe_witness:
  "cache_step length (cache_new, [[97 :: nat]])
     (Some ([97], 1)) (\<lparr>cvalues = [([97], 1)], insertion_order = [[97]]\<rparr>, [])
   \<and> (1 :: nat) = length [97 :: nat]"
proof -
  have "cache_step length (cache_new, []) None (cache_new, [[97]])"
    by (rule cache_step.miss) (simp add: cache_get_def cache_new_def)
  then have r: "cache_reachable length (cache_new, [[97]])"
    by (rule cache_reachable.step [OF cache_reachable.start])
  have s: "cache_step length (cache_new, [[97 :: nat]])
     (Some ([97], 1)) (\<lparr>cvalues = [([97], 1)], insertion_order = [[97]]\<rparr>, [])"
    using cache_step.store [of "[97]" "[[97]]" cache_new length]
    by (simp add: cache_insert_def cache_new_def)
  with concurrent_cache_safe [OF r s] show ?thesis by simp
qed

end
