(* ===== verification/Judge.thy ===== *)
theory Judge
  imports Expr_Compiler
begin

text \<open>
  Answer judging: \<^verbatim>\<open>src/game/judge.rs\<close>, the action codes of \<^verbatim>\<open>src/model/game.rs\<close> and the judging
  loop that \<^verbatim>\<open>submit_answer\<close> in \<^verbatim>\<open>src/db/puzzle.rs\<close> has inline. Decoding the stored JSON into rules is
  serde's; \<open>value_to_judge\<close> starts from the decoded rules. \<open>char::to_lowercase\<close> depends on the Unicode
  tables of the standard library and is the parameter \<open>lower\<close>. Running a puzzle's script is the
  parameter \<open>exec\<close>, a state transformer that may fail.
\<close>

section \<open>Actions\<close>

datatype judge_action =
    JError | Pending | Fail | Correct | Milestone | StartGame | EasterEgg | FinishGame | JInvalid

fun action_to_i16 :: "judge_action \<Rightarrow> int" where
  "action_to_i16 JError = - 2"
| "action_to_i16 Pending = - 1"
| "action_to_i16 Fail = 0"
| "action_to_i16 Correct = 1"
| "action_to_i16 Milestone = 2"
| "action_to_i16 StartGame = 3"
| "action_to_i16 EasterEgg = 4"
| "action_to_i16 FinishGame = 5"
| "action_to_i16 JInvalid = 6"

definition action_of_i16 :: "int \<Rightarrow> judge_action" where
  "action_of_i16 n =
     (if n = - 2 then JError else if n = - 1 then Pending else if n = 0 then Fail
      else if n = 1 then Correct else if n = 2 then Milestone else if n = 3 then StartGame
      else if n = 4 then EasterEgg else if n = 5 then FinishGame else JInvalid)"

fun side_effect :: "judge_action \<Rightarrow> bool" where
  "side_effect Correct = True"
| "side_effect StartGame = True"
| "side_effect FinishGame = True"
| "side_effect _ = False"

definition action_of_str :: "ustr \<Rightarrow> judge_action" where
  "action_of_str s =
     (if s = lit ''fail'' then Fail
      else if s = lit ''correct'' then Correct
      else if s = lit ''milestone'' then Milestone
      else if s = lit ''start_game'' then StartGame
      else if s = lit ''easter_egg'' then EasterEgg
      else if s = lit ''finish_game'' then FinishGame
      else JError)"

definition action_of_opt :: "ustr option \<Rightarrow> judge_action" where
  "action_of_opt s = (case s of Some s \<Rightarrow> action_of_str s | None \<Rightarrow> JError)"

datatype raw_action = RawString ustr | RawNumber int | RawNull

definition deserialize_judge_action :: "raw_action option \<Rightarrow> judge_action option" where
  "deserialize_judge_action raw =
     (case raw of
        Some (RawString v) \<Rightarrow> Some
          (if v = lit ''fail'' then Fail
           else if v = lit ''correct'' then Correct
           else if v = lit ''milestone'' then Milestone
           else if v = lit ''startGame'' then StartGame
           else if v = lit ''easterEgg'' then EasterEgg
           else if v = lit ''finishGame'' then FinishGame
           else JError)
      | Some (RawNumber n) \<Rightarrow> Some (action_of_i16 n)
      | Some RawNull \<Rightarrow> None
      | None \<Rightarrow> None)"

section \<open>Rules and results\<close>

record judge_rule =
  jr_type :: "ustr option"
  jr_text :: "ustr option"
  jr_action :: "ustr option"
  jr_result :: "ustr option"
  jr_answer :: "ustr option"
  jr_function :: "ustr option"
  jr_triggers :: "ustr list"

record judge_result =
  res_action :: judge_action
  res_result :: "ustr option"
  res_answer :: "ustr option"
  res_ignored :: bool
  res_triggers :: "ustr list"

record judge_backend_output =
  out_action :: "judge_action option"
  out_result :: "ustr option"
  out_answer :: "ustr option"
  out_ignored :: "bool option"
  out_triggers :: "ustr list"

definition result_of_output :: "judge_backend_output \<Rightarrow> judge_result" where
  "result_of_output v =
     \<lparr>res_action = (case out_action v of Some a \<Rightarrow> a | None \<Rightarrow> Fail), res_result = out_result v,
      res_answer = out_answer v,
      res_ignored = (case out_ignored v of Some b \<Rightarrow> b | None \<Rightarrow> False),
      res_triggers = out_triggers v\<rparr>"

definition normalize_answer :: "(nat \<Rightarrow> ustr) \<Rightarrow> ustr \<Rightarrow> ustr" where
  "normalize_answer lower s = concat (map lower (filter (\<lambda>c. \<not> is_whitespace c) s))"

fun valid_trigger_key :: "ustr \<Rightarrow> bool" where
  "valid_trigger_key [] = False"
| "valid_trigger_key (first # chars) =
     (is_ascii_alphabetic first \<and> str_len (first # chars) \<le> 64
      \<and> list_all (\<lambda>c. is_ascii_alphanumeric c \<or> c = 95 \<or> c = 45) chars)"

datatype judge_error = InvalidRuleTrigger | InvalidResultTrigger | MissingFunction | ExecError ustr

definition normalize_rule :: "(nat \<Rightarrow> ustr) \<Rightarrow> judge_rule \<Rightarrow> judge_rule" where
  "normalize_rule lower x =
     (if jr_type x = Some (lit ''exact'') then
        x\<lparr>jr_answer := (case jr_answer x of Some a \<Rightarrow> Some a | None \<Rightarrow> jr_text x),
          jr_text := map_option (normalize_answer lower) (jr_text x)\<rparr>
      else x)"

definition value_to_judge ::
  "(nat \<Rightarrow> ustr) \<Rightarrow> judge_rule list \<Rightarrow> judge_error + judge_rule list" where
  "value_to_judge lower rules =
     (if \<exists>key \<in> set (concat (map jr_triggers rules)). \<not> valid_trigger_key key
      then Inl InvalidRuleTrigger
      else Inr (map (normalize_rule lower) rules))"

definition rule_result :: "judge_rule \<Rightarrow> judge_result" where
  "rule_result rule =
     \<lparr>res_action = action_of_opt (jr_action rule), res_result = jr_result rule,
      res_answer = jr_answer rule, res_ignored = False, res_triggers = jr_triggers rule\<rparr>"

definition default_result :: judge_result where
  "default_result =
     \<lparr>res_action = Fail, res_result = None, res_answer = None, res_ignored = False,
      res_triggers = []\<rparr>"

section \<open>The two loops\<close>

type_synonym 's executor =
  "judge_rule \<Rightarrow> 's \<Rightarrow> judge_error + judge_backend_output option \<times> 's"

fun judge_by_rules ::
  "'s executor \<Rightarrow> judge_rule list \<Rightarrow> ustr \<Rightarrow> 's \<Rightarrow> judge_error + judge_result \<times> 's" where
  "judge_by_rules exec [] answer s = Inr (default_result, s)"
| "judge_by_rules exec (rule # rules) answer s =
     (if jr_type rule = Some (lit ''exact'') then
        (if jr_text rule = Some answer then Inr (rule_result rule, s)
         else judge_by_rules exec rules answer s)
      else if jr_type rule = Some (lit ''custom'') then
        (case exec rule s of
           Inl e \<Rightarrow> Inl e
         | Inr (Some output, s') \<Rightarrow> Inr (result_of_output output, s')
         | Inr (None, s') \<Rightarrow> judge_by_rules exec rules answer s')
      else if jr_type rule = Some (lit ''all'') then Inr (rule_result rule, s)
      else judge_by_rules exec rules answer s)"

text \<open>
  The loop of \<^verbatim>\<open>submit_answer\<close>: a mutable \<open>result\<close> and the collected events, with a \<open>break\<close> flag. A
  custom rule needs a function name; its execution returns events besides the value.
\<close>

record 'ev script_execution =
  exe_value :: "judge_backend_output option"
  exe_events :: "'ev list"

type_synonym ('s, 'ev) script_runner =
  "ustr \<Rightarrow> 's \<Rightarrow> judge_error + 'ev script_execution \<times> 's"

record ('s, 'ev) judge_loop_state =
  jl_result :: judge_result
  jl_events :: "'ev list"
  jl_state :: 's
  jl_done :: bool

definition judge_loop_body ::
  "('s, 'ev) script_runner \<Rightarrow> ustr \<Rightarrow> judge_rule \<Rightarrow> ('s, 'ev) judge_loop_state
    \<Rightarrow> judge_error + ('s, 'ev) judge_loop_state" where
  "judge_loop_body run norm_answer rule st =
     (if jr_type rule = Some (lit ''exact'') then
        (if jr_text rule = Some norm_answer
         then Inr (st\<lparr>jl_result := rule_result rule, jl_done := True\<rparr>) else Inr st)
      else if jr_type rule = Some (lit ''custom'') then
        (case jr_function rule of
           None \<Rightarrow> Inl MissingFunction
         | Some backend_name \<Rightarrow>
             (case run backend_name (jl_state st) of
                Inl e \<Rightarrow> Inl e
              | Inr (execution, s') \<Rightarrow>
                  (let st' = st\<lparr>jl_events := jl_events st @ exe_events execution, jl_state := s'\<rparr>
                   in case exe_value execution of
                        Some output \<Rightarrow>
                          Inr (st'\<lparr>jl_result := result_of_output output, jl_done := True\<rparr>)
                      | None \<Rightarrow> Inr st')))
      else if jr_type rule = Some (lit ''all'') then
        Inr (st\<lparr>jl_result := rule_result rule, jl_done := True\<rparr>)
      else Inr st)"

fun submit_judge_loop ::
  "('s, 'ev) script_runner \<Rightarrow> judge_rule list \<Rightarrow> ustr \<Rightarrow> ('s, 'ev) judge_loop_state
    \<Rightarrow> judge_error + ('s, 'ev) judge_loop_state" where
  "submit_judge_loop run [] norm_answer st = Inr st"
| "submit_judge_loop run (rule # rules) norm_answer st =
     (case judge_loop_body run norm_answer rule st of
        Inl e \<Rightarrow> Inl e
      | Inr st' \<Rightarrow> if jl_done st' then Inr st' else submit_judge_loop run rules norm_answer st')"

definition submit_judge ::
  "('s, 'ev) script_runner \<Rightarrow> judge_rule list \<Rightarrow> ustr \<Rightarrow> 's
    \<Rightarrow> judge_error + judge_result \<times> 'ev list \<times> 's" where
  "submit_judge run rules norm_answer s =
     (case submit_judge_loop run rules norm_answer
             \<lparr>jl_result = default_result, jl_events = [], jl_state = s, jl_done = False\<rparr> of
        Inl e \<Rightarrow> Inl e
      | Inr st \<Rightarrow>
          if \<exists>key \<in> set (res_triggers (jl_result st)). \<not> valid_trigger_key key
          then Inl InvalidResultTrigger
          else Inr (jl_result st, jl_events st, jl_state st))"

section \<open>Lemmas\<close>

lemma valid_trigger_key_compiler: "valid_trigger_key k = valid_key k"
  by (cases k) (auto simp: trigger_key_tail_def list_all_iff)

lemma action_i16_roundtrip [simp]: "action_of_i16 (action_to_i16 a) = a"
  by (cases a) (simp_all add: action_of_i16_def)

lemma action_of_i16_to: "action_to_i16 (action_of_i16 n) = (if - 2 \<le> n \<and> n \<le> 5 then n else 6)"
  by (auto simp: action_of_i16_def)

text \<open>The rules that can end the loop without running a script.\<close>

definition decides :: "ustr \<Rightarrow> judge_rule \<Rightarrow> bool" where
  "decides answer rule \<longleftrightarrow>
     (jr_type rule = Some (lit ''exact'') \<and> jr_text rule = Some answer)
     \<or> jr_type rule = Some (lit ''all'')"

definition is_custom :: "judge_rule \<Rightarrow> bool" where
  "is_custom rule \<longleftrightarrow> jr_type rule = Some (lit ''custom'')"

lemma judge_by_rules_find:
  assumes "\<forall>r \<in> set rules. \<not> is_custom r"
  shows "judge_by_rules exec rules answer s
    = Inr (case find (decides answer) rules of Some r \<Rightarrow> rule_result r | None \<Rightarrow> default_result, s)"
  using assms by (induction rules) (auto simp: decides_def is_custom_def)

definition exec_of :: "('s, 'ev) script_runner \<Rightarrow> (('s \<times> 'ev list)) executor" where
  "exec_of run rule s =
     (case jr_function rule of
        None \<Rightarrow> Inl MissingFunction
      | Some f \<Rightarrow> (case run f (fst s) of
            Inl e \<Rightarrow> Inl e
          | Inr (x, s') \<Rightarrow> Inr (exe_value x, (s', snd s @ exe_events x))))"

lemma submit_judge_loop_eq:
  assumes "\<not> jl_done st" and "jl_result st = default_result"
  shows "(case submit_judge_loop run rules a st of
      Inl e \<Rightarrow> Inl e | Inr st' \<Rightarrow> Inr (jl_result st', (jl_state st', jl_events st')))
    = judge_by_rules (exec_of run) rules a (jl_state st, jl_events st)"
  using assms
proof (induction rules arbitrary: st)
  case (Cons r rules)
  show ?case
  proof (cases "jr_type r = Some (lit ''custom'')")
    case True
    show ?thesis
    proof (cases "jr_function r")
      case (Some f)
      show ?thesis
      proof (cases "run f (jl_state st)")
        case (Inr p)
        obtain x s' where p: "p = (x, s')" by (cases p)
        let ?st = "st\<lparr>jl_events := jl_events st @ exe_events x, jl_state := s'\<rparr>"
        show ?thesis
        proof (cases "exe_value x")
          case None
          have "(case submit_judge_loop run rules a ?st of
              Inl e \<Rightarrow> Inl e | Inr st' \<Rightarrow> Inr (jl_result st', (jl_state st', jl_events st')))
            = judge_by_rules (exec_of run) rules a (s', jl_events st @ exe_events x)"
            using Cons.IH [of ?st] Cons.prems by simp
          moreover have "exec_of run r (jl_state st, jl_events st)
              = Inr (None, (s', jl_events st @ exe_events x))"
            using Some Inr p None by (simp add: exec_of_def)
          ultimately show ?thesis using True Some Inr p None Cons.prems
            by (simp add: judge_loop_body_def)
        qed (use True Some Inr p in \<open>simp add: judge_loop_body_def exec_of_def\<close>)
      qed (use True Some in \<open>simp add: judge_loop_body_def exec_of_def\<close>)
    qed (use True in \<open>simp add: judge_loop_body_def exec_of_def\<close>)
  next
    case False
    then show ?thesis using Cons.IH [of st] Cons.prems by (simp add: judge_loop_body_def)
  qed
qed simp

section \<open>Properties\<close>

text \<open>
  Without scripts, judging is first match. The result is that of the first rule that is an
  \<open>all\<close> rule or an \<open>exact\<close> rule whose text is the normalized answer, and a plain failure when there is
  none; the state is untouched.
\<close>

theorem judge_first_match:
  assumes "\<forall>r \<in> set rules. \<not> is_custom r"
  shows "judge_by_rules exec rules answer s
    = Inr (case find (decides answer) rules of Some r \<Rightarrow> rule_result r | None \<Rightarrow> default_result, s)"
  using assms by (rule judge_by_rules_find)

definition blank_rule :: judge_rule where
  "blank_rule = \<lparr>jr_type = None, jr_text = None, jr_action = None, jr_result = None,
     jr_answer = None, jr_function = None, jr_triggers = []\<rparr>"

lemma judge_first_match_witness:
  "judge_by_rules (\<lambda>r s. Inl MissingFunction)
     [blank_rule\<lparr>jr_type := Some (lit ''exact''), jr_text := Some [97]\<rparr>,
      blank_rule\<lparr>jr_type := Some (lit ''all''), jr_action := Some (lit ''correct'')\<rparr>] [98] ()
   = Inr (default_result\<lparr>res_action := Correct\<rparr>, ())"
  by (subst judge_first_match)
    (simp_all add: is_custom_def decides_def blank_rule_def rule_result_def default_result_def
      action_of_opt_def action_of_str_def)

lemma submit_judge_eq:
  "submit_judge run rules a s =
     (case judge_by_rules (exec_of run) rules a (s, []) of
        Inl e \<Rightarrow> Inl e
      | Inr (r, s', evs) \<Rightarrow>
          if list_all valid_trigger_key (res_triggers r) then Inr (r, evs, s')
          else Inl InvalidResultTrigger)"
proof -
  let ?st = "\<lparr>jl_result = default_result, jl_events = [], jl_state = s, jl_done = False\<rparr>"
  have "(case submit_judge_loop run rules a ?st of
      Inl e \<Rightarrow> Inl e | Inr st' \<Rightarrow> Inr (jl_result st', (jl_state st', jl_events st')))
    = judge_by_rules (exec_of run) rules a (s, [])"
    using submit_judge_loop_eq [of ?st] by simp
  then show ?thesis
    by (auto simp: submit_judge_def list_all_iff simp flip: \<open>_ = judge_by_rules _ _ _ _\<close>
        split: sum.split)
qed

lemma submit_judge_scriptless:
  assumes "\<forall>r \<in> set rules. \<not> is_custom r"
    and "submit_judge run rules a s = Inr (result, evs, s')"
  shows "result = (case find (decides a) rules of Some r \<Rightarrow> rule_result r | None \<Rightarrow> default_result)
    \<and> evs = [] \<and> s' = s"
  using assms(2) judge_by_rules_find [OF assms(1), of "exec_of run" a "(s, [])"]
  by (simp add: submit_judge_eq split: if_splits)

text \<open>A runner whose scripts write to tables of their own, outside the state.\<close>

definition quiet :: "('s, 'ev) script_runner \<Rightarrow> bool" where
  "quiet run \<longleftrightarrow> (\<forall>name s x s'. run name s = Inr (x, s') \<longrightarrow> s' = s)"

lemma quiet_body:
  assumes "quiet run" and "judge_loop_body run a rule st = Inr st'"
  shows "jl_state st' = jl_state st"
  using assms
  by (auto simp: judge_loop_body_def quiet_def Let_def split: if_splits option.splits sum.splits prod.splits)

lemma quiet_loop:
  "quiet run \<Longrightarrow> submit_judge_loop run rules a st = Inr st' \<Longrightarrow> jl_state st' = jl_state st"
  by (induction run rules a st rule: submit_judge_loop.induct)
    (auto split: sum.splits if_splits dest: quiet_body)

lemma submit_judge_quiet:
  "quiet run \<Longrightarrow> submit_judge run rules a s = Inr (result, evs, s') \<Longrightarrow> s' = s"
  by (auto simp: submit_judge_def dest: quiet_loop split: sum.splits if_splits)

text \<open>
  C2: the loop written inside \<^verbatim>\<open>submit_answer\<close> and the library function \<open>judge_by_rules\<close> agree: with
  the executor that looks up the rule's function, runs it and collects its events, the inline loop
  computes the same result, final state and events, or the same error, and then only adds the check
  of the result's trigger keys.
\<close>

theorem submit_loop_is_judge_by_rules:
  "submit_judge run rules a s =
     (case judge_by_rules (exec_of run) rules a (s, []) of
        Inl e \<Rightarrow> Inl e
      | Inr (r, s', evs) \<Rightarrow>
          if list_all valid_trigger_key (res_triggers r) then Inr (r, evs, s')
          else Inl InvalidResultTrigger)"
  by (rule submit_judge_eq)

text \<open>
  Exact rules accept answers up to white space and case. After decoding, an \<open>exact\<close> rule decides
  an answer exactly when the normalized forms of the rule's text and of the answer coincide, and the
  answer shown to the players is the rule's own spelling.
\<close>

theorem exact_rule_matches_normalized:
  assumes "value_to_judge lower [r] = Inr [r']" and "jr_type r = Some (lit ''exact'')"
    and "jr_text r = Some t"
  shows "(decides (normalize_answer lower a) r' \<longleftrightarrow> normalize_answer lower a = normalize_answer lower t)
    \<and> (jr_answer r = None \<longrightarrow> jr_answer r' = Some t)"
  using assms by (auto simp: value_to_judge_def normalize_rule_def decides_def split: if_splits)

definition ascii_lower :: "nat \<Rightarrow> ustr" where
  "ascii_lower c = (if 65 \<le> c \<and> c \<le> 90 then [c + 32] else [c])"

lemma exact_rule_matches_normalized_witness:
  "decides (normalize_answer ascii_lower [32, 65, 98])
     (normalize_rule ascii_lower (blank_rule\<lparr>jr_type := Some (lit ''exact''), jr_text := Some [97, 32, 66]\<rparr>))"
proof -
  let ?r = "blank_rule\<lparr>jr_type := Some (lit ''exact''), jr_text := Some [97, 32, 66]\<rparr>"
  have v: "value_to_judge ascii_lower [?r] = Inr [normalize_rule ascii_lower ?r]"
    by (simp add: value_to_judge_def blank_rule_def)
  have "normalize_answer ascii_lower [32, 65, 98] = normalize_answer ascii_lower [97, 32, 66]"
    by (simp add: normalize_answer_def ascii_lower_def is_whitespace_def)
  with exact_rule_matches_normalized [OF v, of "[97, 32, 66]" "[32, 65, 98]"] show ?thesis
    by simp
qed

text \<open>
  The judge and the expression compiler agree on trigger keys, so a trigger a rule may fire can
  always be tested in an unlock condition and the other way round; a valid key is never empty and
  has at most 64 characters, all ASCII.
\<close>

theorem trigger_keys_agree:
  "valid_trigger_key k = valid_key k
   \<and> (valid_trigger_key k \<longrightarrow> k \<noteq> [] \<and> length k \<le> 64 \<and> (\<forall>c \<in> set k. c < 128))"
proof -
  have "k \<noteq> [] \<and> length k \<le> 64 \<and> (\<forall>c \<in> set k. c < 128)" if v: "valid_trigger_key k"
  proof -
    from v obtain c cs where k: "k = c # cs" by (cases k) auto
    from v k have a: "\<forall>c \<in> set k. c < 128"
      by (auto simp: list_all_iff)
    then have "str_len k = length k" by (rule str_len_ascii)
    with v k a show ?thesis by auto
  qed
  then show ?thesis by (simp add: valid_trigger_key_compiler)
qed

lemma trigger_keys_agree_witness:
  "length (lit ''extra-content'') \<le> 64 \<and> list_all (\<lambda>c. c < 128) (lit ''extra-content'')"
proof -
  have "valid_trigger_key (lit ''extra-content'')"
    by (simp add: lit_def str_len_def utf8_len_def is_ascii_alphabetic_def
        is_ascii_alphanumeric_def is_ascii_digit_def)
  with trigger_keys_agree [of "lit ''extra-content''"] show ?thesis
    unfolding list_all_iff by blast
qed

end
