(* ===== verification/Access.thy ===== *)
theory Access
  imports Prelude
begin

text \<open>
  Users, roles and sessions: \<^verbatim>\<open>src/model/user.rs\<close>, \<^verbatim>\<open>src/db/user.rs\<close>, \<^verbatim>\<open>src/module/session.rs\<close>, the
  privilege and maintenance middlewares and the game middleware of \<^verbatim>\<open>src/api/game.rs\<close> that runs in
  front of the privilege check. The key-value store is a map from user ids to session lists, or
  \<open>None\<close> while it cannot be reached. Password hashing is the bcrypt package: \<open>verify\<close> is a parameter
  and a new hash is an argument.
\<close>

section \<open>Roles\<close>

datatype user_role = Banned | User | Moderator | Admin | Root | RoleInvalid int

definition role_of_i16 :: "int \<Rightarrow> user_role" where
  "role_of_i16 n =
     (if n = 0 then Banned else if n = 1 then User else if n = 2 then Moderator
      else if n = 3 then Admin else if n = 4 then Root else RoleInvalid n)"

fun role_to_i16 :: "user_role \<Rightarrow> int" where
  "role_to_i16 Banned = 0"
| "role_to_i16 User = 1"
| "role_to_i16 Moderator = 2"
| "role_to_i16 Admin = 3"
| "role_to_i16 Root = 4"
| "role_to_i16 (RoleInvalid n) = n"

fun is_valid :: "user_role \<Rightarrow> bool" where
  "is_valid (RoleInvalid n) = False"
| "is_valid _ = True"

definition is_moderator :: "user_role \<Rightarrow> bool" where
  "is_moderator r \<longleftrightarrow> r = Moderator \<or> r = Admin \<or> r = Root"

definition is_admin :: "user_role \<Rightarrow> bool" where
  "is_admin r \<longleftrightarrow> r = Admin \<or> r = Root"

definition is_root :: "user_role \<Rightarrow> bool" where
  "is_root r \<longleftrightarrow> r = Root"

datatype ordering = OLess | OEqual | OGreater

definition partial_cmp :: "user_role \<Rightarrow> user_role \<Rightarrow> ordering option" where
  "partial_cmp a b =
     (if is_valid a \<and> is_valid b then
        Some (if role_to_i16 a < role_to_i16 b then OLess
              else if role_to_i16 a = role_to_i16 b then OEqual else OGreater)
      else None)"

text \<open>The comparison operators Rust derives from \<open>partial_cmp\<close>.\<close>

definition role_lt :: "user_role \<Rightarrow> user_role \<Rightarrow> bool" where
  "role_lt a b \<longleftrightarrow> partial_cmp a b = Some OLess"

definition role_ge :: "user_role \<Rightarrow> user_role \<Rightarrow> bool" where
  "role_ge a b \<longleftrightarrow> partial_cmp a b = Some OGreater \<or> partial_cmp a b = Some OEqual"

lemmas role_order = role_lt_def role_ge_def partial_cmp_def

definition can_change_role :: "user_role \<Rightarrow> user_role option \<Rightarrow> user_role \<Rightarrow> bool" where
  "can_change_role self current requested =
     (if current = Some requested then True
      else if current = Some Root \<or> requested = Root then False
      else is_root self
        \<or> ((case current of None \<Rightarrow> True | Some role \<Rightarrow> role_lt role Admin) \<and> role_lt requested Admin))"

definition can_manage_credentials :: "user_role \<Rightarrow> user_role \<Rightarrow> bool" where
  "can_manage_credentials self target = role_lt target self"

lemma role_i16_roundtrip: "role_of_i16 (role_to_i16 r) = r \<longleftrightarrow>
    is_valid r \<or> role_to_i16 r < 0 \<or> 4 < role_to_i16 r"
  by (cases r) (auto simp: role_of_i16_def)

lemma role_lt_Admin: "role_lt r Admin \<longleftrightarrow> r = Banned \<or> r = User \<or> r = Moderator"
  by (cases r) (simp_all add: role_order)

section \<open>The user table\<close>

record user_row =
  u_id :: nat
  u_email :: ustr
  u_pass :: ustr
  u_role :: int
  u_nickname :: ustr
  u_bio :: "ustr option"
  u_must_change :: bool

record user_auth_state =
  auth_role :: user_role
  auth_must_change_password :: bool

definition find_user :: "user_row list \<Rightarrow> nat \<Rightarrow> user_row option" where
  "find_user us uid = find (\<lambda>u. u_id u = uid) us"

definition get_auth_state_by_id :: "user_row list \<Rightarrow> nat \<Rightarrow> user_auth_state option" where
  "get_auth_state_by_id us uid =
     map_option (\<lambda>u. \<lparr>auth_role = role_of_i16 (u_role u), auth_must_change_password = u_must_change u\<rparr>)
       (find_user us uid)"

definition exists_email :: "user_row list \<Rightarrow> ustr \<Rightarrow> bool" where
  "exists_email us email = list_ex (\<lambda>u. u_email u = email) us"

text \<open>The empty default nickname is replaced by the insert trigger \<^verbatim>\<open>rb_user_def_nickname\<close>.\<close>

definition new_user :: "nat \<Rightarrow> ustr \<Rightarrow> ustr \<Rightarrow> user_row" where
  "new_user i email pass =
     \<lparr>u_id = i, u_email = email, u_pass = pass, u_role = 1, u_nickname = lit ''user_'' @ show_nat i,
      u_bio = None, u_must_change = False\<rparr>"

datatype user_error = RowNotFound | UniqueViolation

text \<open>\<open>INSERT \<dots> ON CONFLICT (email) DO NOTHING RETURNING id\<close> read with \<open>fetch_one\<close>.\<close>

definition register_pass_hashed ::
  "user_row list \<Rightarrow> nat \<Rightarrow> ustr \<Rightarrow> ustr \<Rightarrow> user_row list \<times> (user_error + nat)" where
  "register_pass_hashed us fresh email pass_hashed =
     (if exists_email us email then (us, Inl RowNotFound)
      else (us @ [new_user fresh email pass_hashed], Inr fresh))"

datatype change_password_result = WrongCurrent | SamePassword | PasswordChanged

definition update_user :: "(user_row \<Rightarrow> user_row) \<Rightarrow> nat \<Rightarrow> user_row list \<Rightarrow> user_row list" where
  "update_user f uid us = map (\<lambda>u. if u_id u = uid then f u else u) us"

definition change_password ::
  "(ustr \<Rightarrow> ustr \<Rightarrow> bool) \<Rightarrow> user_row list \<Rightarrow> nat \<Rightarrow> ustr option \<Rightarrow> ustr \<Rightarrow> ustr
    \<Rightarrow> user_row list \<times> (user_error + change_password_result)" where
  "change_password verify us uid current_password new_password new_hash =
     (case find_user us uid of
        None \<Rightarrow> (us, Inl RowNotFound)
      | Some current \<Rightarrow>
          if \<not> u_must_change current
             \<and> (case current_password of None \<Rightarrow> True | Some p \<Rightarrow> \<not> verify p (u_pass current))
          then (us, Inr WrongCurrent)
          else if verify new_password (u_pass current) then (us, Inr SamePassword)
          else (update_user (\<lambda>u. u\<lparr>u_pass := new_hash, u_must_change := False\<rparr>) uid us,
                Inr PasswordChanged))"

section \<open>Administration of users\<close>

definition admin_create ::
  "user_row list \<Rightarrow> nat \<Rightarrow> ustr \<Rightarrow> ustr \<Rightarrow> ustr option \<Rightarrow> user_role \<Rightarrow> ustr
    \<Rightarrow> user_row list \<times> nat option" where
  "admin_create us fresh email nickname bio role pass =
     (if exists_email us email then (us, None)
      else (us @ [\<lparr>u_id = fresh, u_email = email, u_pass = pass, u_role = role_to_i16 role,
                    u_nickname = nickname, u_bio = bio, u_must_change = True\<rparr>], Some fresh))"

datatype admin_user_result = UserOk | UserNotFound | EmailConflict | EmailForbidden | SelfRole
  | RoleForbidden | UserInvalid

definition eq_ignore_ascii_case :: "ustr \<Rightarrow> ustr \<Rightarrow> bool" where
  "eq_ignore_ascii_case a b =
     (map (\<lambda>c. if 65 \<le> c \<and> c \<le> 90 then c + 32 else c) a
      = map (\<lambda>c. if 65 \<le> c \<and> c \<le> 90 then c + 32 else c) b)"

record user_update_data =
  ud_email :: ustr
  ud_nickname :: ustr
  ud_bio :: "ustr option"
  ud_role :: user_role

definition admin_update ::
  "user_row list \<Rightarrow> nat \<Rightarrow> user_role \<Rightarrow> nat \<Rightarrow> user_update_data
    \<Rightarrow> user_row list \<times> admin_user_result" where
  "admin_update us actor_id actor_role uid data =
     (case find_user us uid of
        None \<Rightarrow> (us, UserNotFound)
      | Some current \<Rightarrow>
          let current_role = role_of_i16 (u_role current) in
          if actor_id = uid \<and> current_role \<noteq> ud_role data then (us, SelfRole)
          else if \<not> can_change_role actor_role (Some current_role) (ud_role data)
          then (us, RoleForbidden)
          else if \<not> eq_ignore_ascii_case (u_email current) (ud_email data)
                  \<and> \<not> can_manage_credentials actor_role current_role
          then (us, EmailForbidden)
          else if list_ex (\<lambda>other. u_email other = ud_email data \<and> u_id other \<noteq> uid) us
          then (us, EmailConflict)
          else (update_user (\<lambda>u. u\<lparr>u_email := ud_email data, u_nickname := ud_nickname data,
                  u_bio := ud_bio data, u_role := role_to_i16 (ud_role data)\<rparr>) uid us, UserOk))"

definition admin_reset_password ::
  "user_row list \<Rightarrow> user_role \<Rightarrow> nat \<Rightarrow> ustr \<Rightarrow> user_row list \<times> admin_user_result" where
  "admin_reset_password us actor_role uid pass =
     (case find_user us uid of
        None \<Rightarrow> (us, UserNotFound)
      | Some target \<Rightarrow>
          if \<not> can_manage_credentials actor_role (role_of_i16 (u_role target))
          then (us, RoleForbidden)
          else (update_user (\<lambda>u. u\<lparr>u_pass := pass, u_must_change := True\<rparr>) uid us, UserOk))"

text \<open>
  The admin API's handlers: \<open>create\<close> and \<open>update\<close> refuse invalid role codes before anything else and
  \<open>create\<close> asks \<open>can_change_role\<close> itself. The requests are already normalised here; the whole handlers
  follow the sessions below.
\<close>

datatype admin_request =
    ReqCreate ustr ustr "ustr option" int ustr
  | ReqUpdate nat ustr ustr "ustr option" int
  | ReqReset nat ustr

fun admin_handle ::
  "nat \<Rightarrow> user_role \<Rightarrow> nat \<Rightarrow> admin_request \<Rightarrow> user_row list \<Rightarrow> user_row list \<times> admin_user_result" where
  "admin_handle actor_id actor_role fresh (ReqCreate email nickname bio role pass) us =
     (if \<not> is_valid (role_of_i16 role) then (us, UserInvalid)
      else if \<not> can_change_role actor_role None (role_of_i16 role) then (us, RoleForbidden)
      else case admin_create us fresh email nickname bio (role_of_i16 role) pass of
             (us', None) \<Rightarrow> (us', EmailConflict)
           | (us', Some i) \<Rightarrow> (us', UserOk))"
| "admin_handle actor_id actor_role fresh (ReqUpdate uid email nickname bio role) us =
     (if \<not> is_valid (role_of_i16 role) then (us, UserInvalid)
      else admin_update us actor_id actor_role uid
        \<lparr>ud_email = email, ud_nickname = nickname, ud_bio = bio, ud_role = role_of_i16 role\<rparr>)"
| "admin_handle actor_id actor_role fresh (ReqReset uid pass) us =
     admin_reset_password us actor_role uid pass"

section \<open>Sessions\<close>

record cookie =
  ck_user_id :: "nat option"
  ck_session_id :: "ustr option"

type_synonym kv = "(nat \<Rightarrow> ustr list) option"

definition get_session_id :: "ustr \<Rightarrow> cookie \<Rightarrow> ustr \<times> cookie" where
  "get_session_id uuid sess =
     (case ck_session_id sess of
        Some i \<Rightarrow> (i, sess)
      | None \<Rightarrow> (uuid, sess\<lparr>ck_session_id := Some uuid\<rparr>))"

datatype kv_error = KvUnavailable

definition session_append ::
  "ustr \<Rightarrow> nat \<Rightarrow> kv \<Rightarrow> cookie \<Rightarrow> nat \<Rightarrow> kv_error + kv \<times> cookie" where
  "session_append uuid max_session store sess user_id =
     (case store of
        None \<Rightarrow> Inl KvUnavailable
      | Some m \<Rightarrow>
          (let (sid, sess') = get_session_id uuid sess
           in Inr (Some (m(user_id := take max_session (sid # m user_id))),
                   sess'\<lparr>ck_user_id := Some user_id\<rparr>)))"

definition session_verify :: "kv \<Rightarrow> cookie \<Rightarrow> kv_error + bool" where
  "session_verify store sess =
     (case (ck_user_id sess, ck_session_id sess) of
        (Some user_id, Some sid) \<Rightarrow>
          (case store of None \<Rightarrow> Inl KvUnavailable | Some m \<Rightarrow> Inr (sid \<in> set (m user_id)))
      | _ \<Rightarrow> Inr False)"

definition session_invalidate :: "kv \<Rightarrow> cookie \<Rightarrow> kv_error + kv \<times> bool" where
  "session_invalidate store sess =
     (case (ck_user_id sess, ck_session_id sess) of
        (Some user_id, Some sid) \<Rightarrow>
          (case store of
             None \<Rightarrow> Inl KvUnavailable
           | Some m \<Rightarrow> Inr (Some (m(user_id := remove1 sid (m user_id))), sid \<in> set (m user_id)))
      | _ \<Rightarrow> Inr (store, False))"

definition session_invalidate_all :: "kv \<Rightarrow> nat \<Rightarrow> kv_error + kv" where
  "session_invalidate_all store user_id =
     (case store of None \<Rightarrow> Inl KvUnavailable | Some m \<Rightarrow> Inr (Some (m(user_id := []))))"

definition session_invalidate_others :: "kv \<Rightarrow> cookie \<Rightarrow> kv_error + kv \<times> bool" where
  "session_invalidate_others store sess =
     (case (ck_user_id sess, ck_session_id sess) of
        (Some user_id, Some sid) \<Rightarrow>
          (case store of
             None \<Rightarrow> Inl KvUnavailable
           | Some m \<Rightarrow> Inr (Some (m(user_id := [sid])), True))
      | _ \<Rightarrow> Inr (store, False))"

section \<open>The admin handlers\<close>

text \<open>
  What a handler of \<^verbatim>\<open>src/api/admin/user.rs\<close> touches: the user table, the session lists and the event
  log (type, actor, target). Lower-casing and the e-mail syntax of the validator package are
  parameters.
\<close>

record user_admin_state =
  ua_users :: "user_row list"
  ua_sessions :: kv
  ua_events :: "(string \<times> nat \<times> nat) list"

definition normalize_bio :: "ustr option \<Rightarrow> ustr option" where
  "normalize_bio bio =
     (case bio of None \<Rightarrow> None | Some b \<Rightarrow> if trim b = [] then None else Some (trim b))"

fun normalize_request :: "(ustr \<Rightarrow> ustr) \<Rightarrow> admin_request \<Rightarrow> admin_request" where
  "normalize_request lower (ReqCreate email nickname bio role pass) =
     ReqCreate (lower (trim email)) (trim nickname) (normalize_bio bio) role pass"
| "normalize_request lower (ReqUpdate uid email nickname bio role) =
     ReqUpdate uid (lower (trim email)) (trim nickname) (normalize_bio bio) role"
| "normalize_request lower (ReqReset uid pass) = ReqReset uid pass"

definition valid_profile :: "(ustr \<Rightarrow> bool) \<Rightarrow> ustr \<Rightarrow> ustr \<Rightarrow> ustr option \<Rightarrow> int \<Rightarrow> bool" where
  "valid_profile email_ok email nickname bio role \<longleftrightarrow>
     email_ok email \<and> length email \<le> 255 \<and> 1 \<le> length nickname \<and> length nickname \<le> 60
     \<and> is_valid (role_of_i16 role) \<and> (case bio of None \<Rightarrow> True | Some b \<Rightarrow> length b \<le> 200)"

fun validate_request :: "(ustr \<Rightarrow> bool) \<Rightarrow> admin_request \<Rightarrow> bool" where
  "validate_request email_ok (ReqCreate email nickname bio role pass) =
     valid_profile email_ok email nickname bio role"
| "validate_request email_ok (ReqUpdate uid email nickname bio role) =
     valid_profile email_ok email nickname bio role"
| "validate_request email_ok (ReqReset uid pass) = True"

definition log_user_event :: "string \<Rightarrow> nat \<Rightarrow> nat \<Rightarrow> user_admin_state \<Rightarrow> user_admin_state" where
  "log_user_event ty actor target st = st\<lparr>ua_events := ua_events st @ [(ty, actor, target)]\<rparr>"

fun after_change ::
  "nat \<Rightarrow> nat \<Rightarrow> admin_request \<Rightarrow> user_admin_state \<Rightarrow> user_admin_state \<times> (kv_error + admin_user_result)" where
  "after_change actor_id fresh (ReqCreate email nickname bio role pass) st =
     (log_user_event ''admin.user_created'' actor_id fresh st, Inr UserOk)"
| "after_change actor_id fresh (ReqUpdate uid email nickname bio role) st =
     (log_user_event ''admin.user_updated'' actor_id uid st, Inr UserOk)"
| "after_change actor_id fresh (ReqReset uid pass) st =
     (case session_invalidate_all (ua_sessions st) uid of
        Inl e \<Rightarrow> (st, Inl e)
      | Inr store \<Rightarrow>
          (log_user_event ''admin.user_password_reset'' actor_id uid (st\<lparr>ua_sessions := store\<rparr>),
           Inr UserOk))"

definition handle_user_admin ::
  "(ustr \<Rightarrow> ustr) \<Rightarrow> (ustr \<Rightarrow> bool) \<Rightarrow> nat \<Rightarrow> user_role \<Rightarrow> nat \<Rightarrow> admin_request \<Rightarrow> user_admin_state
    \<Rightarrow> user_admin_state \<times> (kv_error + admin_user_result)" where
  "handle_user_admin lower email_ok actor_id actor_role fresh req st =
     (let request = normalize_request lower req
      in if \<not> validate_request email_ok request then (st, Inr UserInvalid)
         else let (us, r) = admin_handle actor_id actor_role fresh request (ua_users st);
                  st' = st\<lparr>ua_users := us\<rparr>
              in if r = UserOk then after_change actor_id fresh request st' else (st', Inr r))"

lemma users_after_change [simp]: "ua_users (fst (after_change actor fresh req st)) = ua_users st"
  by (cases req) (auto simp: log_user_event_def split: sum.split)

lemma users_handle_user_admin:
  "ua_users (fst (handle_user_admin lower email_ok actor role fresh req st)) = ua_users st
   \<or> ua_users (fst (handle_user_admin lower email_ok actor role fresh req st))
       = fst (admin_handle actor role fresh (normalize_request lower req) (ua_users st))"
  by (auto simp: handle_user_admin_def Let_def split: prod.split)

section \<open>Middlewares\<close>

text \<open>
  A request carries its session cookie and path; extensions are the values earlier middlewares left
  behind. The response of a middleware is to serve the request on, with extensions, or to answer it.
\<close>

record request_ext =
  ext_role :: "user_role option"
  ext_auth :: "user_auth_state option"
  ext_team :: "nat option option"

datatype response = Serve request_ext | Unauthorized | Forbidden | PasswordChangeRequired
  | NotFoundResp | InternalError | MaintenanceResp

definition ends_with :: "ustr \<Rightarrow> ustr \<Rightarrow> bool" where
  "ends_with s suffix = (length suffix \<le> length s \<and> drop (length s - length suffix) s = suffix)"

definition password_route :: "ustr \<Rightarrow> bool" where
  "password_route path = (ends_with path (lit ''/user/info'') \<or> ends_with path (lit ''/user/password''))"

text \<open>The database is the user table, or \<open>None\<close> when a query fails.\<close>

definition privilege_call ::
  "kv \<Rightarrow> user_row list option \<Rightarrow> user_role \<Rightarrow> ustr \<Rightarrow> cookie \<Rightarrow> request_ext \<Rightarrow> response" where
  "privilege_call store db required path sess ext =
     (case ext_auth ext of
        Some auth \<Rightarrow>
          if auth_must_change_password auth \<and> \<not> password_route path then PasswordChangeRequired
          else if role_ge (auth_role auth) required then Serve ext else Forbidden
      | None \<Rightarrow>
          (case session_verify store sess of
             Inl _ \<Rightarrow> InternalError
           | Inr False \<Rightarrow> Unauthorized
           | Inr True \<Rightarrow>
               (case ck_user_id sess of
                  None \<Rightarrow> Unauthorized
                | Some uid \<Rightarrow>
                    (case db of
                       None \<Rightarrow> InternalError
                     | Some us \<Rightarrow>
                         (case get_auth_state_by_id us uid of
                            None \<Rightarrow> Unauthorized
                          | Some auth \<Rightarrow>
                              if auth_must_change_password auth \<and> \<not> password_route path
                              then PasswordChangeRequired
                              else if role_ge (auth_role auth) required
                              then Serve (ext\<lparr>ext_role := Some (auth_role auth)\<rparr>)
                              else Forbidden)))))"

record game_membership =
  gm_team :: nat
  gm_is_beta :: bool

text \<open>What the game query reads: whether each game exists and is active, and a user's team in it.\<close>

record game_tables =
  game_active :: "nat \<Rightarrow> bool option"
  member_team :: "nat \<Rightarrow> nat \<Rightarrow> game_membership option"

definition game_accessible_for_role :: "bool \<Rightarrow> user_role \<Rightarrow> bool" where
  "game_accessible_for_role is_active role = (is_active \<or> is_admin role)"

definition game_accessible_for_user :: "bool \<Rightarrow> user_role \<Rightarrow> bool \<Rightarrow> bool" where
  "game_accessible_for_user is_active role is_beta =
     (game_accessible_for_role is_active role \<or> is_beta)"

definition get_game_user_info :: "game_tables \<Rightarrow> nat \<Rightarrow> nat \<Rightarrow> user_role \<Rightarrow> nat option option" where
  "get_game_user_info gt user_id game_id role =
     (case game_active gt game_id of
        None \<Rightarrow> None
      | Some active \<Rightarrow>
          (let m = member_team gt user_id game_id;
               beta = (case m of None \<Rightarrow> False | Some x \<Rightarrow> gm_is_beta x)
           in if game_accessible_for_user active role beta then Some (map_option gm_team m) else None))"

definition game_exists :: "game_tables \<Rightarrow> nat \<Rightarrow> user_role \<Rightarrow> bool" where
  "game_exists gt game_id role =
     (case game_active gt game_id of
        None \<Rightarrow> False
      | Some active \<Rightarrow> game_accessible_for_role active role)"

definition check_game_middleware ::
  "user_row list option \<Rightarrow> game_tables \<Rightarrow> nat option \<Rightarrow> cookie \<Rightarrow> request_ext \<Rightarrow> response" where
  "check_game_middleware db gt game_id sess ext =
     (case game_id of
        None \<Rightarrow> NotFoundResp
      | Some gid \<Rightarrow>
          (case ck_user_id sess of
             Some uid \<Rightarrow>
               (case db of
                  None \<Rightarrow> InternalError
                | Some us \<Rightarrow>
                    (case get_auth_state_by_id us uid of
                       None \<Rightarrow> NotFoundResp
                     | Some auth \<Rightarrow>
                         (case get_game_user_info gt uid gid (auth_role auth) of
                            Some team \<Rightarrow>
                              Serve (ext\<lparr>ext_role := Some (auth_role auth), ext_auth := Some auth,
                                ext_team := Some team\<rparr>)
                          | None \<Rightarrow> NotFoundResp)))
           | None \<Rightarrow> if game_exists gt gid User then Serve ext else NotFoundResp))"

text \<open>Routes below \<^verbatim>\<open>/games/{game_id}\<close>: the game middleware, then the privilege check for users.\<close>

definition game_route ::
  "kv \<Rightarrow> user_row list option \<Rightarrow> game_tables \<Rightarrow> nat option \<Rightarrow> ustr \<Rightarrow> cookie \<Rightarrow> response" where
  "game_route store db gt game_id path sess =
     (case check_game_middleware db gt game_id sess
             \<lparr>ext_role = None, ext_auth = None, ext_team = None\<rparr> of
        Serve ext \<Rightarrow> privilege_call store db User path sess ext
      | r \<Rightarrow> r)"

definition maintenance_exempt :: "ustr \<Rightarrow> bool" where
  "maintenance_exempt path \<longleftrightarrow> path = lit ''/api/system/status'' \<or> path = lit ''/api/auth/pre-auth''
     \<or> path = lit ''/api/auth/login'' \<or> path = lit ''/api/auth/logout'' \<or> path = lit ''/api/user/info''"

definition maintenance_call ::
  "kv \<Rightarrow> user_row list option \<Rightarrow> bool \<Rightarrow> ustr \<Rightarrow> cookie \<Rightarrow> request_ext \<Rightarrow> response" where
  "maintenance_call store db maintenance_enabled path sess ext =
     (if \<not> maintenance_enabled \<or> maintenance_exempt path then Serve ext
      else if session_verify store sess = Inr True then
        (case ck_user_id sess of
           None \<Rightarrow> MaintenanceResp
         | Some uid \<Rightarrow>
             (case db of
                None \<Rightarrow> InternalError
              | Some us \<Rightarrow>
                  (case get_auth_state_by_id us uid of
                     Some auth \<Rightarrow>
                       if role_ge (auth_role auth) Admin then Serve ext else MaintenanceResp
                   | None \<Rightarrow> MaintenanceResp)))
      else MaintenanceResp)"

section \<open>Privileged accounts\<close>

definition has_role :: "int set \<Rightarrow> user_row list \<Rightarrow> (nat \<times> int) list" where
  "has_role R us = map (\<lambda>u. (u_id u, u_role u)) (filter (\<lambda>u. u_role u \<in> R) us)"

lemma find_user_in: "find_user us uid = Some u \<Longrightarrow> u \<in> set us \<and> u_id u = uid"
  by (auto simp: find_user_def find_Some_iff)

lemma find_user_unique:
  "distinct (map u_id us) \<Longrightarrow> find_user us (u_id u) = Some v \<Longrightarrow> u \<in> set us \<Longrightarrow> u = v"
  using find_user_in [of us "u_id u" v] by (metis distinct_map inj_on_def)

lemma ids_update_user [simp]:
  "(\<And>u. u_id (f u) = u_id u) \<Longrightarrow> map u_id (update_user f uid us) = map u_id us"
  by (simp add: update_user_def)

text \<open>An update that moves no account into or out of a class of roles keeps that class.\<close>

lemma has_role_update:
  assumes "\<And>u. u_id (f u) = u_id u"
    and "\<And>u. u \<in> set us \<Longrightarrow> u_id u = uid \<Longrightarrow>
      u_role (f u) = u_role u \<or> u_role u \<notin> R \<and> u_role (f u) \<notin> R"
  shows "has_role R (update_user f uid us) = has_role R us"
  using assms(2)
proof (induction us)
  case (Cons a us)
  from Cons.prems [of a] have "u_id a = uid \<Longrightarrow> u_role (f a) = u_role a \<or> u_role a \<notin> R \<and> u_role (f a) \<notin> R"
    by simp
  moreover from Cons have "has_role R (update_user f uid us) = has_role R us" by simp
  ultimately show ?case by (auto simp: has_role_def update_user_def assms(1))
qed (simp add: has_role_def update_user_def)

lemma role_code_eq: "role_of_i16 n = r \<Longrightarrow> role_to_i16 r = n"
  by (auto simp: role_of_i16_def)

lemma role_of_i16_cases:
  "role_of_i16 n = Admin \<longleftrightarrow> n = 3" "role_of_i16 n = Root \<longleftrightarrow> n = 4"
  by (auto simp: role_of_i16_def)

lemma role_lt_Admin_code: "role_lt (role_of_i16 n) Admin \<Longrightarrow> n \<noteq> 3 \<and> n \<noteq> 4"
  by (auto simp: role_lt_Admin role_of_i16_def split: if_splits)

lemma role_lt_Admin_to: "role_lt r Admin \<Longrightarrow> role_to_i16 r \<noteq> 3 \<and> role_to_i16 r \<noteq> 4"
  by (auto simp: role_lt_Admin)

lemma can_change_nonroot:
  assumes "can_change_role actor (Some (role_of_i16 cur)) req" and "actor \<noteq> Root"
  shows "role_to_i16 req = cur \<or> cur \<notin> {3, 4} \<and> role_to_i16 req \<notin> {3, 4}"
  using assms role_lt_Admin_code [of cur] role_lt_Admin_to [of req] role_code_eq [of cur req]
  by (auto simp: can_change_role_def is_root_def split: if_splits)

lemma can_change_root:
  assumes "can_change_role actor (Some (role_of_i16 cur)) req" and "is_valid req"
  shows "role_to_i16 req = cur \<or> cur \<noteq> 4 \<and> role_to_i16 req \<noteq> 4"
  using assms role_code_eq [of cur req]
  by (cases req) (auto simp: can_change_role_def role_of_i16_cases split: if_splits)

lemma admin_update_has_role:
  assumes d: "distinct (map u_id us)"
    and ch: "\<And>cur. can_change_role actor_role (Some (role_of_i16 cur)) (ud_role data) \<Longrightarrow>
      role_to_i16 (ud_role data) = cur \<or> cur \<notin> R \<and> role_to_i16 (ud_role data) \<notin> R"
  shows "has_role R (fst (admin_update us actor_id actor_role uid data)) = has_role R us"
proof -
  let ?f = "\<lambda>u. u\<lparr>u_email := ud_email data, u_nickname := ud_nickname data, u_bio := ud_bio data,
      u_role := role_to_i16 (ud_role data)\<rparr>"
  have "has_role R (update_user ?f uid us) = has_role R us"
    if f: "find_user us uid = Some cur"
      and c: "can_change_role actor_role (Some (role_of_i16 (u_role cur))) (ud_role data)" for cur
  proof (rule has_role_update)
    fix u assume "u \<in> set us" "u_id u = uid"
    then have "u = cur" using find_user_unique [OF d _ _, of u cur] f by simp
    with ch [OF c] show "u_role (?f u) = u_role u \<or> u_role u \<notin> R \<and> u_role (?f u) \<notin> R" by simp
  qed simp
  then show ?thesis by (auto simp: admin_update_def Let_def split: option.splits)
qed

lemma admin_handle_has_role:
  assumes d: "distinct (map u_id us)"
    and up: "\<And>cur r. is_valid r \<Longrightarrow> can_change_role actor_role (Some (role_of_i16 cur)) r \<Longrightarrow>
      role_to_i16 r = cur \<or> cur \<notin> R \<and> role_to_i16 r \<notin> R"
    and cr: "\<And>r. is_valid r \<Longrightarrow> can_change_role actor_role None r \<Longrightarrow> role_to_i16 r \<notin> R"
  shows "has_role R (fst (admin_handle actor_id actor_role fresh req us)) = has_role R us"
proof (cases req)
  case (ReqCreate email nickname bio role pass)
  with cr [of "role_of_i16 role"] show ?thesis
    by (auto simp: admin_create_def has_role_def split: option.splits)
next
  case (ReqUpdate uid email nickname bio role)
  show ?thesis
  proof (cases "is_valid (role_of_i16 role)")
    case True
    have "has_role R (fst (admin_update us actor_id actor_role uid
        \<lparr>ud_email = email, ud_nickname = nickname, ud_bio = bio, ud_role = role_of_i16 role\<rparr>)) = has_role R us"
      using up [OF True] by (intro admin_update_has_role [OF d]) simp
    with True ReqUpdate show ?thesis by simp
  qed (simp add: ReqUpdate)
next
  case (ReqReset uid pass)
  have "has_role R (update_user (\<lambda>u. u\<lparr>u_pass := pass, u_must_change := True\<rparr>) uid us) = has_role R us"
    by (rule has_role_update) simp_all
  with ReqReset show ?thesis by (auto simp: admin_reset_password_def split: option.splits)
qed

lemma admin_handle_distinct:
  assumes "distinct (map u_id us)" and "fresh \<notin> u_id ` set us"
  shows "distinct (map u_id (fst (admin_handle actor_id actor_role fresh req us)))"
  using assms
  by (cases req) (auto simp: admin_create_def admin_update_def admin_reset_password_def Let_def
      split: option.splits)

text \<open>Runs of the admin API: any requests by any actors, new accounts with unused ids.\<close>

inductive admin_run ::
  "(ustr \<Rightarrow> ustr) \<Rightarrow> (ustr \<Rightarrow> bool) \<Rightarrow> (user_role \<Rightarrow> bool) \<Rightarrow> user_admin_state \<Rightarrow> user_admin_state \<Rightarrow> bool"
  for lower email_ok allowed where
  no_request: "admin_run lower email_ok allowed st st"
| request: "admin_run lower email_ok allowed st st' \<Longrightarrow> allowed actor_role \<Longrightarrow>
    fresh \<notin> u_id ` set (ua_users st') \<Longrightarrow>
    admin_run lower email_ok allowed st
      (fst (handle_user_admin lower email_ok actor_id actor_role fresh req st'))"

lemma admin_run_distinct:
  "admin_run lower email_ok allowed st st' \<Longrightarrow> distinct (map u_id (ua_users st)) \<Longrightarrow>
   distinct (map u_id (ua_users st'))"
proof (induction rule: admin_run.induct)
  case (request st st' actor_role fresh actor_id req)
  then show ?case
    using users_handle_user_admin [of lower email_ok actor_id actor_role fresh req st']
      admin_handle_distinct [of "ua_users st'" fresh actor_id actor_role "normalize_request lower req"]
    by auto
qed

lemma admin_run_has_role:
  assumes "admin_run lower email_ok allowed st st'" and "distinct (map u_id (ua_users st))"
    and step: "\<And>actor role fresh req us. allowed role \<Longrightarrow> distinct (map u_id us) \<Longrightarrow>
      has_role R (fst (admin_handle actor role fresh req us)) = has_role R us"
  shows "has_role R (ua_users st') = has_role R (ua_users st)"
  using assms(1,2)
proof (induction rule: admin_run.induct)
  case (request st st' actor_role fresh actor_id req)
  have "distinct (map u_id (ua_users st'))"
    using admin_run_distinct [OF request.hyps(1) request.prems] .
  with request step [of actor_role "ua_users st'" actor_id fresh "normalize_request lower req"] show ?case
    using users_handle_user_admin [of lower email_ok actor_id actor_role fresh req st'] by auto
qed simp

section \<open>Properties\<close>

text \<open>
  C8: no privilege escalation. However many requests administrators below root send to the admin
  API, the set of accounts holding the Admin or Root role, with their roles, stays what it was.
\<close>

theorem admins_cannot_escalate:
  assumes "admin_run lower email_ok (\<lambda>r. r \<noteq> Root) st st'" and "distinct (map u_id (ua_users st))"
  shows "has_role {3, 4} (ua_users st') = has_role {3, 4} (ua_users st)"
  using assms
proof (rule admin_run_has_role)
  fix actor actor_role fresh req and us :: "user_row list"
  assume nr: "actor_role \<noteq> Root" and "distinct (map u_id us)"
  from this(2) show "has_role {3, 4} (fst (admin_handle actor actor_role fresh req us)) = has_role {3, 4} us"
  proof (rule admin_handle_has_role)
    fix r assume "is_valid r" "can_change_role actor_role None r"
    then show "role_to_i16 r \<notin> {3, 4}" using nr role_lt_Admin_to [of r]
      by (auto simp: can_change_role_def is_root_def split: if_splits)
  qed (use can_change_nonroot nr in blast)
qed

definition sample_users :: "user_row list" where
  "sample_users = [\<lparr>u_id = 1, u_email = [97], u_pass = [], u_role = 3, u_nickname = [97], u_bio = None,
     u_must_change = False\<rparr>, (new_user 2 [98] [])]"

definition sample_admin :: user_admin_state where
  "sample_admin = \<lparr>ua_users = sample_users, ua_sessions = Some (\<lambda>_. []), ua_events = []\<rparr>"

lemma admins_cannot_escalate_witness:
  "has_role {3, 4} (ua_users (fst (handle_user_admin id (\<lambda>_. True) 1 Admin 9
      (ReqUpdate 2 [98] [98] None 3) sample_admin))) = [(1, 3)]"
proof -
  have "admin_run id (\<lambda>_. True) (\<lambda>r. r \<noteq> Root) sample_admin
      (fst (handle_user_admin id (\<lambda>_. True) 1 Admin 9 (ReqUpdate 2 [98] [98] None 3) sample_admin))"
    by (rule admin_run.request [OF admin_run.no_request])
      (simp_all add: sample_admin_def sample_users_def new_user_def)
  from admins_cannot_escalate [OF this] show ?thesis
    by (simp add: sample_admin_def sample_users_def new_user_def has_role_def)
qed

text \<open>
  The root accounts are untouchable: no sequence of admin requests, by actors of any role, root
  included, creates, removes or demotes a root account.
\<close>

theorem root_accounts_fixed:
  assumes "admin_run lower email_ok (\<lambda>r. True) st st'" and "distinct (map u_id (ua_users st))"
  shows "has_role {4} (ua_users st') = has_role {4} (ua_users st)"
  using assms
proof (rule admin_run_has_role)
  fix actor actor_role fresh req and us :: "user_row list"
  assume "distinct (map u_id us)"
  then show "has_role {4} (fst (admin_handle actor actor_role fresh req us)) = has_role {4} us"
  proof (rule admin_handle_has_role)
    fix r assume "is_valid r" "can_change_role actor_role None r"
    then show "role_to_i16 r \<notin> {4}" by (cases r) (auto simp: can_change_role_def)
  next
    fix cur r
    assume "is_valid r" "can_change_role actor_role (Some (role_of_i16 cur)) r"
    from can_change_root [OF this(2,1)] show "role_to_i16 r = cur \<or> cur \<notin> {4} \<and> role_to_i16 r \<notin> {4}" by simp
  qed
qed

lemma root_accounts_fixed_witness:
  "has_role {4} (ua_users (fst (handle_user_admin id (\<lambda>_. True) 1 Root 9
      (ReqCreate [99] [99] None 4 []) sample_admin))) = []"
proof -
  have "admin_run id (\<lambda>_. True) (\<lambda>r. True) sample_admin
      (fst (handle_user_admin id (\<lambda>_. True) 1 Root 9 (ReqCreate [99] [99] None 4 []) sample_admin))"
    by (rule admin_run.request [OF admin_run.no_request])
      (simp_all add: sample_admin_def sample_users_def new_user_def)
  from root_accounts_fixed [OF this] show ?thesis
    by (simp add: sample_admin_def sample_users_def new_user_def has_role_def)
qed

text \<open>
  Concurrent logins are bounded. A login leaves at most \<open>max_session\<close> sessions of the user, the
  new one first and valid, keeps the most recent others, and touches no other user's sessions.
\<close>

theorem login_bounds_sessions:
  assumes "session_append uuid n (Some m) sess uid = Inr (store, sess')" and "0 < n"
  shows "\<exists>m' sid. store = Some m' \<and> length (m' uid) \<le> n \<and> m' uid = sid # take (n - 1) (m uid)
    \<and> session_verify store sess' = Inr True \<and> (\<forall>v. v \<noteq> uid \<longrightarrow> m' v = m v)"
  using assms
  by (cases n) (auto simp: session_append_def get_session_id_def session_verify_def split: option.splits)

lemma login_bounds_sessions_witness:
  "session_append [120] 2 (Some (\<lambda>_. [[121], [122]])) \<lparr>ck_user_id = None, ck_session_id = None\<rparr> 7
     = Inr (Some ((\<lambda>_. [[121], [122]])(7 := [[120], [121]])), \<lparr>ck_user_id = Some 7, ck_session_id = Some [120]\<rparr>)
   \<and> session_verify (Some ((\<lambda>_. [[121], [122]])(7 := [[120], [121]])))
        \<lparr>ck_user_id = Some 7, ck_session_id = Some [120]\<rparr> = Inr True"
proof -
  have a: "session_append [120] 2 (Some (\<lambda>_. [[121], [122]])) \<lparr>ck_user_id = None, ck_session_id = None\<rparr> 7
     = Inr (Some ((\<lambda>_. [[121], [122]])(7 := [[120], [121]])), \<lparr>ck_user_id = Some 7, ck_session_id = Some [120]\<rparr>)"
    by (simp add: session_append_def get_session_id_def)
  from login_bounds_sessions [OF a] a show ?thesis by auto
qed

text \<open>
  The privilege check, exactly. For a request no earlier middleware has vouched for, the request
  is served if and only if its session is in the user's list, the user exists with at least the
  required role and, when a password change is due, only the password routes are asked for.
\<close>

theorem privilege_check_exact:
  "(\<exists>ext'. privilege_call store (Some us) required path sess
       \<lparr>ext_role = None, ext_auth = None, ext_team = None\<rparr> = Serve ext')
   \<longleftrightarrow> (\<exists>uid u. session_verify store sess = Inr True \<and> ck_user_id sess = Some uid
         \<and> find_user us uid = Some u \<and> role_ge (role_of_i16 (u_role u)) required
         \<and> (\<not> u_must_change u \<or> password_route path))"
  by (auto simp: privilege_call_def get_auth_state_by_id_def split: sum.splits bool.splits option.splits)

lemma privilege_check_exact_witness:
  "\<exists>ext'. privilege_call (Some (\<lambda>_. [[120]])) (Some [new_user 7 [98] []]) User []
     \<lparr>ck_user_id = Some 7, ck_session_id = Some [120]\<rparr>
     \<lparr>ext_role = None, ext_auth = None, ext_team = None\<rparr> = Serve ext'"
  unfolding privilege_check_exact
  by (simp add: find_user_def new_user_def role_of_i16_def role_order session_verify_def)


definition open_games :: game_tables where
  "open_games = \<lparr>game_active = (\<lambda>_. Some True), member_team = (\<lambda>_ _. None)\<rparr>"


text \<open>
  During maintenance only the exempt paths and verified administrators get through.
\<close>

theorem maintenance_lets_only_admins_through:
  "(\<exists>ext'. maintenance_call store (Some us) True path sess ext = Serve ext')
   \<longleftrightarrow> maintenance_exempt path
     \<or> (\<exists>uid u. session_verify store sess = Inr True \<and> ck_user_id sess = Some uid
          \<and> find_user us uid = Some u \<and> is_admin (role_of_i16 (u_role u)))"
proof -
  have "role_ge r Admin \<longleftrightarrow> is_admin r" for r
    by (cases r) (simp_all add: role_order is_admin_def)
  then show ?thesis
    by (auto simp: maintenance_call_def get_auth_state_by_id_def split: option.splits)
qed

end
