(* ===== verification/Game_Settings.thy ===== *)
theory Game_Settings
  imports Prelude "HOL-Library.AList"
begin

text \<open>
  Game settings: \<^verbatim>\<open>src/model/game.rs\<close> and the setting-group reader of \<^verbatim>\<open>src/db/game.rs\<close>. A JSON
  object is an association list with distinct keys; \<open>remove\<close> and \<open>insert\<close> of the map are \<open>AList.delete\<close>
  and \<open>AList.update\<close>. The decoders follow serde: a struct is read from an object, ignoring unknown
  keys, or from an array of exactly its fields; a missing optional field is \<open>None\<close>; a unit variant is
  its name or an object with that one key and a null.
\<close>

datatype json =
    JNull
  | JBool bool
  | JInt int
  | JFloat nat
  | JStr ustr
  | JArr "json list"
  | JObj "(ustr \<times> json) list"

fun is_object :: "json \<Rightarrow> bool" where
  "is_object (JObj m) = True"
| "is_object _ = False"

definition unwrap_null :: "json option \<Rightarrow> json" where
  "unwrap_null x = (case x of Some v \<Rightarrow> v | None \<Rightarrow> JNull)"

section \<open>Validation of patches\<close>

datatype avatar_provider = Cravatar | Catavatar

definition provider_of_name :: "ustr \<Rightarrow> avatar_provider option" where
  "provider_of_name s =
     (if s = lit ''cravatar'' then Some Cravatar
      else if s = lit ''catavatar'' then Some Catavatar else None)"

fun decode_provider :: "json \<Rightarrow> avatar_provider option" where
  "decode_provider (JStr s) = provider_of_name s"
| "decode_provider (JObj [(k, JNull)]) = provider_of_name k"
| "decode_provider _ = None"

definition valid_max_members :: "json \<Rightarrow> bool" where
  "valid_max_members v =
     (case v of JNull \<Rightarrow> True | JInt n \<Rightarrow> in_i64 n \<and> 0 < n \<and> n \<le> i32_max | _ \<Rightarrow> False)"

definition valid_text :: "nat \<Rightarrow> json \<Rightarrow> bool" where
  "valid_text bound v =
     (case v of JNull \<Rightarrow> True | JStr s \<Rightarrow> trim s \<noteq> [] \<and> length s \<le> bound | _ \<Rightarrow> False)"

definition is_boolean :: "json \<Rightarrow> bool" where
  "is_boolean v = (case v of JBool b \<Rightarrow> True | _ \<Rightarrow> False)"

definition valid_team_field :: "ustr \<Rightarrow> json \<Rightarrow> bool" where
  "valid_team_field key v =
     (if key = lit ''max_members'' then valid_max_members v
      else if key = lit ''allow_duplicate_names'' then is_boolean v else False)"

fun team_validate_patch :: "json \<Rightarrow> bool" where
  "team_validate_patch JNull = True"
| "team_validate_patch (JObj team) = list_all (\<lambda>(key, v). valid_team_field key v) team"
| "team_validate_patch _ = False"

definition valid_display_field :: "ustr \<Rightarrow> json \<Rightarrow> bool" where
  "valid_display_field key v =
     (if key = lit ''staff_nickname'' then valid_text 60 v
      else if key = lit ''staff_avatar_email'' then valid_text 255 v
      else if key = lit ''staff_avatar_provider'' then decode_provider v \<noteq> None
      else if key = lit ''delay_solve_stats'' then is_boolean v else False)"

fun display_validate_patch :: "json \<Rightarrow> bool" where
  "display_validate_patch JNull = True"
| "display_validate_patch (JObj display) = list_all (\<lambda>(key, v). valid_display_field key v) display"
| "display_validate_patch _ = False"

definition valid_root_field :: "ustr \<Rightarrow> json \<Rightarrow> bool" where
  "valid_root_field key v =
     (if key = lit ''team'' then team_validate_patch v
      else if key = lit ''display'' then display_validate_patch v
      else if key = lit ''ticket'' then v = JNull \<or> is_object v else False)"

fun settings_validate_patch :: "json \<Rightarrow> bool" where
  "settings_validate_patch (JObj root) = list_all (\<lambda>(key, v). valid_root_field key v) root"
| "settings_validate_patch _ = False"

section \<open>Merging\<close>

fun merge_patch :: "json \<Rightarrow> json \<Rightarrow> json"
and merge_fields :: "(ustr \<times> json) list \<Rightarrow> (ustr \<times> json) list \<Rightarrow> (ustr \<times> json) list" where
  "merge_patch base (JObj patch) =
     (case base of JObj b \<Rightarrow> JObj (merge_fields b patch) | _ \<Rightarrow> JObj patch)"
| "merge_patch base JNull = JNull"
| "merge_patch base (JBool b) = JBool b"
| "merge_patch base (JInt n) = JInt n"
| "merge_patch base (JFloat n) = JFloat n"
| "merge_patch base (JStr s) = JStr s"
| "merge_patch base (JArr xs) = JArr xs"
| "merge_fields b [] = b"
| "merge_fields b ((key, v) # patch) =
     (if v = JNull then merge_fields (AList.delete key b) patch
      else merge_fields (AList.update key (merge_patch (unwrap_null (map_of b key)) v) b) patch)"

definition nullable_setting :: "ustr list \<Rightarrow> bool" where
  "nullable_setting path \<longleftrightarrow> path = [lit ''team'', lit ''max_members'']"

fun merge_settings_patch_at :: "json \<Rightarrow> json \<Rightarrow> ustr list \<Rightarrow> json"
and merge_settings_fields ::
  "(ustr \<times> json) list \<Rightarrow> (ustr \<times> json) list \<Rightarrow> ustr list \<Rightarrow> (ustr \<times> json) list" where
  "merge_settings_patch_at base (JObj patch) path =
     (case base of JObj b \<Rightarrow> JObj (merge_settings_fields b patch path) | _ \<Rightarrow> JObj patch)"
| "merge_settings_patch_at base JNull path = JNull"
| "merge_settings_patch_at base (JBool b) path = JBool b"
| "merge_settings_patch_at base (JInt n) path = JInt n"
| "merge_settings_patch_at base (JFloat n) path = JFloat n"
| "merge_settings_patch_at base (JStr s) path = JStr s"
| "merge_settings_patch_at base (JArr xs) path = JArr xs"
| "merge_settings_fields b [] path = b"
| "merge_settings_fields b ((key, v) # patch) path =
     (let child_path = path @ [key]
      in if v = JNull \<and> \<not> nullable_setting child_path
         then merge_settings_fields (AList.delete key b) patch path
         else merge_settings_fields
           (AList.update key (merge_settings_patch_at (unwrap_null (map_of b key)) v child_path) b)
           patch path)"

definition merge_settings_patch :: "json \<Rightarrow> json \<Rightarrow> json" where
  "merge_settings_patch base patch = merge_settings_patch_at base patch []"

section \<open>Decoding\<close>

record team_settings =
  max_members :: "int option"
  allow_duplicate_names :: bool

record display_settings =
  staff_nickname :: "ustr option"
  staff_avatar_email :: "ustr option"
  staff_avatar_provider :: avatar_provider
  delay_solve_stats :: bool

record game_settings =
  gs_team :: team_settings
  gs_display :: display_settings
  gs_ticket :: json

definition team_default :: team_settings where
  "team_default = \<lparr>max_members = None, allow_duplicate_names = False\<rparr>"

definition display_default :: display_settings where
  "display_default = \<lparr>staff_nickname = None, staff_avatar_email = None,
     staff_avatar_provider = Cravatar, delay_solve_stats = False\<rparr>"

definition settings_default :: game_settings where
  "settings_default = \<lparr>gs_team = team_default, gs_display = display_default, gs_ticket = JObj []\<rparr>"

fun decode_bool :: "json \<Rightarrow> bool option" where
  "decode_bool (JBool b) = Some b"
| "decode_bool _ = None"

fun decode_opt_i32 :: "json \<Rightarrow> int option option" where
  "decode_opt_i32 JNull = Some None"
| "decode_opt_i32 (JInt n) = (if in_i32 n then Some (Some n) else None)"
| "decode_opt_i32 _ = None"

fun decode_opt_str :: "json \<Rightarrow> ustr option option" where
  "decode_opt_str JNull = Some None"
| "decode_opt_str (JStr s) = Some (Some s)"
| "decode_opt_str _ = None"

text \<open>The fields of a struct read from an object: a missing key is treated as null when optional.\<close>

definition required :: "(json \<Rightarrow> 'a option) \<Rightarrow> json option \<Rightarrow> 'a option" where
  "required d v = (case v of None \<Rightarrow> None | Some x \<Rightarrow> d x)"

definition make_team :: "int option option \<Rightarrow> bool option \<Rightarrow> team_settings option" where
  "make_team mm dup =
     (case (mm, dup) of
        (Some m, Some d) \<Rightarrow> Some \<lparr>max_members = m, allow_duplicate_names = d\<rparr>
      | _ \<Rightarrow> None)"

fun decode_team :: "json \<Rightarrow> team_settings option" where
  "decode_team (JObj m) =
     make_team (decode_opt_i32 (unwrap_null (map_of m (lit ''max_members''))))
       (required decode_bool (map_of m (lit ''allow_duplicate_names'')))"
| "decode_team (JArr [a, b]) = make_team (decode_opt_i32 a) (decode_bool b)"
| "decode_team _ = None"

definition make_display ::
  "ustr option option \<Rightarrow> ustr option option \<Rightarrow> avatar_provider option \<Rightarrow> bool option
    \<Rightarrow> display_settings option" where
  "make_display nick email provider delay =
     (case (nick, email, provider, delay) of
        (Some n, Some e, Some p, Some d) \<Rightarrow>
          Some \<lparr>staff_nickname = n, staff_avatar_email = e, staff_avatar_provider = p,
            delay_solve_stats = d\<rparr>
      | _ \<Rightarrow> None)"

fun decode_display :: "json \<Rightarrow> display_settings option" where
  "decode_display (JObj m) =
     make_display (decode_opt_str (unwrap_null (map_of m (lit ''staff_nickname''))))
       (decode_opt_str (unwrap_null (map_of m (lit ''staff_avatar_email''))))
       (required decode_provider (map_of m (lit ''staff_avatar_provider'')))
       (required decode_bool (map_of m (lit ''delay_solve_stats'')))"
| "decode_display (JArr [a, b, c, d]) =
     make_display (decode_opt_str a) (decode_opt_str b) (decode_provider c) (decode_bool d)"
| "decode_display _ = None"

definition make_settings ::
  "team_settings option \<Rightarrow> display_settings option \<Rightarrow> json option \<Rightarrow> game_settings option" where
  "make_settings t d k =
     (case (t, d, k) of
        (Some t, Some d, Some k) \<Rightarrow> Some \<lparr>gs_team = t, gs_display = d, gs_ticket = k\<rparr>
      | _ \<Rightarrow> None)"

fun decode_settings :: "json \<Rightarrow> game_settings option" where
  "decode_settings (JObj m) =
     make_settings (required decode_team (map_of m (lit ''team'')))
       (required decode_display (map_of m (lit ''display'')))
       (map_of m (lit ''ticket''))"
| "decode_settings (JArr [a, b, c]) = make_settings (decode_team a) (decode_display b) (Some c)"
| "decode_settings _ = None"

section \<open>Defaults as values, sanitizing, and the two readers\<close>

definition team_default_value :: json where
  "team_default_value =
     JObj [(lit ''max_members'', JNull), (lit ''allow_duplicate_names'', JBool False)]"

definition display_default_value :: json where
  "display_default_value =
     JObj [(lit ''staff_nickname'', JNull), (lit ''staff_avatar_email'', JNull),
       (lit ''staff_avatar_provider'', JStr (lit ''cravatar'')), (lit ''delay_solve_stats'', JBool False)]"

definition default_value :: json where
  "default_value =
     JObj [(lit ''team'', team_default_value), (lit ''display'', display_default_value),
       (lit ''ticket'', JObj [])]"

definition sanitize_text :: "nat \<Rightarrow> ustr option \<Rightarrow> ustr option" where
  "sanitize_text bound x =
     (case x of
        None \<Rightarrow> None
      | Some s \<Rightarrow> (let t = trim s in if t \<noteq> [] \<and> length t \<le> bound then Some t else None))"

definition display_sanitize :: "display_settings \<Rightarrow> display_settings" where
  "display_sanitize d =
     d\<lparr>staff_nickname := sanitize_text 60 (staff_nickname d),
       staff_avatar_email := sanitize_text 255 (staff_avatar_email d)\<rparr>"

definition settings_sanitize :: "json option \<Rightarrow> game_settings" where
  "settings_sanitize v =
     (let value = unwrap_null v;
          merged = merge_settings_patch default_value value;
          settings = (case decode_settings merged of Some s \<Rightarrow> s | None \<Rightarrow> settings_default);
          settings = settings\<lparr>gs_display := display_sanitize (gs_display settings)\<rparr>
      in if is_object (gs_ticket settings) then settings
         else settings\<lparr>gs_ticket := gs_ticket settings_default\<rparr>)"

definition sanitize_storage :: "json option \<Rightarrow> json" where
  "sanitize_storage v =
     (let value = (case v of Some x \<Rightarrow> x | None \<Rightarrow> JObj [])
      in if is_object value then value else JObj [])"

definition decode_team_group :: "json \<Rightarrow> team_settings" where
  "decode_team_group v =
     (case decode_team (merge_patch team_default_value v) of Some t \<Rightarrow> t | None \<Rightarrow> team_default)"

definition decode_display_group :: "json \<Rightarrow> display_settings" where
  "decode_display_group v =
     display_sanitize
       (case decode_display (merge_patch display_default_value v) of
          Some d \<Rightarrow> d | None \<Rightarrow> display_default)"

text \<open>\<open>settings #> path\<close> and \<open>get_setting_group\<close>: a path of one key into the stored object.\<close>

definition json_get :: "json \<Rightarrow> ustr \<Rightarrow> json option" where
  "json_get v key = (case v of JObj m \<Rightarrow> map_of m key | _ \<Rightarrow> None)"

definition get_team_group :: "json \<Rightarrow> team_settings" where
  "get_team_group stored = decode_team_group (unwrap_null (json_get stored (lit ''team'')))"

definition get_display_group :: "json \<Rightarrow> display_settings" where
  "get_display_group stored = decode_display_group (unwrap_null (json_get stored (lit ''display'')))"

text \<open>What game creation and update store.\<close>

definition create_settings :: "json option \<Rightarrow> json" where
  "create_settings settings =
     sanitize_storage (Some (merge_settings_patch default_value (unwrap_null settings)))"

definition update_settings :: "json \<Rightarrow> json \<Rightarrow> json" where
  "update_settings current patch = sanitize_storage (Some (merge_settings_patch current patch))"

section \<open>Merging keeps the shape of stored settings\<close>

lemma set_update_subset: "set (AList.update k v m) \<subseteq> insert (k, v) (set m)"
  by (induction m) auto

lemma set_delete_subset: "set (AList.delete k m) \<subseteq> set m"
  by (auto simp: AList.delete_eq)

lemma merge_settings_leaf [simp]: "\<not> is_object v \<Longrightarrow> merge_settings_patch_at base v path = v"
  by (cases v) auto

lemma merge_leaf [simp]: "\<not> is_object v \<Longrightarrow> merge_patch base v = v"
  by (cases v) auto

lemma unwrap_delete [simp]:
  "unwrap_null (map_of (AList.delete k m) j) = (if j = k then JNull else unwrap_null (map_of m j))"
  by (simp add: AList.delete_conv' unwrap_null_def)

lemma unwrap_update [simp]:
  "unwrap_null (map_of (AList.update k v m) j) = (if j = k then v else unwrap_null (map_of m j))"
  by (simp add: AList.update_conv' unwrap_null_def)

definition fields_ok :: "(ustr \<Rightarrow> json \<Rightarrow> bool) \<Rightarrow> (ustr \<times> json) list \<Rightarrow> bool" where
  "fields_ok Q m \<longleftrightarrow> (\<forall>(k, v) \<in> set m. Q k v)"

lemma fields_okD: "fields_ok Q m \<Longrightarrow> map_of m k = Some v \<Longrightarrow> Q k v"
  by (auto simp: fields_ok_def dest: map_of_SomeD)

lemma fields_ok_update: "fields_ok Q m \<Longrightarrow> Q k v \<Longrightarrow> fields_ok Q (AList.update k v m)"
  using set_update_subset [of k v m] by (auto simp: fields_ok_def)

lemma fields_ok_delete: "fields_ok Q m \<Longrightarrow> fields_ok Q (AList.delete k m)"
  using set_delete_subset [of k m] by (auto simp: fields_ok_def)

lemma merge_settings_fields_ok:
  assumes "fields_ok Q b" and "fields_ok P patch"
    and "\<And>k v b'. P k v \<Longrightarrow> fields_ok Q b' \<Longrightarrow> v \<noteq> JNull \<or> nullable_setting (path @ [k]) \<Longrightarrow>
      Q k (merge_settings_patch_at (unwrap_null (map_of b' k)) v (path @ [k]))"
  shows "fields_ok Q (merge_settings_fields b patch path)"
  using assms(1,2)
proof (induction patch arbitrary: b)
  case (Cons p patch)
  obtain k v where p: "p = (k, v)" by (cases p)
  with Cons.prems have v: "P k v" and patch: "fields_ok P patch" by (auto simp: fields_ok_def)
  show ?case
    unfolding p merge_settings_fields.simps Let_def
    using Cons.IH [OF fields_ok_delete [OF Cons.prems(1)] patch]
      Cons.IH [OF fields_ok_update [OF Cons.prems(1) assms(3) [OF v Cons.prems(1)]] patch]
    by simp
qed simp

lemma merge_settings_distinct:
  "distinct (map fst b) \<Longrightarrow> distinct (map fst (merge_settings_fields b patch path))"
  by (induction patch arbitrary: b)
    (auto simp: Let_def AList.distinct_delete AList.distinct_update split: if_splits)

lemma merge_settings_lookup:
  "distinct (map fst patch) \<Longrightarrow>
   map_of (merge_settings_fields b patch path) k =
     (case map_of patch k of
        None \<Rightarrow> map_of b k
      | Some v \<Rightarrow>
          if v = JNull \<and> \<not> nullable_setting (path @ [k]) then None
          else Some (merge_settings_patch_at (unwrap_null (map_of b k)) v (path @ [k])))"
proof (induction patch arbitrary: b)
  case (Cons p patch)
  obtain key v where p: "p = (key, v)" by (cases p)
  with Cons.prems have "key \<notin> fst ` set patch" "distinct (map fst patch)" by auto
  moreover from this have "map_of patch key = None" by (simp add: map_of_eq_None_iff)
  ultimately show ?case
    using Cons.IH [of "AList.delete key b"]
      Cons.IH [of "AList.update key (merge_settings_patch_at (unwrap_null (map_of b key)) v (path @ [key])) b"]
    by (auto simp: p Let_def AList.delete_conv' AList.update_conv' split: option.split)
qed simp

text \<open>On flat patches the two merges give the same values, a missing key counting as null.\<close>

lemma merges_agree_flat:
  assumes "\<forall>k. unwrap_null (map_of b k) = unwrap_null (map_of b' k)"
    and "fields_ok (\<lambda>k v. \<not> is_object v) patch"
  shows "unwrap_null (map_of (merge_fields b patch) k)
    = unwrap_null (map_of (merge_settings_fields b' patch path) k)"
  using assms
proof (induction patch arbitrary: b b')
  case (Cons p patch)
  obtain key v where p: "p = (key, v)" by (cases p)
  with Cons.prems(2) have v: "\<not> is_object v" and patch: "fields_ok (\<lambda>k v. \<not> is_object v) patch"
    by (auto simp: fields_ok_def)
  show ?case
    using Cons.prems(1) v by (auto simp: p Let_def intro!: Cons.IH [OF _ patch])
qed simp

text \<open>The shape of what is stored.\<close>

definition team_field_ok :: "ustr \<Rightarrow> json \<Rightarrow> bool" where
  "team_field_ok key v = valid_team_field key v"

definition display_field_ok :: "ustr \<Rightarrow> json \<Rightarrow> bool" where
  "display_field_ok key v \<longleftrightarrow> valid_display_field key v \<and> \<not> is_object v"

definition root_field_ok :: "ustr \<Rightarrow> json \<Rightarrow> bool" where
  "root_field_ok key v \<longleftrightarrow>
     (key = lit ''team'' \<longrightarrow> (\<exists>f. v = JObj f \<and> fields_ok team_field_ok f))
     \<and> (key = lit ''display'' \<longrightarrow> (\<exists>f. v = JObj f \<and> fields_ok display_field_ok f))
     \<and> (key = lit ''ticket'' \<longrightarrow> is_object v)"

definition stored_ok :: "json \<Rightarrow> bool" where
  "stored_ok s \<longleftrightarrow> (\<exists>m. s = JObj m \<and> distinct (map fst m) \<and> fields_ok root_field_ok m)"

text \<open>Patches the API accepts, with the avatar provider written as its name.\<close>

definition provider_by_name :: "json \<Rightarrow> bool" where
  "provider_by_name patch \<longleftrightarrow>
     (\<forall>root. patch = JObj root \<longrightarrow> (\<forall>d. (lit ''display'', JObj d) \<in> set root \<longrightarrow>
        (\<forall>v. (lit ''staff_avatar_provider'', v) \<in> set d \<longrightarrow> \<not> is_object v)))"

lemma team_field_leaf: "valid_team_field k v \<Longrightarrow> \<not> is_object v"
  by (cases v) (auto simp: valid_team_field_def valid_max_members_def is_boolean_def split: if_splits)

lemma display_field_leaf:
  "valid_display_field k v \<Longrightarrow> k \<noteq> lit ''staff_avatar_provider'' \<Longrightarrow> \<not> is_object v"
  by (cases v) (auto simp: valid_display_field_def valid_text_def is_boolean_def split: if_splits)

lemma merge_team_ok:
  assumes "base = JNull \<or> (\<exists>f. base = JObj f \<and> fields_ok team_field_ok f)"
    and "fields_ok team_field_ok t"
  shows "\<exists>f. merge_settings_patch_at base (JObj t) path = JObj f \<and> fields_ok team_field_ok f"
  using assms merge_settings_fields_ok [of team_field_ok _ team_field_ok t path]
  by (auto simp: team_field_ok_def team_field_leaf)

lemma merge_display_ok:
  assumes "base = JNull \<or> (\<exists>f. base = JObj f \<and> fields_ok display_field_ok f)"
    and "fields_ok display_field_ok t"
  shows "\<exists>f. merge_settings_patch_at base (JObj t) path = JObj f \<and> fields_ok display_field_ok f"
  using assms merge_settings_fields_ok [of display_field_ok _ display_field_ok t path]
  by (auto simp: display_field_ok_def)

lemma root_field_unwrap:
  assumes "fields_ok root_field_ok b"
  shows "unwrap_null (map_of b (lit ''team'')) = JNull
      \<or> (\<exists>f. unwrap_null (map_of b (lit ''team'')) = JObj f \<and> fields_ok team_field_ok f)"
    and "unwrap_null (map_of b (lit ''display'')) = JNull
      \<or> (\<exists>f. unwrap_null (map_of b (lit ''display'')) = JObj f \<and> fields_ok display_field_ok f)"
  using fields_okD [OF assms]
  by (auto simp: unwrap_null_def root_field_ok_def split: option.split)

text \<open>A patch field is null or already has the stored shape.\<close>

definition patch_field_ok :: "ustr \<Rightarrow> json \<Rightarrow> bool" where
  "patch_field_ok k v \<longleftrightarrow> v = JNull \<or> root_field_ok k v"

lemma valid_patch_fields:
  assumes "settings_validate_patch (JObj root)" and "provider_by_name (JObj root)"
  shows "fields_ok patch_field_ok root"
  unfolding fields_ok_def
proof (intro ballI, clarify)
  fix k v assume kv: "(k, v) \<in> set root"
  with assms(1) have r: "valid_root_field k v" by (auto simp: list_all_iff)
  consider "v = JNull" | f where "v = JObj f" | "v \<noteq> JNull" "\<not> is_object v"
    by (cases v) auto
  then show "patch_field_ok k v"
  proof cases
    case (2 f)
    have "fields_ok display_field_ok f" if k: "k = lit ''display''"
      unfolding fields_ok_def
    proof (intro ballI, clarify)
      fix a w assume aw: "(a, w) \<in> set f"
      with r 2 k have "valid_display_field a w" by (auto simp: valid_root_field_def list_all_iff)
      moreover have "\<not> is_object w" if "a = lit ''staff_avatar_provider''"
        using assms(2) kv 2 k aw that by (auto simp: provider_by_name_def)
      ultimately show "display_field_ok a w" using display_field_leaf by (auto simp: display_field_ok_def)
    qed
    then show ?thesis using 2 r
      by (auto simp: patch_field_ok_def root_field_ok_def valid_root_field_def fields_ok_def
          list_all_iff team_field_ok_def split: if_splits)
  next
    case 3
    then show ?thesis using r
      by (cases v) (auto simp: patch_field_ok_def root_field_ok_def valid_root_field_def split: if_splits)
  qed (simp add: patch_field_ok_def)
qed

lemma merge_root_ok:
  assumes b: "fields_ok root_field_ok b" and p: "fields_ok patch_field_ok patch"
  shows "fields_ok root_field_ok (merge_settings_fields b patch [])"
proof (rule merge_settings_fields_ok [OF b p])
  fix k v b'
  assume v: "patch_field_ok k v" and b': "fields_ok root_field_ok b'"
    and n: "v \<noteq> JNull \<or> nullable_setting ([] @ [k])"
  from n have "v \<noteq> JNull" by (auto simp: nullable_setting_def)
  with v have r: "root_field_ok k v" by (simp add: patch_field_ok_def)
  let ?m = "merge_settings_patch_at (unwrap_null (map_of b' k)) v ([] @ [k])"
  have "\<exists>f. ?m = JObj f \<and> fields_ok team_field_ok f" if "k = lit ''team''"
    using r that merge_team_ok [OF root_field_unwrap(1) [OF b']] by (auto simp: root_field_ok_def)
  moreover have "\<exists>f. ?m = JObj f \<and> fields_ok display_field_ok f" if "k = lit ''display''"
    using r that merge_display_ok [OF root_field_unwrap(2) [OF b']] by (auto simp: root_field_ok_def)
  moreover have "is_object ?m" if "k = lit ''ticket''"
    using r that by (cases v) (auto simp: root_field_ok_def split: json.split)
  ultimately show "root_field_ok k ?m" by (auto simp: root_field_ok_def)
qed

lemma update_settings_ok:
  assumes "stored_ok s" and "settings_validate_patch patch" and "provider_by_name patch"
  shows "stored_ok (update_settings s patch)"
proof -
  from assms(1) obtain m where m: "s = JObj m" "distinct (map fst m)" "fields_ok root_field_ok m"
    by (auto simp: stored_ok_def)
  from assms(2) obtain root where patch: "patch = JObj root" by (cases patch) auto
  have "fields_ok root_field_ok (merge_settings_fields m root [])"
    using merge_root_ok [OF m(3)] valid_patch_fields assms patch by blast
  then show ?thesis
    using m patch by (simp add: update_settings_def merge_settings_patch_def sanitize_storage_def
        stored_ok_def merge_settings_distinct)
qed

lemma default_stored_ok: "stored_ok default_value"
  by (auto simp: stored_ok_def default_value_def fields_ok_def root_field_ok_def team_default_value_def
      display_default_value_def team_field_ok_def display_field_ok_def valid_team_field_def
      valid_display_field_def valid_max_members_def is_boolean_def valid_text_def provider_of_name_def)

lemma empty_stored_ok: "stored_ok (JObj [])"
  by (simp add: stored_ok_def fields_ok_def)

lemma create_settings_ok:
  assumes "case p of None \<Rightarrow> True | Some patch \<Rightarrow> settings_validate_patch patch \<and> provider_by_name patch"
  shows "stored_ok (create_settings p)"
proof (cases p)
  case None
  then show ?thesis
    by (simp add: create_settings_def unwrap_null_def merge_settings_patch_def sanitize_storage_def
        empty_stored_ok)
next
  case (Some patch)
  have "create_settings p = update_settings default_value patch"
    by (simp add: Some create_settings_def update_settings_def unwrap_null_def)
  then show ?thesis using update_settings_ok [OF default_stored_ok] assms Some by simp
qed

section \<open>Decoding stored settings\<close>

lemma required_unwrap: "d JNull = None \<Longrightarrow> required d v = d (unwrap_null v)"
  by (auto simp: required_def unwrap_null_def split: option.split)

lemma decode_team_unwrap:
  "decode_team (JObj m) = make_team (decode_opt_i32 (unwrap_null (map_of m (lit ''max_members''))))
     (decode_bool (unwrap_null (map_of m (lit ''allow_duplicate_names''))))"
  by (simp add: required_unwrap)

lemma decode_display_unwrap:
  "decode_display (JObj m) =
     make_display (decode_opt_str (unwrap_null (map_of m (lit ''staff_nickname''))))
       (decode_opt_str (unwrap_null (map_of m (lit ''staff_avatar_email''))))
       (decode_provider (unwrap_null (map_of m (lit ''staff_avatar_provider''))))
       (decode_bool (unwrap_null (map_of m (lit ''delay_solve_stats''))))"
  by (simp add: required_unwrap)

lemma team_flat: "fields_ok team_field_ok f \<Longrightarrow> fields_ok (\<lambda>k v. \<not> is_object v) f"
  by (auto simp: fields_ok_def team_field_ok_def dest: team_field_leaf)

lemma display_flat: "fields_ok display_field_ok f \<Longrightarrow> fields_ok (\<lambda>k v. \<not> is_object v) f"
  by (auto simp: fields_ok_def display_field_ok_def)

text \<open>A key with a non-null value keeps one when no patch entry for it is null.\<close>

lemma merge_settings_keeps:
  assumes "unwrap_null (map_of b k) \<noteq> JNull"
    and "fields_ok (\<lambda>j v. \<not> is_object v \<and> (j = k \<longrightarrow> v \<noteq> JNull)) patch"
  shows "unwrap_null (map_of (merge_settings_fields b patch path) k) \<noteq> JNull"
  using assms
proof (induction patch arbitrary: b)
  case (Cons p patch)
  obtain j v where p: "p = (j, v)" by (cases p)
  with Cons.prems have v: "\<not> is_object v" "j = k \<longrightarrow> v \<noteq> JNull"
    and patch: "fields_ok (\<lambda>j v. \<not> is_object v \<and> (j = k \<longrightarrow> v \<noteq> JNull)) patch"
    by (auto simp: fields_ok_def)
  from Cons.prems(1) v show ?case
    by (auto simp: p Let_def intro!: Cons.IH [OF _ patch] split: if_splits)
qed simp

lemma merged_team:
  assumes "fields_ok team_field_ok f"
  obtains t where "merge_settings_patch_at team_default_value (JObj f) path = JObj t"
    and "fields_ok team_field_ok t" and "decode_team (JObj t) \<noteq> None"
    and "decode_team (JObj t) = Some (decode_team_group (JObj f))"
proof -
  define b where "b = [(lit ''max_members'', JNull), (lit ''allow_duplicate_names'', JBool False)]"
  let ?t = "merge_settings_fields b f path"
  have m: "merge_settings_patch_at team_default_value (JObj f) path = JObj ?t"
    by (simp add: team_default_value_def b_def)
  have bok: "fields_ok team_field_ok b"
    by (simp add: b_def fields_ok_def team_field_ok_def valid_team_field_def valid_max_members_def
        is_boolean_def)
  have t: "fields_ok team_field_ok ?t"
    using merge_settings_fields_ok [OF bok assms] by (auto simp: team_field_ok_def team_field_leaf)
  have "fields_ok (\<lambda>j v. \<not> is_object v \<and> (j = lit ''allow_duplicate_names'' \<longrightarrow> v \<noteq> JNull)) f"
    using assms team_flat [OF assms]
    by (auto simp: fields_ok_def team_field_ok_def valid_team_field_def is_boolean_def)
  from merge_settings_keeps [OF _ this, of b path]
  have "unwrap_null (map_of ?t (lit ''allow_duplicate_names'')) \<noteq> JNull"
    by (simp add: b_def unwrap_null_def)
  then obtain v where v: "map_of ?t (lit ''allow_duplicate_names'') = Some v"
    by (auto simp: unwrap_null_def split: option.splits)
  from fields_okD [OF t v] obtain d where d: "v = JBool d"
    by (auto simp: team_field_ok_def valid_team_field_def is_boolean_def split: json.splits)
  have mm: "valid_max_members (unwrap_null (map_of ?t (lit ''max_members'')))"
    using fields_okD [OF t, of "lit ''max_members''"]
    by (auto simp: unwrap_null_def team_field_ok_def valid_team_field_def valid_max_members_def
        split: option.splits)
  then have "decode_opt_i32 (unwrap_null (map_of ?t (lit ''max_members''))) \<noteq> None"
    by (auto simp: valid_max_members_def i32_defs split: json.splits)
  with v d have dec: "decode_team (JObj ?t) \<noteq> None"
    by (auto simp: make_team_def required_def)
  have "unwrap_null (map_of (merge_fields b f) k) = unwrap_null (map_of ?t k)" for k
    by (rule merges_agree_flat [OF _ team_flat [OF assms]]) simp
  then have "decode_team (merge_patch team_default_value (JObj f)) = decode_team (JObj ?t)"
    by (simp add: team_default_value_def b_def [symmetric] decode_team_unwrap del: decode_team.simps)
  with dec have "decode_team (JObj ?t) = Some (decode_team_group (JObj f))"
    by (auto simp: decode_team_group_def simp del: decode_team.simps)
  with that m t dec show thesis by blast
qed

lemma merged_display:
  assumes "fields_ok display_field_ok f"
  obtains t where "merge_settings_patch_at display_default_value (JObj f) path = JObj t"
    and "decode_display (JObj t) \<noteq> None"
    and "map_option display_sanitize (decode_display (JObj t)) = Some (decode_display_group (JObj f))"
proof -
  define b where "b = [(lit ''staff_nickname'', JNull), (lit ''staff_avatar_email'', JNull),
       (lit ''staff_avatar_provider'', JStr (lit ''cravatar'')), (lit ''delay_solve_stats'', JBool False)]"
  let ?t = "merge_settings_fields b f path"
  have m: "merge_settings_patch_at display_default_value (JObj f) path = JObj ?t"
    by (simp add: display_default_value_def b_def)
  have bok: "fields_ok display_field_ok b"
    by (simp add: b_def fields_ok_def display_field_ok_def valid_display_field_def valid_text_def
        is_boolean_def provider_of_name_def)
  have t: "fields_ok display_field_ok ?t"
    using merge_settings_fields_ok [OF bok assms] by (auto simp: display_field_ok_def)
  have req: "\<exists>v. map_of ?t k = Some v"
    if k: "k = lit ''staff_avatar_provider'' \<or> k = lit ''delay_solve_stats''" for k
  proof -
    have "fields_ok (\<lambda>j v. \<not> is_object v \<and> (j = k \<longrightarrow> v \<noteq> JNull)) f"
      using assms k by (auto simp: fields_ok_def display_field_ok_def valid_display_field_def is_boolean_def)
    from merge_settings_keeps [OF _ this, of b path] k
    have "unwrap_null (map_of ?t k) \<noteq> JNull" by (auto simp: b_def unwrap_null_def)
    then show ?thesis by (auto simp: unwrap_null_def split: option.splits)
  qed
  have tx: "decode_opt_str (unwrap_null (map_of ?t k)) \<noteq> None"
    if k: "k = lit ''staff_nickname'' \<or> k = lit ''staff_avatar_email''" for k
    using fields_okD [OF t, of k] k
    by (cases "unwrap_null (map_of ?t k)")
      (auto simp: unwrap_null_def display_field_ok_def valid_display_field_def valid_text_def split: option.splits)
  obtain p where "map_of ?t (lit ''staff_avatar_provider'') = Some p" using req by blast
  moreover from fields_okD [OF t this] have "decode_provider p \<noteq> None"
    by (simp add: display_field_ok_def valid_display_field_def)
  moreover obtain d where d: "map_of ?t (lit ''delay_solve_stats'') = Some d" using req by blast
  moreover from fields_okD [OF t d] have "decode_bool d \<noteq> None"
    by (cases d) (auto simp: display_field_ok_def valid_display_field_def is_boolean_def)
  ultimately have dec: "decode_display (JObj ?t) \<noteq> None"
    using tx [of "lit ''staff_nickname''"] tx [of "lit ''staff_avatar_email''"]
    by (auto simp: make_display_def required_def)
  have "unwrap_null (map_of (merge_fields b f) k) = unwrap_null (map_of ?t k)" for k
    by (rule merges_agree_flat [OF _ display_flat [OF assms]]) simp
  then have "decode_display (merge_patch display_default_value (JObj f)) = decode_display (JObj ?t)"
    by (simp add: display_default_value_def b_def [symmetric] decode_display_unwrap del: decode_display.simps)
  with dec have "map_option display_sanitize (decode_display (JObj ?t)) = Some (decode_display_group (JObj f))"
    by (auto simp: decode_display_group_def simp del: decode_display.simps)
  with that m dec show thesis by blast
qed

text \<open>Both readers on settings of the stored shape.\<close>

lemma default_lookups:
  "default_value = JObj b \<Longrightarrow> unwrap_null (map_of b (lit ''team'')) = team_default_value
    \<and> unwrap_null (map_of b (lit ''display'')) = display_default_value
    \<and> unwrap_null (map_of b (lit ''ticket'')) = JObj []"
  by (auto simp: default_value_def unwrap_null_def)

lemma merged_group:
  assumes "distinct (map fst m)" and "default_value = JObj b" and "k \<in> {lit ''team'', lit ''display'', lit ''ticket''}"
    and "\<forall>v. map_of m k = Some v \<longrightarrow> v \<noteq> JNull"
  shows "map_of (merge_settings_fields b m []) k = Some
     (case map_of m k of
        None \<Rightarrow> unwrap_null (map_of b k)
      | Some v \<Rightarrow> merge_settings_patch_at (unwrap_null (map_of b k)) v [k])"
  using assms by (auto simp: merge_settings_lookup nullable_setting_def unwrap_null_def default_value_def
      split: option.split)

lemma decode_default_groups:
  "decode_team team_default_value = Some (decode_team_group JNull)"
  "map_option display_sanitize (decode_display display_default_value) = Some (decode_display_group JNull)"
  by (simp_all add: decode_team_group_def decode_display_group_def team_default_value_def
      display_default_value_def make_team_def make_display_def unwrap_null_def required_def
      team_default_def display_default_def provider_of_name_def display_sanitize_def sanitize_text_def)

lemma readers_agree:
  assumes "stored_ok s"
  shows "gs_team (settings_sanitize (Some s)) = get_team_group s"
    and "gs_display (settings_sanitize (Some s)) = get_display_group s"
proof -
  obtain m where s: "s = JObj m" and d: "distinct (map fst m)" and f: "fields_ok root_field_ok m"
    using assms by (auto simp: stored_ok_def)
  obtain b where b: "default_value = JObj b" by (simp add: default_value_def)
  let ?M = "merge_settings_fields b m []"
  note look = default_lookups [OF b]
  have root: "root_field_ok k v" if "map_of m k = Some v" for k v using fields_okD [OF f that] .
  obtain t where t: "map_of ?M (lit ''team'') = Some t"
    and dt: "decode_team t = Some (get_team_group s)"
  proof (cases "map_of m (lit ''team'')")
    case None
    with merged_group [OF d b, of "lit ''team''"] look that [of team_default_value]
    show thesis by (simp add: s get_team_group_def json_get_def unwrap_null_def decode_default_groups)
  next
    case (Some v)
    with root obtain g where g: "v = JObj g" "fields_ok team_field_ok g" by (auto simp: root_field_ok_def)
    from g(2) obtain u where "merge_settings_patch_at team_default_value (JObj g) [lit ''team''] = JObj u"
      and "decode_team (JObj u) = Some (decode_team_group (JObj g))"
      by (rule merged_team)
    with Some g merged_group [OF d b, of "lit ''team''"] look that [of "JObj u"]
    show thesis by (simp add: s get_team_group_def json_get_def unwrap_null_def)
  qed
  obtain u where u: "map_of ?M (lit ''display'') = Some u"
    and du: "map_option display_sanitize (decode_display u) = Some (get_display_group s)"
  proof (cases "map_of m (lit ''display'')")
    case None
    with merged_group [OF d b, of "lit ''display''"] look that [of display_default_value]
    show thesis by (simp add: s get_display_group_def json_get_def unwrap_null_def decode_default_groups)
  next
    case (Some v)
    with root obtain g where g: "v = JObj g" "fields_ok display_field_ok g" by (auto simp: root_field_ok_def)
    from g(2) obtain u where "merge_settings_patch_at display_default_value (JObj g) [lit ''display''] = JObj u"
      and "map_option display_sanitize (decode_display (JObj u)) = Some (decode_display_group (JObj g))"
      by (rule merged_display)
    with Some g merged_group [OF d b, of "lit ''display''"] look that [of "JObj u"]
    show thesis by (simp add: s get_display_group_def json_get_def unwrap_null_def)
  qed
  have "\<forall>v. map_of m (lit ''ticket'') = Some v \<longrightarrow> v \<noteq> JNull"
    using root by (fastforce simp: root_field_ok_def)
  then obtain k where "map_of ?M (lit ''ticket'') = Some k"
    using merged_group [OF d b, of "lit ''ticket''"] by simp
  with t dt u du obtain x where "decode_settings (JObj ?M)
      = Some \<lparr>gs_team = get_team_group s, gs_display = x, gs_ticket = k\<rparr>"
    and "display_sanitize x = get_display_group s"
    by (auto simp: make_settings_def required_def)
  then show "gs_team (settings_sanitize (Some s)) = get_team_group s"
    and "gs_display (settings_sanitize (Some s)) = get_display_group s"
    by (simp_all add: settings_sanitize_def unwrap_null_def merge_settings_patch_def s b Let_def
        del: decode_settings.simps)
qed

lemma make_team_max: "make_team mm d = Some t \<Longrightarrow> mm = Some (max_members t)"
  by (auto simp: make_team_def split: option.splits)

lemma team_group_bounds:
  assumes "stored_ok s" and "max_members (get_team_group s) = Some n"
  shows "0 < n \<and> n \<le> i32_max"
proof -
  obtain m where s: "s = JObj m" and f: "fields_ok root_field_ok m"
    using assms by (auto simp: stored_ok_def)
  show ?thesis
  proof (cases "map_of m (lit ''team'')")
    case None
    with assms(2) s show ?thesis
      by (simp add: get_team_group_def json_get_def unwrap_null_def decode_team_group_def
          team_default_value_def make_team_def required_def team_default_def)
  next
    case (Some v)
    from fields_okD [OF f Some] obtain g where g: "v = JObj g" "fields_ok team_field_ok g"
      by (auto simp: root_field_ok_def)
    from g(2) obtain u where u: "fields_ok team_field_ok u"
      and du: "decode_team (JObj u) = Some (decode_team_group (JObj g))" by (rule merged_team)
    have "max_members (decode_team_group (JObj g)) = Some n"
      using assms(2) s Some g by (simp add: get_team_group_def json_get_def unwrap_null_def)
    with make_team_max du have "decode_opt_i32 (unwrap_null (map_of u (lit ''max_members''))) = Some (Some n)"
      by fastforce
    moreover from this obtain w where "map_of u (lit ''max_members'') = Some w"
      by (auto simp: unwrap_null_def split: option.splits)
    moreover from this fields_okD [OF u] have "valid_max_members w"
      by (auto simp: team_field_ok_def valid_team_field_def)
    ultimately show ?thesis
      by (cases w) (auto simp: unwrap_null_def valid_max_members_def split: if_splits)
  qed
qed

text \<open>Settings a game can hold: those of its creation, changed by accepted patches.\<close>

inductive settings_history :: "json \<Rightarrow> bool" where
  created: "case p of None \<Rightarrow> True | Some patch \<Rightarrow> settings_validate_patch patch \<and> provider_by_name patch \<Longrightarrow>
    settings_history (create_settings p)"
| updated: "settings_history s \<Longrightarrow> settings_validate_patch patch \<Longrightarrow> provider_by_name patch \<Longrightarrow>
    settings_history (update_settings s patch)"

lemma settings_history_ok: "settings_history s \<Longrightarrow> stored_ok s"
  by (induction rule: settings_history.induct) (auto intro: create_settings_ok update_settings_ok)

section \<open>Properties\<close>

text \<open>
  Whatever accepted patches a game goes through, its settings decode, the two readers (the whole
  settings and a single group of them) agree on the team and display groups, and a member limit,
  when there is one, is a positive 32-bit number.
\<close>

theorem settings_readers_agree:
  assumes "settings_history s"
  shows "gs_team (settings_sanitize (Some s)) = get_team_group s
    \<and> gs_display (settings_sanitize (Some s)) = get_display_group s
    \<and> (\<forall>n. max_members (get_team_group s) = Some n \<longrightarrow> 0 < n \<and> n \<le> 2147483647)"
  using readers_agree [OF settings_history_ok [OF assms]] team_group_bounds [OF settings_history_ok [OF assms]]
  by (auto simp: i32_max_def)

definition limit_patch :: "int \<Rightarrow> json" where
  "limit_patch n = JObj [(lit ''team'', JObj [(lit ''max_members'', JInt n)])]"

lemma settings_readers_agree_witness:
  "gs_team (settings_sanitize (Some (update_settings (create_settings None) (limit_patch 4))))
     = get_team_group (update_settings (create_settings None) (limit_patch 4))
   \<and> max_members (get_team_group (update_settings (create_settings None) (limit_patch 4))) = Some 4"
proof -
  have "settings_history (update_settings (create_settings None) (limit_patch 4))"
    by (rule settings_history.updated [OF settings_history.created])
      (simp_all add: limit_patch_def valid_root_field_def valid_team_field_def valid_max_members_def
        provider_by_name_def i64_defs i32_max_def)
  from settings_readers_agree [OF this] show ?thesis
    by (simp add: create_settings_def update_settings_def limit_patch_def merge_settings_patch_def
        sanitize_storage_def unwrap_null_def nullable_setting_def get_team_group_def json_get_def
        decode_team_group_def team_default_value_def make_team_def required_def i32_defs)
qed

definition provider_patch :: json where
  "provider_patch = JObj [(lit ''display'', JObj [(lit ''staff_avatar_provider'',
     JObj [(lit ''catavatar'', JNull)])])]"

text \<open>
  An accepted patch can lose all settings. The avatar provider may also be written as an object
  with one key, which validation accepts; two such patches in a row merge into an empty object that
  no longer decodes, and reading the settings as a whole then falls back to the defaults, so the
  member limit set before is gone, while reading the team group alone still shows it.
\<close>

theorem accepted_patches_lose_settings:
  "settings_validate_patch (limit_patch 4) \<and> settings_validate_patch provider_patch
   \<and> (let s = update_settings (update_settings (create_settings (Some (limit_patch 4))) provider_patch)
             provider_patch
      in max_members (gs_team (settings_sanitize (Some s))) = None
         \<and> max_members (get_team_group s) = Some 4)"
  by (simp add: limit_patch_def provider_patch_def valid_root_field_def valid_team_field_def
      valid_max_members_def valid_display_field_def provider_of_name_def i64_defs i32_defs
      create_settings_def update_settings_def merge_settings_patch_def sanitize_storage_def unwrap_null_def
      nullable_setting_def get_team_group_def json_get_def decode_team_group_def team_default_value_def
      display_default_value_def default_value_def make_team_def make_display_def make_settings_def
      required_def settings_sanitize_def settings_default_def team_default_def Let_def)

end
