(* ===== verification/Database.thy ===== *)
theory Database
  imports Judge
begin

text \<open>
  The PostgreSQL tables the modelled components read and write (\<^verbatim>\<open>migrations/*.sql\<close>), restricted to
  the columns the code uses. A table is the list of its rows in insertion order; \<open>INSERT\<close> appends,
  \<open>UPDATE\<close> maps over the rows a predicate selects, \<open>DELETE\<close> filters. Time is in microseconds since
  the epoch and \<open>NOW()\<close>, the start of the transaction, is an argument. A transaction that ends
  without \<open>commit\<close> gives back the database it started from.
\<close>

type_synonym time = int

section \<open>Rows\<close>

record game_row =
  g_id :: nat
  g_active :: bool
  g_max_members :: "int option"
  g_allow_duplicate_names :: bool

record feature_row =
  f_game :: nat
  f_type :: int
  f_state :: int
  f_phase :: "nat option"
  f_utime :: time

record feature_history_row =
  fh_game :: nat
  fh_type :: int
  fh_old :: int
  fh_new :: int
  fh_phase :: "nat option"
  fh_actor :: "nat option"
  fh_effective :: time

record phase_row =
  ph_id :: nat
  ph_game :: nat
  ph_release_at :: time

record phase_change_row =
  pc_phase :: nat
  pc_game :: nat
  pc_type :: int
  pc_target :: int

record lock_row =
  ll_game :: nat
  ll_phase :: "nat option"
  ll_at :: time

record lock_team_row =
  lt_game :: nat
  lt_team :: nat
  lt_rank :: nat
  lt_solves :: nat
  lt_finish :: "time option"
  lt_last :: "time option"

record team_row =
  t_id :: nat
  t_name :: ustr
  t_pass :: ustr
  t_bio :: ustr
  t_game :: nat
  t_banned :: bool
  t_locked :: bool
  t_beta :: bool
  t_dirty :: bool
  t_start :: "time option"
  t_finish :: "time option"

record team_feature_row =
  tf_team :: nat
  tf_type :: int
  tf_enabled :: bool

record member_row =
  m_team :: nat
  m_user :: nat
  m_game :: nat
  m_captain :: bool
  m_ctime :: time

record currency_row =
  c_id :: nat
  c_game :: nat
  c_slug :: ustr
  c_growth :: int
  c_init_amount :: int
  c_init_hidden :: bool
  c_max :: int

record team_currency_row =
  tc_team :: nat
  tc_currency :: nat
  tc_amount :: int
  tc_growth :: int
  tc_hidden :: bool
  tc_utime :: time

record round_row =
  r_id :: nat
  r_game :: nat
  r_slug :: "ustr option"
  r_sort :: int
  r_puzzle :: "nat option"

text \<open>The penalty and requirement columns of a puzzle as decoded from JSON, \<open>None\<close> when malformed.\<close>

datatype penalty_type = PenaltyNo | FixedTime | LinearTime | CurrencyPenalty

record penalty_rule =
  pn_type :: penalty_type
  pn_args :: "int list"

datatype requirement = CurrencyMinimum int int

record puzzle_row =
  p_id :: nat
  p_game :: nat
  p_round :: nat
  p_slug :: "ustr option"
  p_sort :: int
  p_unlock_cond :: "ustr option"
  p_release_phase :: "nat option"
  p_immediate_release :: "time option"
  p_max_submit :: "int option"
  p_judge :: "judge_rule list option"
  p_penalty :: "penalty_rule list option"
  p_requirements :: "requirement list option"
  p_title :: ustr
  p_ptype :: int
  p_ticket_enabled :: bool
  p_ticket_cooldown :: int

record team_puzzle_row =
  tp_team :: nat
  tp_puzzle :: nat
  tp_state :: int
  tp_max_submit :: int
  tp_ctime :: time
  tp_solve_at :: "time option"
  tp_cooldown_till :: "time option"

record submission_row =
  s_id :: nat
  s_team :: nat
  s_user :: nat
  s_puzzle :: nat
  s_answer :: ustr
  s_norm :: ustr
  s_action :: int
  s_result :: "ustr option"
  s_real :: "ustr option"
  s_ignored :: bool
  s_ctime :: time

record trigger_row =
  tg_team :: nat
  tg_puzzle :: nat
  tg_key :: ustr
  tg_submission :: "nat option"
  tg_hint :: "nat option"

record hint_row =
  h_id :: nat
  h_puzzle :: nat
  h_sort :: int
  h_title :: ustr
  h_hidden_title :: "ustr option"
  h_enable_cond :: "ustr option"
  h_title_display :: "ustr option"
  h_display :: "ustr option"
  h_cooldown :: int
  h_cooldown_origin :: int
  h_cost_id :: "nat option"
  h_cost_amount :: int
  h_backend_function :: "ustr option"
  h_triggers :: "ustr list"

record team_hint_row =
  th_team :: nat
  th_hint :: nat
  th_unlocked :: bool
  th_utime :: time

record hint_enable_row =
  he_team :: nat
  he_hint :: nat
  he_at :: time

record hint_visibility_row =
  hv_team :: nat
  hv_hint :: nat
  hv_displayed :: "time option"
  hv_title_displayed :: "time option"

record ticket_row =
  tk_id :: nat
  tk_team :: nat
  tk_puzzle :: "nat option"
  tk_state :: int
  tk_assignee :: "nat option"

datatype ticket_action = OpOpen | OpClose | OpAutoCloseSolved

text \<open>Senders are teams (0) or hosts (1).\<close>

record ticket_operation_row =
  to_id :: nat
  to_ticket :: nat
  to_action :: ticket_action
  to_actor :: nat
  to_actor_type :: int
  to_message :: "nat option"
  to_ctime :: time

record message_row =
  ms_id :: nat
  ms_ticket :: nat
  ms_content :: ustr
  ms_content_type :: int
  ms_sender :: nat
  ms_sender_type :: int
  ms_cost_id :: "nat option"
  ms_cost_amount :: int
  ms_unlocked :: bool
  ms_unlock_at :: "time option"
  ms_unlock_after :: int
  ms_ctime :: time
  ms_utime :: "time option"

record notification_row =
  nt_id :: nat
  nt_team :: nat
  nt_kind :: int
  nt_source :: nat
  nt_actor :: "nat option"
  nt_puzzle :: "nat option"
  nt_read :: "time option"
  nt_ctime :: time

text \<open>A file in a public object store: backend, key of the object, path below it, hash and size.\<close>

record artifact =
  ar_backend :: ustr
  ar_key :: ustr
  ar_path :: ustr
  ar_sha256 :: ustr
  ar_size :: int

record content_block_row =
  cb_id :: nat
  cb_puzzle :: "nat option"
  cb_round :: "nat option"
  cb_sort :: int
  cb_name :: ustr
  cb_content :: ustr
  cb_content_type :: int
  cb_artifact :: "artifact option"
  cb_visibility :: "ustr option"
  cb_utime :: time

record content_unlock_row =
  cu_team :: nat
  cu_block :: nat

text \<open>An entry of the event log: its type and the references and amounts the code records.\<close>

record event_row =
  ev_type :: string
  ev_game :: "nat option"
  ev_team :: "nat option"
  ev_user :: "nat option"
  ev_target :: "nat option"
  ev_puzzle :: "nat option"
  ev_submission :: "nat option"
  ev_currency :: "nat option"
  ev_delta :: "int option"
  ev_before :: "int option"
  ev_after :: "int option"

definition blank_event :: "string \<Rightarrow> event_row" where
  "blank_event ty = \<lparr>ev_type = ty, ev_game = None, ev_team = None, ev_user = None, ev_target = None,
     ev_puzzle = None, ev_submission = None, ev_currency = None, ev_delta = None, ev_before = None,
     ev_after = None\<rparr>"

section \<open>The database\<close>

record db =
  games :: "game_row list"
  features :: "feature_row list"
  feature_history :: "feature_history_row list"
  phases :: "phase_row list"
  phase_changes :: "phase_change_row list"
  locks :: "lock_row list"
  lock_teams :: "lock_team_row list"
  teams :: "team_row list"
  team_features :: "team_feature_row list"
  members :: "member_row list"
  currencies :: "currency_row list"
  team_currencies :: "team_currency_row list"
  rounds :: "round_row list"
  puzzles :: "puzzle_row list"
  team_puzzles :: "team_puzzle_row list"
  submissions :: "submission_row list"
  triggers :: "trigger_row list"
  hints :: "hint_row list"
  team_hints :: "team_hint_row list"
  hint_enables :: "hint_enable_row list"
  hint_visibility :: "hint_visibility_row list"
  tickets :: "ticket_row list"
  ticket_operations :: "ticket_operation_row list"
  messages :: "message_row list"
  notifications :: "notification_row list"
  content_blocks :: "content_block_row list"
  content_unlocks :: "content_unlock_row list"
  events :: "event_row list"

definition empty_db :: db where
  "empty_db = \<lparr>games = [], features = [], feature_history = [], phases = [], phase_changes = [],
     locks = [], lock_teams = [], teams = [], team_features = [], members = [], currencies = [],
     team_currencies = [], rounds = [], puzzles = [], team_puzzles = [], submissions = [],
     triggers = [], hints = [], team_hints = [], hint_enables = [], hint_visibility = [],
     tickets = [], ticket_operations = [], messages = [], notifications = [], content_blocks = [],
     content_unlocks = [], events = []\<rparr>"

datatype db_error = RowNotFound | UniqueViolation | OutOfRange | OtherError string

definition insert_event :: "event_row \<Rightarrow> db \<Rightarrow> db" where
  "insert_event e d = d\<lparr>events := events d @ [e]\<rparr>"

text \<open>\<open>begin\<close> \<dots> \<open>commit\<close>: an error on the way rolls everything back.\<close>

definition in_tx :: "(db \<Rightarrow> db_error + 'a \<times> db) \<Rightarrow> db \<Rightarrow> db \<times> (db_error + 'a)" where
  "in_tx f d = (case f d of Inl e \<Rightarrow> (d, Inl e) | Inr (x, d') \<Rightarrow> (d', Inr x))"

text \<open>The next value of a sequence: larger than every identifier in use.\<close>

definition next_id :: "('r \<Rightarrow> nat) \<Rightarrow> 'r list \<Rightarrow> nat" where
  "next_id key rs = Suc (fold max (map key rs) 0)"

lemma fold_max_ge: "n \<in> set ns \<or> n \<le> a \<Longrightarrow> n \<le> fold max ns a" for n :: nat
proof (induction ns arbitrary: a)
  case (Cons x ns)
  have "n \<in> set ns \<or> n \<le> max x a" using Cons.prems by (simp add: le_max_iff_disj) blast
  with Cons.IH [of "max x a"] show ?case by simp
qed simp

lemma next_id_gt: "r \<in> set rs \<Longrightarrow> key r < next_id key rs"
  using fold_max_ge [of "key r" "map key rs" 0] by (simp add: next_id_def less_Suc_eq_le)

lemma next_id_fresh: "next_id key rs \<notin> key ` set rs"
proof
  assume "next_id key rs \<in> key ` set rs"
  then obtain r where "r \<in> set rs" "key r = next_id key rs" by force
  with next_id_gt [of r rs key] show False by simp
qed

section \<open>Statements\<close>

definition update_rows :: "('r \<Rightarrow> bool) \<Rightarrow> ('r \<Rightarrow> 'r) \<Rightarrow> 'r list \<Rightarrow> 'r list" where
  "update_rows p f rs = map (\<lambda>r. if p r then f r else r) rs"

definition affected :: "('r \<Rightarrow> bool) \<Rightarrow> 'r list \<Rightarrow> nat" where
  "affected p rs = length (filter p rs)"

definition delete_rows :: "('r \<Rightarrow> bool) \<Rightarrow> 'r list \<Rightarrow> 'r list" where
  "delete_rows p rs = filter (\<lambda>r. \<not> p r) rs"

definition exists_row :: "('r \<Rightarrow> bool) \<Rightarrow> 'r list \<Rightarrow> bool" where
  "exists_row p rs = list_ex p rs"

text \<open>\<open>ON CONFLICT DO NOTHING\<close>: the rows are inserted one by one, those whose key is taken are skipped.\<close>

fun insert_new :: "('r \<Rightarrow> 'k) \<Rightarrow> 'r list \<Rightarrow> 'r list \<Rightarrow> 'r list" where
  "insert_new key rs [] = rs"
| "insert_new key rs (x # xs) =
     (if list_ex (\<lambda>r. key r = key x) rs then insert_new key rs xs
      else insert_new key (rs @ [x]) xs)"

lemma update_rows_nil [tbl_simps]: "update_rows p f [] = []"
  by (simp add: update_rows_def)

lemma update_rows_cons [tbl_simps]:
  "update_rows p f (r # rs) = (if p r then f r else r) # update_rows p f rs"
  by (simp add: update_rows_def)

lemma length_update_rows [simp]: "length (update_rows p f rs) = length rs"
  by (simp add: update_rows_def)

lemma map_update_rows [simp]:
  "(\<And>r. key (f r) = key r) \<Longrightarrow> map key (update_rows p f rs) = map key rs"
  by (simp add: update_rows_def)

lemma set_update_rows: "set (update_rows p f rs) = {if p r then f r else r | r. r \<in> set rs}"
  by (auto simp: update_rows_def)

lemma update_rows_ident: "(\<And>r. r \<in> set rs \<Longrightarrow> \<not> p r) \<Longrightarrow> update_rows p f rs = rs"
  by (simp add: update_rows_def map_idI)

lemma filter_update_rows_other:
  "(\<And>r. p r \<Longrightarrow> \<not> q r \<and> \<not> q (f r)) \<Longrightarrow> filter q (update_rows p f rs) = filter q rs"
  by (induction rs) (auto simp: tbl_simps)

lemma find_update_rows:
  assumes "\<And>r. q (f r) = q r" and "\<And>r. q r \<Longrightarrow> p r"
  shows "find q (update_rows p f rs) = map_option f (find q rs)"
  using assms by (induction rs) (auto simp: tbl_simps)

lemma find_update_rows_other:
  assumes "\<And>r. p r \<Longrightarrow> q (f r) = q r" and "\<And>r. p r \<Longrightarrow> \<not> q r"
  shows "find q (update_rows p f rs) = find q rs"
  using assms by (induction rs) (auto simp: tbl_simps)

lemma find_append: "find q (xs @ ys) = (case find q xs of None \<Rightarrow> find q ys | Some x \<Rightarrow> Some x)"
  by (induction xs) auto

lemma set_delete_rows [simp]: "set (delete_rows p rs) = {r \<in> set rs. \<not> p r}"
  by (auto simp: delete_rows_def)

lemma distinct_map_filter: "distinct (map f xs) \<Longrightarrow> distinct (map f (filter p xs))"
  by (induction xs) auto

lemma distinct_delete_rows: "distinct (map key rs) \<Longrightarrow> distinct (map key (delete_rows p rs))"
  unfolding delete_rows_def by (rule distinct_map_filter)

lemma exists_row_iff: "exists_row p rs \<longleftrightarrow> (\<exists>r \<in> set rs. p r)"
  by (simp add: exists_row_def list_ex_iff)

lemma affected_pos: "0 < affected p rs \<longleftrightarrow> exists_row p rs"
  by (auto simp: affected_def exists_row_def list_ex_iff filter_empty_conv)

lemma find_exists: "find p rs \<noteq> None \<longleftrightarrow> exists_row p rs"
  by (auto simp: exists_row_iff find_None_iff)

lemma insert_new_prefix: "\<exists>ys. insert_new key rs xs = rs @ ys \<and> set ys \<subseteq> set xs"
proof (induction xs arbitrary: rs)
  case (Cons x xs)
  show ?case
  proof (cases "list_ex (\<lambda>r. key r = key x) rs")
    case True
    with Cons [of rs] show ?thesis by auto
  next
    case False
    obtain ys where "insert_new key (rs @ [x]) xs = (rs @ [x]) @ ys" "set ys \<subseteq> set xs"
      using Cons by blast
    with False show ?thesis by (intro exI [of _ "x # ys"]) auto
  qed
qed simp

lemma insert_new_distinct:
  "distinct (map key rs) \<Longrightarrow> distinct (map key (insert_new key rs xs))"
proof (induction xs arbitrary: rs)
  case (Cons x xs)
  have "distinct (map key (rs @ [x]))" if "\<not> list_ex (\<lambda>r. key r = key x) rs"
    using Cons.prems that by (auto simp: list_ex_iff)
  with Cons show ?case by simp
qed simp

lemma insert_new_keys: "key ` set (insert_new key rs xs) = key ` set rs \<union> key ` set xs"
  by (induction xs arbitrary: rs) (force simp: list_ex_iff image_iff)+

lemma insert_new_all_present:
  "key ` set xs \<subseteq> key ` set rs \<Longrightarrow> insert_new key rs xs = rs"
  by (induction xs) (auto simp: list_ex_iff)

end
