(* ===== verification/Feature.thy ===== *)
theory Feature
  imports Database "HOL-Library.Product_Lexorder"
begin

text \<open>
  \<^verbatim>\<open>src/db/feature.rs\<close>: the features of a game, their states and codes, changing a state by hand or
  by a release phase, freezing the leaderboard, and settling currency growth when the currency is
  closed or opened.
\<close>

section \<open>Features and states\<close>

datatype game_feature = TeamFormation | DirectMessage | PuzzleTicket | Leaderboard | Currency

datatype feature_state = Closed | ExistingOnly | Opened | Live | Locked

definition all_features :: "game_feature list" where
  "all_features = [TeamFormation, DirectMessage, PuzzleTicket, Leaderboard, Currency]"

fun feature_value :: "game_feature \<Rightarrow> int" where
  "feature_value TeamFormation = 0"
| "feature_value DirectMessage = 1"
| "feature_value PuzzleTicket = 2"
| "feature_value Leaderboard = 3"
| "feature_value Currency = 4"

fun default_state :: "game_feature \<Rightarrow> feature_state" where
  "default_state Leaderboard = Live"
| "default_state _ = Opened"

fun feature_states :: "game_feature \<Rightarrow> feature_state list" where
  "feature_states TeamFormation = [Closed, Opened]"
| "feature_states DirectMessage = [Closed, ExistingOnly, Opened]"
| "feature_states PuzzleTicket = [Closed, ExistingOnly, Opened]"
| "feature_states Leaderboard = [Live, Locked]"
| "feature_states Currency = [Closed, Opened]"

fun encode_state :: "game_feature \<Rightarrow> feature_state \<Rightarrow> int option" where
  "encode_state TeamFormation Closed = Some 0"
| "encode_state TeamFormation Opened = Some 1"
| "encode_state DirectMessage Closed = Some 0"
| "encode_state PuzzleTicket Closed = Some 0"
| "encode_state DirectMessage ExistingOnly = Some 1"
| "encode_state PuzzleTicket ExistingOnly = Some 1"
| "encode_state DirectMessage Opened = Some 2"
| "encode_state PuzzleTicket Opened = Some 2"
| "encode_state Leaderboard Live = Some 0"
| "encode_state Leaderboard Locked = Some 1"
| "encode_state Currency Closed = Some 0"
| "encode_state Currency Opened = Some 1"
| "encode_state _ _ = None"

definition decode_state :: "game_feature \<Rightarrow> int \<Rightarrow> feature_state option" where
  "decode_state f v =
     (case f of
        TeamFormation \<Rightarrow> if v = 0 then Some Closed else if v = 1 then Some Opened else None
      | DirectMessage \<Rightarrow>
          if v = 0 then Some Closed else if v = 1 then Some ExistingOnly
          else if v = 2 then Some Opened else None
      | PuzzleTicket \<Rightarrow>
          if v = 0 then Some Closed else if v = 1 then Some ExistingOnly
          else if v = 2 then Some Opened else None
      | Leaderboard \<Rightarrow> if v = 0 then Some Live else if v = 1 then Some Locked else None
      | Currency \<Rightarrow> if v = 0 then Some Closed else if v = 1 then Some Opened else None)"

definition feature_from_value :: "int \<Rightarrow> game_feature option" where
  "feature_from_value v = find (\<lambda>f. feature_value f = v) all_features"

record feature_change =
  fc_feature :: game_feature
  fc_state :: feature_state

fun valid_changes_from :: "feature_change list \<Rightarrow> feature_change list \<Rightarrow> bool" where
  "valid_changes_from previous [] = True"
| "valid_changes_from previous (c # cs) =
     (\<not> list_ex (\<lambda>p. fc_feature p = fc_feature c) previous \<and> valid_changes_from (previous @ [c]) cs)"

definition valid_changes :: "feature_change list \<Rightarrow> bool" where
  "valid_changes changes \<longleftrightarrow>
     list_all (\<lambda>c. encode_state (fc_feature c) (fc_state c) \<noteq> None) changes
     \<and> valid_changes_from [] changes"

section \<open>Reading and initialising\<close>

definition find_feature :: "db \<Rightarrow> nat \<Rightarrow> game_feature \<Rightarrow> feature_row option" where
  "find_feature d game_id f = find (\<lambda>r. f_game r = game_id \<and> f_type r = feature_value f) (features d)"

definition feature_is :: "db \<Rightarrow> nat \<Rightarrow> game_feature \<Rightarrow> int \<Rightarrow> bool" where
  "feature_is d game_id f code =
     (case find_feature d game_id f of Some r \<Rightarrow> f_state r = code | None \<Rightarrow> False)"

fun initialize_features :: "time \<Rightarrow> nat \<Rightarrow> game_feature list \<Rightarrow> db \<Rightarrow> db_error + db" where
  "initialize_features now game_id [] d = Inr d"
| "initialize_features now game_id (f # fs) d =
     (case encode_state f (default_state f) of
        None \<Rightarrow> Inl (OtherError ''Invalid default feature state'')
      | Some st \<Rightarrow>
          if exists_row (\<lambda>r. f_game r = game_id \<and> f_type r = feature_value f) (features d)
          then Inl UniqueViolation
          else initialize_features now game_id fs
            (d\<lparr>features := features d @ [\<lparr>f_game = game_id, f_type = feature_value f, f_state = st,
               f_phase = None, f_utime = now\<rparr>]\<rparr>))"

definition initialize_game_conn :: "time \<Rightarrow> nat \<Rightarrow> db \<Rightarrow> db_error + db" where
  "initialize_game_conn now game_id d = initialize_features now game_id all_features d"

definition player_states :: "db \<Rightarrow> nat \<Rightarrow> db_error + (game_feature \<times> feature_state) list" where
  "player_states d game_id =
     collect_res (\<lambda>r.
       res_bind (ok_or (OtherError ''Invalid game feature'') (feature_from_value (f_type r)))
         (\<lambda>f. res_bind (ok_or (OtherError ''Invalid game feature state'') (decode_state f (f_state r)))
           (\<lambda>s. Inr (f, s))))
       (sort_key f_type (filter (\<lambda>r. f_game r = game_id) (features d)))"

section \<open>The ranking of teams\<close>

definition solved_rows :: "db \<Rightarrow> nat \<Rightarrow> team_puzzle_row list" where
  "solved_rows d team_id = filter (\<lambda>r. tp_team r = team_id \<and> tp_state r = 1) (team_puzzles d)"

definition solve_count :: "db \<Rightarrow> nat \<Rightarrow> nat" where
  "solve_count d team_id = length (solved_rows d team_id)"

text \<open>\<open>MAX\<close> ignores nulls and is null when no value is left.\<close>

definition max_time :: "time option list \<Rightarrow> time option" where
  "max_time ts = foldr (\<lambda>t acc. case (t, acc) of
     (Some a, Some b) \<Rightarrow> Some (max a b) | (Some a, None) \<Rightarrow> Some a | (None, _) \<Rightarrow> acc) ts None"

definition last_solved :: "db \<Rightarrow> nat \<Rightarrow> time option" where
  "last_solved d team_id = max_time (map tp_solve_at (solved_rows d team_id))"

text \<open>\<open>ASC NULLS LAST\<close> as a key: nulls compare greater than every time.\<close>

definition nulls_last :: "time option \<Rightarrow> bool \<times> int" where
  "nulls_last t = (case t of Some x \<Rightarrow> (False, x) | None \<Rightarrow> (True, 0))"

type_synonym rank_key = "bool \<times> (bool \<times> int) \<times> int \<times> (bool \<times> int) \<times> nat"

definition rank_key :: "db \<Rightarrow> team_row \<Rightarrow> rank_key" where
  "rank_key d t = (t_finish t = None, nulls_last (t_finish t), - int (solve_count d (t_id t)),
     nulls_last (last_solved d (t_id t)), t_id t)"

definition ranked_teams :: "db \<Rightarrow> nat \<Rightarrow> team_row list" where
  "ranked_teams d game_id =
     sort_key (rank_key d)
       (filter (\<lambda>t. t_game t = game_id \<and> t_start t \<noteq> None \<and> \<not> t_banned t) (teams d))"

fun number_rows :: "db \<Rightarrow> nat \<Rightarrow> nat \<Rightarrow> team_row list \<Rightarrow> lock_team_row list" where
  "number_rows d game_id n [] = []"
| "number_rows d game_id n (t # ts) =
     \<lparr>lt_game = game_id, lt_team = t_id t, lt_rank = n, lt_solves = solve_count d (t_id t),
      lt_finish = t_finish t, lt_last = last_solved d (t_id t)\<rparr> # number_rows d game_id (n + 1) ts"

definition lock_leaderboard_conn :: "nat \<Rightarrow> nat option \<Rightarrow> time \<Rightarrow> db \<Rightarrow> db" where
  "lock_leaderboard_conn game_id phase_id locked_at d =
     (if exists_row (\<lambda>l. ll_game l = game_id) (locks d) then d
      else d\<lparr>locks := locks d @ [\<lparr>ll_game = game_id, ll_phase = phase_id, ll_at = locked_at\<rparr>],
             lock_teams := lock_teams d @ number_rows d game_id 1 (ranked_teams d game_id)\<rparr>)"

text \<open>Deleting the lock takes its team rows with it (\<open>ON DELETE CASCADE\<close>).\<close>

definition unlock_leaderboard :: "nat \<Rightarrow> db \<Rightarrow> db" where
  "unlock_leaderboard game_id d =
     d\<lparr>locks := delete_rows (\<lambda>l. ll_game l = game_id) (locks d),
       lock_teams := delete_rows (\<lambda>l. lt_game l = game_id) (lock_teams d)\<rparr>"

section \<open>Currency growth\<close>

definition find_currency :: "db \<Rightarrow> nat \<Rightarrow> currency_row option" where
  "find_currency d cid = find (\<lambda>c. c_id c = cid) (currencies d)"

text \<open>\<open>FLOOR(EXTRACT(EPOCH FROM interval) / 60)\<close>.\<close>

definition minutes_between :: "time \<Rightarrow> time \<Rightarrow> int" where
  "minutes_between now t = (now - t) div 60000000"

definition clamped_growth :: "int \<Rightarrow> int \<Rightarrow> int \<Rightarrow> int \<Rightarrow> int" where
  "clamped_growth amount minutes growth cmax =
     max (min amount 0) (min (amount + minutes * growth) cmax)"

definition settle_row :: "currency_row \<Rightarrow> time \<Rightarrow> team_currency_row \<Rightarrow> team_currency_row" where
  "settle_row c at tc =
     tc\<lparr>tc_amount := clamped_growth (tc_amount tc) (max (minutes_between at (tc_utime tc)) 0)
           (c_growth c + tc_growth tc) (c_max c),
        tc_utime := max (tc_utime tc) at\<rparr>"

text \<open>The row's currency, when it belongs to the game (and is the one asked for).\<close>

definition currency_in :: "db \<Rightarrow> nat \<Rightarrow> nat option \<Rightarrow> team_currency_row \<Rightarrow> currency_row option" where
  "currency_in d game_id only tc =
     (case find_currency d (tc_currency tc) of
        None \<Rightarrow> None
      | Some c \<Rightarrow> if c_game c = game_id \<and> (only = None \<or> only = Some (c_id c)) then Some c else None)"

text \<open>The sum of the two growths is a \<open>BIGINT\<close> addition, an error when it overflows.\<close>

definition settle_currency_growth_conn ::
  "nat \<Rightarrow> nat option \<Rightarrow> time \<Rightarrow> db \<Rightarrow> db_error + db" where
  "settle_currency_growth_conn game_id only at d =
     (if \<exists>tc \<in> set (team_currencies d). case currency_in d game_id only tc of
            None \<Rightarrow> False | Some c \<Rightarrow> \<not> in_i64 (c_growth c + tc_growth tc)
      then Inl OutOfRange
      else Inr (d\<lparr>team_currencies := map (\<lambda>tc. case currency_in d game_id only tc of
            None \<Rightarrow> tc | Some c \<Rightarrow> settle_row c at tc) (team_currencies d)\<rparr>))"

definition enable_currency_growth_conn :: "nat \<Rightarrow> time \<Rightarrow> db \<Rightarrow> db" where
  "enable_currency_growth_conn game_id at d =
     d\<lparr>team_currencies := map (\<lambda>tc. case currency_in d game_id None tc of
            None \<Rightarrow> tc | Some c \<Rightarrow> tc\<lparr>tc_utime := max (tc_utime tc) at\<rparr>) (team_currencies d)\<rparr>"

section \<open>Changing a state\<close>

definition history_exists :: "db \<Rightarrow> nat \<Rightarrow> game_feature \<Rightarrow> bool" where
  "history_exists d phase_id f =
     exists_row (\<lambda>h. fh_phase h = Some phase_id \<and> fh_type h = feature_value f) (feature_history d)"

definition leaderboard_step :: "nat \<Rightarrow> feature_state \<Rightarrow> nat option \<Rightarrow> time \<Rightarrow> db \<Rightarrow> db_error + db" where
  "leaderboard_step game_id st phase_id at d =
     (case st of
        Locked \<Rightarrow> Inr (lock_leaderboard_conn game_id phase_id at d)
      | Live \<Rightarrow> Inr (unlock_leaderboard game_id d)
      | _ \<Rightarrow> Inl (OtherError ''Invalid leaderboard state''))"

definition currency_step :: "nat \<Rightarrow> feature_state \<Rightarrow> time \<Rightarrow> db \<Rightarrow> db_error + db" where
  "currency_step game_id st at d =
     (case st of
        Closed \<Rightarrow> settle_currency_growth_conn game_id None at d
      | Opened \<Rightarrow> Inr (enable_currency_growth_conn game_id at d)
      | _ \<Rightarrow> Inl (OtherError ''Invalid currency state''))"

definition record_state ::
  "nat \<Rightarrow> game_feature \<Rightarrow> int \<Rightarrow> int \<Rightarrow> nat option \<Rightarrow> nat option \<Rightarrow> time \<Rightarrow> db \<Rightarrow> db" where
  "record_state game_id f old target phase_id actor_id at d =
     d\<lparr>features := update_rows (\<lambda>r. f_game r = game_id \<and> f_type r = feature_value f)
          (\<lambda>r. r\<lparr>f_state := target, f_phase := phase_id, f_utime := at\<rparr>) (features d),
       feature_history := feature_history d @ [\<lparr>fh_game = game_id, fh_type = feature_value f,
          fh_old = old, fh_new = target, fh_phase = phase_id, fh_actor = actor_id,
          fh_effective = at\<rparr>]\<rparr>"

definition set_state_conn ::
  "nat \<Rightarrow> feature_change \<Rightarrow> nat option \<Rightarrow> nat option \<Rightarrow> time \<Rightarrow> db \<Rightarrow> db_error + bool \<times> db" where
  "set_state_conn game_id change phase_id actor_id at d =
     (let f = fc_feature change in
      case encode_state f (fc_state change) of
        None \<Rightarrow> Inl (OtherError ''Invalid game feature state'')
      | Some target \<Rightarrow>
          if (case phase_id of Some ph \<Rightarrow> history_exists d ph f | None \<Rightarrow> False) then Inr (False, d)
          else case find_feature d game_id f of
            None \<Rightarrow> Inl RowNotFound
          | Some row \<Rightarrow>
              res_bind (if f = Leaderboard then leaderboard_step game_id (fc_state change) phase_id at d
                        else Inr d)
               (\<lambda>d. res_bind (if f_state row \<noteq> target \<and> f = Currency
                              then currency_step game_id (fc_state change) at d else Inr d)
               (\<lambda>d. Inr (f_state row \<noteq> target \<or> f = Leaderboard,
                         record_state game_id f (f_state row) target phase_id actor_id at d))))"

fun apply_changes ::
  "nat \<Rightarrow> nat \<Rightarrow> time \<Rightarrow> phase_change_row list \<Rightarrow> bool \<Rightarrow> db \<Rightarrow> db_error + bool \<times> db" where
  "apply_changes game_id phase_id at [] leaderboard_changed d = Inr (leaderboard_changed, d)"
| "apply_changes game_id phase_id at (row # rows) leaderboard_changed d =
     res_bind (ok_or (OtherError ''Invalid game feature'') (feature_from_value (pc_type row)))
      (\<lambda>f. res_bind (ok_or (OtherError ''Invalid game feature state'') (decode_state f (pc_target row)))
      (\<lambda>s. res_bind (set_state_conn game_id \<lparr>fc_feature = f, fc_state = s\<rparr> (Some phase_id) None at d)
      (\<lambda>(changed, d). apply_changes game_id phase_id at rows
          (leaderboard_changed \<or> (changed \<and> f = Leaderboard)) d)))"

definition apply_phase_changes :: "nat \<Rightarrow> nat \<Rightarrow> time \<Rightarrow> db \<Rightarrow> db_error + bool \<times> db" where
  "apply_phase_changes game_id phase_id at d =
     apply_changes game_id phase_id at
       (sort_key pc_type (filter (\<lambda>c. pc_phase c = phase_id) (phase_changes d))) False d"

definition set_manual_state ::
  "nat \<Rightarrow> feature_change \<Rightarrow> nat \<Rightarrow> time \<Rightarrow> db \<Rightarrow> db_error + bool option \<times> db" where
  "set_manual_state game_id change actor_id now d =
     (if \<not> valid_changes [change] then Inr (None, d)
      else if \<not> exists_row (\<lambda>g. g_id g = game_id) (games d) then Inr (None, d)
      else res_bind (set_state_conn game_id change None (Some actor_id) now d)
        (\<lambda>(changed, d). Inr (Some changed, d)))"

section \<open>Lemmas\<close>

lemma decode_encode: "decode_state f v = Some s \<longleftrightarrow> encode_state f s = Some v"
  by (cases f; cases s) (auto simp: decode_state_def)

lemma from_value_value [simp]: "feature_from_value (feature_value f) = Some f"
  by (cases f) (simp_all add: feature_from_value_def all_features_def)

lemma from_value_Some: "feature_from_value v = Some f \<longleftrightarrow> v = feature_value f"
proof
  show "feature_from_value v = Some f \<Longrightarrow> v = feature_value f"
    by (auto simp: feature_from_value_def find_Some_iff)
qed simp

lemma feature_value_inj [simp]: "feature_value f = feature_value g \<longleftrightarrow> f = g"
  by (cases f; cases g) simp_all

lemma states_encodable: "s \<in> set (feature_states f) \<longleftrightarrow> encode_state f s \<noteq> None"
  by (cases f; cases s) simp_all

lemma valid_changes_from_iff:
  "valid_changes_from previous cs \<longleftrightarrow>
   distinct (map fc_feature cs) \<and> fc_feature ` set cs \<inter> fc_feature ` set previous = {}"
proof (induction cs arbitrary: previous)
  case (Cons c cs)
  have "list_ex (\<lambda>p. fc_feature p = fc_feature c) previous \<longleftrightarrow> fc_feature c \<in> fc_feature ` set previous"
    by (auto simp: list_ex_iff image_iff) metis
  with Cons [of "previous @ [c]"] show ?case by auto
qed simp

lemma leaderboard_step_frame:
  "leaderboard_step game_id st ph at d = Inr d' \<Longrightarrow>
   phase_changes d' = phase_changes d \<and> feature_history d' = feature_history d
   \<and> features d' = features d \<and> team_currencies d' = team_currencies d \<and> currencies d' = currencies d"
  by (auto simp: leaderboard_step_def lock_leaderboard_conn_def unlock_leaderboard_def
      split: feature_state.splits)

lemma settle_frame:
  "settle_currency_growth_conn game_id only at d = Inr d' \<Longrightarrow>
   phase_changes d' = phase_changes d \<and> feature_history d' = feature_history d
   \<and> features d' = features d \<and> currencies d' = currencies d \<and> locks d' = locks d
   \<and> lock_teams d' = lock_teams d \<and> events d' = events d"
  by (auto simp: settle_currency_growth_conn_def split: if_splits)

lemma currency_step_frame:
  "currency_step game_id st at d = Inr d' \<Longrightarrow>
   phase_changes d' = phase_changes d \<and> feature_history d' = feature_history d
   \<and> features d' = features d \<and> currencies d' = currencies d"
  by (auto simp: currency_step_def enable_currency_growth_conn_def
      split: feature_state.splits dest: settle_frame)

lemma set_state_history:
  assumes "set_state_conn game_id c ph actor at d = Inr (b, d')"
  shows "phase_changes d' = phase_changes d \<and> (\<exists>hs. feature_history d' = feature_history d @ hs)
    \<and> (\<forall>p. ph = Some p \<longrightarrow> history_exists d' p (fc_feature c))"
  using assms
  by (auto simp: set_state_conn_def Let_def res_bind_eq_Inr record_state_def history_exists_def
      exists_row_iff split: option.splits if_splits dest!: leaderboard_step_frame currency_step_frame)

lemma history_exists_mono:
  "feature_history d' = feature_history d @ hs \<Longrightarrow> history_exists d p f \<Longrightarrow> history_exists d' p f"
  by (auto simp: history_exists_def exists_row_iff)

lemma apply_changes_history:
  "apply_changes game_id p at rows acc d = Inr (b, d') \<Longrightarrow>
   phase_changes d' = phase_changes d \<and> (\<exists>hs. feature_history d' = feature_history d @ hs)
   \<and> (\<forall>row \<in> set rows. \<exists>f s. feature_from_value (pc_type row) = Some f
        \<and> decode_state f (pc_target row) = Some s \<and> history_exists d' p f)"
proof (induction rows arbitrary: acc d)
  case (Cons row rows)
  from Cons.prems obtain f s b1 d1 where
    f: "feature_from_value (pc_type row) = Some f" and s: "decode_state f (pc_target row) = Some s"
    and st: "set_state_conn game_id \<lparr>fc_feature = f, fc_state = s\<rparr> (Some p) None at d = Inr (b1, d1)"
    and rest: "apply_changes game_id p at rows (acc \<or> (b1 \<and> f = Leaderboard)) d1 = Inr (b, d')"
    by (auto simp: res_bind_eq_Inr ok_or_def split: option.splits)
  from set_state_history [OF st] Cons.IH [OF rest] show ?case
    using f s by (auto intro: history_exists_mono)
qed simp

lemma apply_changes_again:
  assumes "\<forall>row \<in> set rows. \<exists>f s. feature_from_value (pc_type row) = Some f
        \<and> decode_state f (pc_target row) = Some s \<and> history_exists d p f"
  shows "apply_changes game_id p at rows acc d = Inr (acc, d)"
  using assms
proof (induction rows)
  case (Cons row rows)
  then obtain f s where "feature_from_value (pc_type row) = Some f"
    "decode_state f (pc_target row) = Some s" "history_exists d p f" by auto
  moreover from this have "encode_state f s = Some (pc_target row)" by (simp add: decode_encode)
  ultimately show ?case using Cons by (simp add: set_state_conn_def)
qed simp

lemma apply_phase_again:
  assumes "apply_phase_changes game_id phase_id at d = Inr (b, d')"
  shows "apply_phase_changes game_id' phase_id at' d' = Inr (False, d')"
proof -
  have "phase_changes d' = phase_changes d"
    and "\<forall>row \<in> set (sort_key pc_type (filter (\<lambda>c. pc_phase c = phase_id) (phase_changes d))).
      \<exists>f s. feature_from_value (pc_type row) = Some f
        \<and> decode_state f (pc_target row) = Some s \<and> history_exists d' phase_id f"
    using apply_changes_history [OF assms [unfolded apply_phase_changes_def]] by auto
  then show ?thesis using apply_changes_again by (simp add: apply_phase_changes_def)
qed

lemma initialize_features_rows:
  assumes "\<forall>r \<in> set (features d). f_game r \<noteq> g \<or> (\<forall>f \<in> set fs. f_type r \<noteq> feature_value f)"
    and "distinct fs"
  shows "\<exists>d'. initialize_features now g fs d = Inr d' \<and> features d' = features d @
      map (\<lambda>f. \<lparr>f_game = g, f_type = feature_value f, f_state = the (encode_state f (default_state f)),
        f_phase = None, f_utime = now\<rparr>) fs"
  using assms
proof (induction fs arbitrary: d)
  case (Cons f fs)
  obtain st where st: "encode_state f (default_state f) = Some st" by (cases f) auto
  let ?r = "\<lparr>f_game = g, f_type = feature_value f, f_state = st, f_phase = None, f_utime = now\<rparr>"
  have "\<not> exists_row (\<lambda>r. f_game r = g \<and> f_type r = feature_value f) (features d)"
    using Cons.prems by (auto simp: exists_row_iff)
  moreover have "\<exists>d'. initialize_features now g fs (d\<lparr>features := features d @ [?r]\<rparr>) = Inr d' \<and>
      features d' = features (d\<lparr>features := features d @ [?r]\<rparr>) @
      map (\<lambda>f. \<lparr>f_game = g, f_type = feature_value f, f_state = the (encode_state f (default_state f)),
        f_phase = None, f_utime = now\<rparr>) fs"
    using Cons.prems by (intro Cons.IH) auto
  ultimately show ?case using st by auto
qed simp

section \<open>Properties\<close>

text \<open>
  Feature states and their stored codes correspond one to one: a code decodes to a state exactly
  when the state encodes to it, the states offered for a feature are those that encode, a feature is
  found again from its number, and a list of changes is valid when it names no feature twice and
  asks each for one of its states.
\<close>

theorem feature_codes_roundtrip:
  "(decode_state f v = Some s \<longleftrightarrow> encode_state f s = Some v)
   \<and> (s \<in> set (feature_states f) \<longleftrightarrow> encode_state f s \<noteq> None)
   \<and> (feature_from_value v = Some f \<longleftrightarrow> v = feature_value f)
   \<and> (valid_changes cs \<longleftrightarrow> distinct (map fc_feature cs)
        \<and> list_all (\<lambda>c. encode_state (fc_feature c) (fc_state c) \<noteq> None) cs)"
  by (auto simp: decode_encode states_encodable from_value_Some valid_changes_def valid_changes_from_iff)

text \<open>
  Applying a phase's feature changes is idempotent: once it has succeeded, applying the same
  phase again, for any game and at any later time, succeeds, reports no leaderboard change and leaves
  the database as it is, so a retried or repeated release does nothing.
\<close>

theorem phase_changes_idempotent:
  assumes "apply_phase_changes game_id phase_id at d = Inr (b, d')"
  shows "apply_phase_changes game_id' phase_id at' d' = Inr (False, d')"
  by (rule apply_phase_again [OF assms])

definition one_phase_db :: db where
  "one_phase_db = empty_db\<lparr>phase_changes := [\<lparr>pc_phase = 7, pc_game = 1, pc_type = 4, pc_target = 0\<rparr>],
     features := [\<lparr>f_game = 1, f_type = 4, f_state = 1, f_phase = None, f_utime = 0\<rparr>]\<rparr>"

lemma phase_changes_idempotent_witness:
  "\<exists>d'. apply_phase_changes 1 7 5 one_phase_db = Inr (False, d') \<and> d' \<noteq> one_phase_db
    \<and> apply_phase_changes 1 7 9 d' = Inr (False, d')"
proof -
  have "decode_state Currency 0 = Some Closed" "feature_from_value 4 = Some Currency"
    by (simp_all add: decode_state_def feature_from_value_def all_features_def)
  then have "\<exists>d'. apply_phase_changes 1 7 5 one_phase_db = Inr (False, d') \<and> d' \<noteq> one_phase_db"
    by (simp add: apply_phase_changes_def one_phase_db_def empty_db_def set_state_conn_def
        history_exists_def exists_row_def find_feature_def currency_step_def
        settle_currency_growth_conn_def record_state_def update_rows_def)
  then obtain d' where a: "apply_phase_changes 1 7 5 one_phase_db = Inr (False, d')"
    and "d' \<noteq> one_phase_db" by blast
  with phase_changes_idempotent [OF a, of 1 9] show ?thesis by blast
qed

end
