(* ===== verification/Currency.thy ===== *)
theory Currency
  imports Feature
begin

text \<open>
  Team currencies, the operations of \<^verbatim>\<open>src/db/team.rs\<close> on them and the ones of \<^verbatim>\<open>src/db/game.rs\<close> that
  create, change and delete a currency. An amount grows by the minute while the currency feature is
  open; reading it computes the growth since the last write, writing it starts a new period. Each
  operation takes \<open>now\<close>, the time of its transaction. The event context (a reason and a puzzle) only
  goes into the event's JSON text and is left out.
\<close>

section \<open>Reading amounts\<close>

definition is_tc :: "nat \<Rightarrow> nat \<Rightarrow> team_currency_row \<Rightarrow> bool" where
  "is_tc team_id cid tc \<longleftrightarrow> tc_team tc = team_id \<and> tc_currency tc = cid"

definition find_tc :: "db \<Rightarrow> nat \<Rightarrow> nat \<Rightarrow> team_currency_row option" where
  "find_tc d team_id cid = find (is_tc team_id cid) (team_currencies d)"

definition current_amount :: "int \<Rightarrow> time \<Rightarrow> currency_row \<Rightarrow> team_currency_row \<Rightarrow> int" where
  "current_amount state now c tc =
     (if state = 1 then
        clamped_growth (tc_amount tc) (minutes_between now (tc_utime tc))
          (c_growth c + tc_growth tc) (c_max c)
      else tc_amount tc)"

record runtime_row =
  cr_id :: nat
  cr_game :: nat
  cr_current :: int
  cr_max :: int

definition runtime_of ::
  "time \<Rightarrow> db \<Rightarrow> currency_row \<Rightarrow> team_currency_row \<Rightarrow> db_error + runtime_row option" where
  "runtime_of now d c tc =
     (case find_feature d (c_game c) Currency of
        None \<Rightarrow> Inr None
      | Some gf \<Rightarrow>
          if f_state gf = 1 \<and> \<not> in_i64 (c_growth c + tc_growth tc) then Inl OutOfRange
          else Inr (Some \<lparr>cr_id = c_id c, cr_game = c_game c,
                 cr_current = current_amount (f_state gf) now c tc, cr_max = c_max c\<rparr>))"

definition lock_currency_runtime_conn ::
  "time \<Rightarrow> nat \<Rightarrow> nat \<Rightarrow> db \<Rightarrow> db_error + runtime_row option" where
  "lock_currency_runtime_conn now team_id cid d =
     (case find_tc d team_id cid of
        None \<Rightarrow> Inr None
      | Some tc \<Rightarrow>
          (case find_currency d cid of None \<Rightarrow> Inr None | Some c \<Rightarrow> runtime_of now d c tc))"

definition tc_has_slug :: "db \<Rightarrow> nat \<Rightarrow> nat \<Rightarrow> ustr \<Rightarrow> team_currency_row \<Rightarrow> bool" where
  "tc_has_slug d team_id game_id slug tc \<longleftrightarrow> tc_team tc = team_id \<and>
     (case find_currency d (tc_currency tc) of
        None \<Rightarrow> False | Some c \<Rightarrow> c_game c = game_id \<and> c_slug c = slug)"

definition lock_currency_runtime_by_slug_conn ::
  "time \<Rightarrow> nat \<Rightarrow> nat \<Rightarrow> ustr \<Rightarrow> db \<Rightarrow> db_error + runtime_row option" where
  "lock_currency_runtime_by_slug_conn now team_id game_id slug d =
     (case find (tc_has_slug d team_id game_id slug) (team_currencies d) of
        None \<Rightarrow> Inr None
      | Some tc \<Rightarrow>
          (case find_currency d (tc_currency tc) of
             None \<Rightarrow> Inr None | Some c \<Rightarrow> runtime_of now d c tc))"

record currency_show =
  cs_id :: nat
  cs_growth :: int
  cs_game_growth :: int
  cs_team_growth :: int
  cs_amount :: int
  cs_current :: int
  cs_max :: int
  cs_hidden :: bool
  cs_utime :: time

text \<open>One row of the show queries; the sum of the growths is selected in every state.\<close>

definition show_row :: "time \<Rightarrow> int \<Rightarrow> currency_row \<Rightarrow> team_currency_row \<Rightarrow> db_error + currency_show" where
  "show_row now state c tc =
     (if \<not> in_i64 (c_growth c + tc_growth tc) then Inl OutOfRange
      else Inr \<lparr>cs_id = c_id c, cs_growth = c_growth c + tc_growth tc, cs_game_growth = c_growth c,
        cs_team_growth = tc_growth tc, cs_amount = tc_amount tc,
        cs_current = current_amount state now c tc, cs_max = c_max c, cs_hidden = tc_hidden tc,
        cs_utime = tc_utime tc\<rparr>)"

definition get_currency_info_conn ::
  "time \<Rightarrow> nat \<Rightarrow> bool \<Rightarrow> db \<Rightarrow> db_error + currency_show list" where
  "get_currency_info_conn now team_id include_hidden d =
     collect_res (\<lambda>(state, c, tc). show_row now state c tc)
       (concat (map (\<lambda>tc.
          if tc_team tc \<noteq> team_id then []
          else case find_currency d (tc_currency tc) of
              None \<Rightarrow> []
            | Some c \<Rightarrow>
                (case find_feature d (c_game c) Currency of
                   None \<Rightarrow> []
                 | Some gf \<Rightarrow>
                     if include_hidden \<or> (\<not> tc_hidden tc \<and> f_state gf = 1)
                     then [(f_state gf, c, tc)] else []))
          (team_currencies d)))"

definition get_currency_info_one_conn ::
  "time \<Rightarrow> nat \<Rightarrow> nat \<Rightarrow> bool \<Rightarrow> db \<Rightarrow> db_error + currency_show option" where
  "get_currency_info_one_conn now team_id cid include_hidden d =
     (case find_tc d team_id cid of
        None \<Rightarrow> Inr None
      | Some tc \<Rightarrow>
          if \<not> include_hidden \<and> tc_hidden tc then Inr None
          else case find_currency d cid of
              None \<Rightarrow> Inr None
            | Some c \<Rightarrow>
                (case find_feature d (c_game c) Currency of
                   None \<Rightarrow> Inr None
                 | Some gf \<Rightarrow> res_bind (show_row now (f_state gf) c tc) (\<lambda>s. Inr (Some s))))"

definition get_currency_info_one_by_slug_conn ::
  "time \<Rightarrow> nat \<Rightarrow> nat \<Rightarrow> ustr \<Rightarrow> bool \<Rightarrow> db \<Rightarrow> db_error + currency_show option" where
  "get_currency_info_one_by_slug_conn now team_id game_id slug include_hidden d =
     (case find (\<lambda>tc. tc_has_slug d team_id game_id slug tc \<and> (include_hidden \<or> \<not> tc_hidden tc))
            (team_currencies d) of
        None \<Rightarrow> Inr None
      | Some tc \<Rightarrow>
          (case find_currency d (tc_currency tc) of
             None \<Rightarrow> Inr None
           | Some c \<Rightarrow>
               (case find_feature d (c_game c) Currency of
                  None \<Rightarrow> Inr None
                | Some gf \<Rightarrow> res_bind (show_row now (f_state gf) c tc) (\<lambda>s. Inr (Some s)))))"

section \<open>Writing amounts\<close>

definition update_tc ::
  "nat \<Rightarrow> nat \<Rightarrow> (team_currency_row \<Rightarrow> team_currency_row) \<Rightarrow> db \<Rightarrow> db" where
  "update_tc team_id cid f d =
     d\<lparr>team_currencies := update_rows (is_tc team_id cid) f (team_currencies d)\<rparr>"

definition set_amount :: "time \<Rightarrow> nat \<Rightarrow> nat \<Rightarrow> int \<Rightarrow> db \<Rightarrow> db" where
  "set_amount now team_id cid v = update_tc team_id cid (\<lambda>tc. tc\<lparr>tc_amount := v, tc_utime := now\<rparr>)"

record update_options =
  uo_amount :: "int option"
  uo_growth :: "int option"
  uo_hidden :: "bool option"

definition apply_currency_update_conn ::
  "time \<Rightarrow> nat \<Rightarrow> runtime_row \<Rightarrow> update_options \<Rightarrow> db \<Rightarrow> db" where
  "apply_currency_update_conn now team_id row opts d =
     (let next_amount = min (case uo_amount opts of Some a \<Rightarrow> a | None \<Rightarrow> cr_current row) (cr_max row);
          keep = (uo_amount opts = None \<and> uo_growth opts = None)
      in update_tc team_id (cr_id row)
          (\<lambda>tc. tc\<lparr>tc_amount := (if keep then tc_amount tc else next_amount),
                   tc_growth := (case uo_growth opts of Some g \<Rightarrow> g | None \<Rightarrow> tc_growth tc),
                   tc_hidden := (case uo_hidden opts of Some h \<Rightarrow> h | None \<Rightarrow> tc_hidden tc),
                   tc_utime := (if keep then tc_utime tc else now)\<rparr>) d)"

definition currency_event ::
  "string \<Rightarrow> nat \<Rightarrow> nat option \<Rightarrow> runtime_row \<Rightarrow> int \<Rightarrow> int \<Rightarrow> event_row" where
  "currency_event ty team_id user row delta after =
     (blank_event ty)\<lparr>ev_game := Some (cr_game row), ev_team := Some team_id, ev_user := user,
       ev_currency := Some (cr_id row), ev_delta := Some delta,
       ev_before := Some (cr_current row), ev_after := Some after\<rparr>"

definition insert_backend_currency_update_event_conn ::
  "nat \<Rightarrow> runtime_row \<Rightarrow> int \<Rightarrow> db \<Rightarrow> db_error + db" where
  "insert_backend_currency_update_event_conn team_id row after d =
     (case checked64 (after - cr_current row) of
        None \<Rightarrow> Inl (OtherError ''currency.update delta amount overflow'')
      | Some delta \<Rightarrow>
          Inr (insert_event (currency_event ''currency.updated'' team_id None row delta after) d))"

text \<open>The staff event subtracts without a check; in a release build the difference wraps around.\<close>

definition insert_staff_currency_event_conn ::
  "nat \<Rightarrow> runtime_row \<Rightarrow> int \<Rightarrow> nat \<Rightarrow> db \<Rightarrow> db" where
  "insert_staff_currency_event_conn team_id row after actor_id d =
     insert_event (currency_event ''currency.staff_adjusted'' team_id (Some actor_id) row
       (wrap64 (after - cr_current row)) after) d"

datatype currency_boundary = Overflow | AboveMax | Next int

definition strict_currency_next :: "int \<Rightarrow> int \<Rightarrow> int \<Rightarrow> currency_boundary" where
  "strict_currency_next current max_amount delta =
     (case checked64 (current + delta) of
        None \<Rightarrow> Overflow
      | Some next \<Rightarrow> if next > max_amount then AboveMax else Next next)"

datatype staff_adjust_result =
    AdjustNotFound | AdjustOverflow | AdjustAboveMax currency_show | AdjustUpdated currency_show

text \<open>\<open>expect\<close> on a missing row is a panic.\<close>

definition expect_row :: "db_error + 'a option \<Rightarrow> db_error + 'a" where
  "expect_row r = res_bind r (ok_or (OtherError ''panic''))"

definition staff_adjust_currency ::
  "time \<Rightarrow> nat \<Rightarrow> nat \<Rightarrow> nat \<Rightarrow> int \<Rightarrow> nat \<Rightarrow> db \<Rightarrow> db_error + staff_adjust_result \<times> db" where
  "staff_adjust_currency now game_id team_id cid delta actor_id d =
     res_bind (lock_currency_runtime_conn now team_id cid d) (\<lambda>found.
       case found of
         None \<Rightarrow> Inr (AdjustNotFound, d)
       | Some row \<Rightarrow>
           (case find_tc d team_id cid of
              None \<Rightarrow> Inl RowNotFound
            | Some tc \<Rightarrow>
                if cr_game row \<noteq> game_id
                   \<or> \<not> (\<not> tc_hidden tc \<and> feature_is d (cr_game row) Currency 1)
                then Inr (AdjustNotFound, d)
                else case strict_currency_next (cr_current row) (cr_max row) delta of
                    Next next_amount \<Rightarrow>
                      (let d1 = set_amount now team_id cid next_amount d;
                           d2 = insert_staff_currency_event_conn team_id row next_amount actor_id d1
                       in res_bind (expect_row (get_currency_info_one_conn now team_id cid True d2))
                            (\<lambda>updated. Inr (AdjustUpdated updated, d2)))
                  | Overflow \<Rightarrow>
                      res_bind (expect_row (get_currency_info_one_conn now team_id cid True d))
                        (\<lambda>latest. Inr (AdjustOverflow, d))
                  | AboveMax \<Rightarrow>
                      res_bind (expect_row (get_currency_info_one_conn now team_id cid True d))
                        (\<lambda>latest. Inr (AdjustAboveMax latest, d))))"

definition admin_update_currency ::
  "time \<Rightarrow> nat \<Rightarrow> nat \<Rightarrow> nat \<Rightarrow> nat \<Rightarrow> update_options \<Rightarrow> db
    \<Rightarrow> db_error + currency_show option \<times> db" where
  "admin_update_currency now game_id team_id cid actor_id opts d =
     res_bind (lock_currency_runtime_conn now team_id cid d) (\<lambda>found.
       case found of
         None \<Rightarrow> Inr (None, d)
       | Some row \<Rightarrow>
           if cr_game row \<noteq> game_id then Inr (None, d)
           else let d1 = apply_currency_update_conn now team_id row opts d in
             res_bind (get_currency_info_one_conn now team_id cid True d1) (\<lambda>updated.
               Inr (updated,
                 case uo_amount opts of
                   None \<Rightarrow> d1
                 | Some amount \<Rightarrow>
                     (let after = min amount (cr_max row)
                      in if after \<noteq> cr_current row
                         then insert_staff_currency_event_conn team_id row after actor_id d1
                         else d1))))"

definition update_currency_locked ::
  "time \<Rightarrow> nat \<Rightarrow> runtime_row \<Rightarrow> update_options \<Rightarrow> db \<Rightarrow> db_error + currency_show option \<times> db" where
  "update_currency_locked now team_id row opts d =
     (let d1 = apply_currency_update_conn now team_id row opts d in
      res_bind (case uo_amount opts of
          None \<Rightarrow> Inr d1
        | Some amount \<Rightarrow>
            insert_backend_currency_update_event_conn team_id row (min amount (cr_max row)) d1)
      (\<lambda>d2. res_bind (get_currency_info_one_conn now team_id (cr_id row) True d2)
        (\<lambda>shown. Inr (shown, d2))))"

definition update_currency_conn ::
  "time \<Rightarrow> nat \<Rightarrow> nat \<Rightarrow> update_options \<Rightarrow> db \<Rightarrow> db_error + currency_show option \<times> db" where
  "update_currency_conn now team_id cid opts d =
     res_bind (lock_currency_runtime_conn now team_id cid d) (\<lambda>found.
       case found of None \<Rightarrow> Inr (None, d) | Some row \<Rightarrow> update_currency_locked now team_id row opts d)"

definition update_currency_by_slug_conn ::
  "time \<Rightarrow> nat \<Rightarrow> nat \<Rightarrow> ustr \<Rightarrow> update_options \<Rightarrow> db \<Rightarrow> db_error + currency_show option \<times> db" where
  "update_currency_by_slug_conn now team_id game_id slug opts d =
     res_bind (lock_currency_runtime_by_slug_conn now team_id game_id slug d) (\<lambda>found.
       case found of None \<Rightarrow> Inr (None, d) | Some row \<Rightarrow> update_currency_locked now team_id row opts d)"

record cost_change =
  cc_next :: int
  cc_delta :: int

definition currency_cost_change :: "int \<Rightarrow> int \<Rightarrow> int \<Rightarrow> cost_change option" where
  "currency_cost_change current max_amount amount =
     (case checked64 (- amount) of
        None \<Rightarrow> None
      | Some delta \<Rightarrow>
          (case checked64 (current + delta) of
             None \<Rightarrow> None
           | Some next_amount \<Rightarrow>
               if (amount > 0 \<and> next_amount < 0) \<or> (amount < 0 \<and> next_amount > max_amount)
               then None else Some \<lparr>cc_next = next_amount, cc_delta = delta\<rparr>))"

definition cost_currency_locked_conn ::
  "time \<Rightarrow> nat \<Rightarrow> runtime_row \<Rightarrow> int \<Rightarrow> db \<Rightarrow> bool \<times> db" where
  "cost_currency_locked_conn now team_id row amount d =
     (case currency_cost_change (cr_current row) (cr_max row) amount of
        None \<Rightarrow> (False, d)
      | Some change \<Rightarrow>
          (True, insert_event
             (currency_event ''currency.cost'' team_id None row (cc_delta change) (cc_next change))
             (set_amount now team_id (cr_id row) (cc_next change) d)))"

definition cost_currency_conn ::
  "time \<Rightarrow> nat \<Rightarrow> nat \<Rightarrow> int \<Rightarrow> db \<Rightarrow> db_error + bool \<times> db" where
  "cost_currency_conn now team_id cid amount d =
     res_bind (lock_currency_runtime_conn now team_id cid d) (\<lambda>found.
       case found of
         None \<Rightarrow> Inr (False, d)
       | Some row \<Rightarrow> Inr (cost_currency_locked_conn now team_id row amount d))"

definition cost_currency_by_slug_conn ::
  "time \<Rightarrow> nat \<Rightarrow> nat \<Rightarrow> ustr \<Rightarrow> int \<Rightarrow> db \<Rightarrow> db_error + bool \<times> db" where
  "cost_currency_by_slug_conn now team_id game_id slug amount d =
     res_bind (lock_currency_runtime_by_slug_conn now team_id game_id slug d) (\<lambda>found.
       case found of
         None \<Rightarrow> Inr (False, d)
       | Some row \<Rightarrow> Inr (cost_currency_locked_conn now team_id row amount d))"

text \<open>\<open>i64::clamp\<close> panics when its bounds are reversed.\<close>

definition add_currency_locked_conn ::
  "time \<Rightarrow> nat \<Rightarrow> runtime_row \<Rightarrow> int \<Rightarrow> db \<Rightarrow> db_error + int option \<times> db" where
  "add_currency_locked_conn now team_id row delta d =
     (let next_amount = saturate64 (cr_current row + delta);
          lo = min (cr_current row) 0
      in if cr_max row < lo then Inl (OtherError ''panic'')
         else let stored = max lo (min next_amount (cr_max row));
                  actual = wrap64 (stored - cr_current row)
              in Inr (Some actual, insert_event
                   (currency_event ''currency.added'' team_id None row actual stored)
                   (set_amount now team_id (cr_id row) stored d)))"

definition add_currency_conn ::
  "time \<Rightarrow> nat \<Rightarrow> nat \<Rightarrow> int \<Rightarrow> db \<Rightarrow> db_error + int option \<times> db" where
  "add_currency_conn now team_id cid delta d =
     res_bind (lock_currency_runtime_conn now team_id cid d) (\<lambda>found.
       case found of
         None \<Rightarrow> Inr (None, d)
       | Some row \<Rightarrow> add_currency_locked_conn now team_id row delta d)"

definition add_currency_by_slug_conn ::
  "time \<Rightarrow> nat \<Rightarrow> nat \<Rightarrow> ustr \<Rightarrow> int \<Rightarrow> db \<Rightarrow> db_error + int option \<times> db" where
  "add_currency_by_slug_conn now team_id game_id slug delta d =
     res_bind (lock_currency_runtime_by_slug_conn now team_id game_id slug d) (\<lambda>found.
       case found of
         None \<Rightarrow> Inr (None, d)
       | Some row \<Rightarrow> add_currency_locked_conn now team_id row delta d)"

section \<open>Managing the currencies of a game\<close>

definition valid_currency_slug :: "ustr \<Rightarrow> bool" where
  "valid_currency_slug slug \<longleftrightarrow> 1 \<le> str_len slug \<and> str_len slug \<le> 40 \<and>
     list_all (\<lambda>b. (97 \<le> b \<and> b \<le> 122) \<or> is_ascii_digit b \<or> b = 95 \<or> b = 45) slug"

definition valid_currency_data :: "ustr \<Rightarrow> ustr \<Rightarrow> int \<Rightarrow> int \<Rightarrow> int \<Rightarrow> bool" where
  "valid_currency_data name slug prec init_amount max_amount \<longleftrightarrow>
     trim name \<noteq> [] \<and> length name \<le> 40 \<and> valid_currency_slug slug \<and> 0 \<le> prec \<and> prec \<le> 6
     \<and> 0 \<le> init_amount \<and> 0 \<le> max_amount \<and> init_amount \<le> max_amount"

definition currency_belongs_to_game :: "db \<Rightarrow> nat \<Rightarrow> nat \<Rightarrow> bool" where
  "currency_belongs_to_game d game_id cid = exists_row (\<lambda>c. c_id c = cid \<and> c_game c = game_id) (currencies d)"

record currency_data =
  cd_slug :: ustr
  cd_growth :: int
  cd_init_amount :: int
  cd_init_hidden :: bool
  cd_max :: int

text \<open>A fresh identifier is an argument; the slug is unique within a game.\<close>

definition create_currency ::
  "time \<Rightarrow> nat \<Rightarrow> nat \<Rightarrow> currency_data \<Rightarrow> db \<Rightarrow> db_error + nat option \<times> db" where
  "create_currency now fresh game_id data d =
     (if \<not> exists_row (\<lambda>g. g_id g = game_id) (games d) then Inr (None, d)
      else if exists_row (\<lambda>c. c_game c = game_id \<and> c_slug c = trim (cd_slug data)) (currencies d)
      then Inl UniqueViolation
      else Inr (Some fresh,
        d\<lparr>currencies := currencies d @ [\<lparr>c_id = fresh, c_game = game_id, c_slug = trim (cd_slug data),
            c_growth = cd_growth data, c_init_amount = cd_init_amount data,
            c_init_hidden = cd_init_hidden data, c_max = cd_max data\<rparr>],
          team_currencies := insert_new (\<lambda>tc. (tc_team tc, tc_currency tc)) (team_currencies d)
            (map (\<lambda>t. \<lparr>tc_team = t_id t, tc_currency = fresh, tc_amount = cd_init_amount data,
                tc_growth = 0, tc_hidden = cd_init_hidden data, tc_utime = now\<rparr>)
              (filter (\<lambda>t. t_game t = game_id \<and> t_start t \<noteq> None) (teams d)))\<rparr>))"

definition update_currency_settings ::
  "time \<Rightarrow> nat \<Rightarrow> nat \<Rightarrow> currency_data \<Rightarrow> db \<Rightarrow> db_error + nat option \<times> db" where
  "update_currency_settings clock game_id cid data d =
     (case find (\<lambda>c. c_id c = cid \<and> c_game c = game_id) (currencies d) of
        None \<Rightarrow> Inr (None, d)
      | Some current \<Rightarrow>
          (case find_feature d game_id Currency of
             None \<Rightarrow> Inr (None, d)
           | Some gf \<Rightarrow>
               res_bind (if c_growth current \<noteq> cd_growth data \<and> f_state gf = 1
                         then settle_currency_growth_conn game_id (Some cid) clock d else Inr d)
                (\<lambda>d. if exists_row (\<lambda>c. c_game c = game_id \<and> c_slug c = trim (cd_slug data) \<and> c_id c \<noteq> cid)
                          (currencies d)
                      then Inl UniqueViolation
                      else Inr (Some cid,
                        d\<lparr>currencies := update_rows (\<lambda>c. c_id c = cid \<and> c_game c = game_id)
                          (\<lambda>c. c\<lparr>c_slug := trim (cd_slug data), c_growth := cd_growth data,
                             c_init_amount := cd_init_amount data, c_init_hidden := cd_init_hidden data,
                             c_max := cd_max data\<rparr>) (currencies d)\<rparr>))))"

text \<open>Deleting a currency deletes the teams' amounts and clears the hints' costs.\<close>

definition delete_currency :: "nat \<Rightarrow> nat \<Rightarrow> db \<Rightarrow> bool \<times> db" where
  "delete_currency game_id cid d =
     (if \<not> currency_belongs_to_game d game_id cid then (False, d)
      else (True, d\<lparr>currencies := delete_rows (\<lambda>c. c_id c = cid \<and> c_game c = game_id) (currencies d),
             team_currencies := delete_rows (\<lambda>tc. tc_currency tc = cid) (team_currencies d),
             hints := update_rows (\<lambda>h. h_cost_id h = Some cid) (\<lambda>h. h\<lparr>h_cost_id := None\<rparr>) (hints d)\<rparr>))"

section \<open>Arithmetic of growth\<close>

lemma minutes_same [simp]: "minutes_between t t = 0"
  by (simp add: minutes_between_def)

lemma minutes_mono: "s \<le> t \<Longrightarrow> minutes_between s u \<le> minutes_between t u"
  by (simp add: minutes_between_def zdiv_mono1)

lemma minutes_nonneg: "u \<le> t \<Longrightarrow> 0 \<le> minutes_between t u"
  by (simp add: minutes_between_def)

lemma clamped_growth_zero: "v \<le> m \<Longrightarrow> clamped_growth v 0 g m = v"
  by (simp add: clamped_growth_def)

lemma clamped_growth_le: "0 \<le> m \<Longrightarrow> clamped_growth v k g m \<le> m"
  by (simp add: clamped_growth_def)

lemma clamped_growth_ge: "min v 0 \<le> clamped_growth v k g m"
  by (simp add: clamped_growth_def)

lemma clamped_growth_mono:
  assumes "0 \<le> g" and "j \<le> k"
  shows "clamped_growth v j g m \<le> clamped_growth v k g m"
proof -
  have "j * g \<le> k * g" using assms by (simp add: mult_right_mono)
  then show ?thesis by (simp add: clamped_growth_def)
qed

section \<open>The balance of an account\<close>

definition balance :: "time \<Rightarrow> db \<Rightarrow> nat \<times> nat \<Rightarrow> int option" where
  "balance now d k =
     (case lock_currency_runtime_conn now (fst k) (snd k) d of
        Inr (Some r) \<Rightarrow> Some (cr_current r) | _ \<Rightarrow> None)"

text \<open>Whether the amount \<open>v\<close> can be stored as it is: growth is off, or it is within the maximum.\<close>

definition storable :: "db \<Rightarrow> nat \<times> nat \<Rightarrow> int \<Rightarrow> bool" where
  "storable d k v \<longleftrightarrow>
     (case find_currency d (snd k) of
        None \<Rightarrow> False | Some c \<Rightarrow> \<not> feature_is d (c_game c) Currency 1 \<or> v \<le> c_max c)"

lemma find_tc_update:
  assumes "\<And>tc. tc_team (f tc) = tc_team tc \<and> tc_currency (f tc) = tc_currency tc"
  shows "find_tc (update_tc t c f d) t' c' =
    (if t' = t \<and> c' = c then map_option f (find_tc d t c) else find_tc d t' c')"
proof (cases "t' = t \<and> c' = c")
  case True
  then show ?thesis
    unfolding find_tc_def update_tc_def using assms by (auto simp: is_tc_def intro: find_update_rows)
next
  case False
  then show ?thesis
    unfolding find_tc_def update_tc_def using assms
    by (auto simp: is_tc_def intro!: find_update_rows_other)
qed

lemma update_tc_frame [simp]:
  "find_currency (update_tc t c f d) i = find_currency d i"
  "find_feature (update_tc t c f d) g x = find_feature d g x"
  "feature_is (update_tc t c f d) g x v = feature_is d g x v"
  "events (update_tc t c f d) = events d"
  by (simp_all add: update_tc_def find_currency_def find_feature_def feature_is_def)

lemma insert_event_frame [simp]:
  "find_currency (insert_event e d) i = find_currency d i"
  "find_feature (insert_event e d) g x = find_feature d g x"
  "feature_is (insert_event e d) g x v = feature_is d g x v"
  "find_tc (insert_event e d) t c = find_tc d t c"
  "events (insert_event e d) = events d @ [e]"
  by (simp_all add: insert_event_def find_currency_def find_feature_def feature_is_def find_tc_def)

lemma runtime_frame [simp]:
  "runtime_of now (update_tc t c f d) = runtime_of now d"
  "runtime_of now (insert_event e d) = runtime_of now d"
  by (simp_all add: runtime_of_def fun_eq_iff)

lemma lock_insert_event [simp]:
  "lock_currency_runtime_conn now t c (insert_event e d) = lock_currency_runtime_conn now t c d"
  by (simp add: lock_currency_runtime_conn_def cong: option.case_cong)

lemma balance_insert_event [simp]: "balance now (insert_event e d) k = balance now d k"
  by (simp add: balance_def)

lemma storable_frame [simp]:
  "storable (update_tc t c f d) k v = storable d k v"
  "storable (insert_event e d) k v = storable d k v"
  by (simp_all add: storable_def cong: option.case_cong)

lemma set_amount_frame [simp]:
  "storable (set_amount now t c x d) k v = storable d k v"
  "events (set_amount now t c x d) = events d"
  by (simp_all add: set_amount_def)

lemma lock_SomeE:
  assumes "lock_currency_runtime_conn now t c d = Inr (Some r)"
  obtains tc cu gf where "find_tc d t c = Some tc" "find_currency d c = Some cu"
    "find_feature d (c_game cu) Currency = Some gf"
    "\<not> (f_state gf = 1 \<and> \<not> in_i64 (c_growth cu + tc_growth tc))"
    "r = \<lparr>cr_id = c, cr_game = c_game cu, cr_current = current_amount (f_state gf) now cu tc, cr_max = c_max cu\<rparr>"
proof -
  from assms obtain tc cu where 1: "find_tc d t c = Some tc" "find_currency d c = Some cu"
    and 2: "runtime_of now d cu tc = Inr (Some r)"
    by (auto simp: lock_currency_runtime_conn_def split: option.splits)
  from 1(2) have "c_id cu = c" by (auto simp: find_currency_def find_Some_iff)
  with 2 that [OF 1] show thesis
    by (auto simp: runtime_of_def split: option.splits if_splits)
qed

lemma balance_Some: "balance now d (t, c) = Some b \<longleftrightarrow>
    (\<exists>r. lock_currency_runtime_conn now t c d = Inr (Some r) \<and> cr_current r = b)"
  by (auto simp: balance_def split: sum.splits option.splits)

text \<open>Any update of the row that stores \<open>v\<close> at \<open>now\<close> and leaves the growth makes \<open>v\<close> the balance.\<close>

definition stores :: "time \<Rightarrow> int \<Rightarrow> (team_currency_row \<Rightarrow> team_currency_row) \<Rightarrow> bool" where
  "stores now v f \<longleftrightarrow> (\<forall>tc. tc_team (f tc) = tc_team tc \<and> tc_currency (f tc) = tc_currency tc
     \<and> tc_growth (f tc) = tc_growth tc \<and> tc_amount (f tc) = v \<and> tc_utime (f tc) = now)"

lemma balance_update_same:
  assumes "balance now d (t, c) \<noteq> None" and "storable d (t, c) v" and f: "stores now v f"
  shows "balance now (update_tc t c f d) (t, c) = Some v"
proof -
  from assms(1) obtain r where r: "lock_currency_runtime_conn now t c d = Inr (Some r)"
    by (auto simp: balance_Some)
  then obtain tc cu gf where l: "find_tc d t c = Some tc" "find_currency d c = Some cu"
    "find_feature d (c_game cu) Currency = Some gf"
    "\<not> (f_state gf = 1 \<and> \<not> in_i64 (c_growth cu + tc_growth tc))"
    by (rule lock_SomeE)
  have "f_state gf = 1 \<longrightarrow> v \<le> c_max cu"
    using assms(2) l by (auto simp: storable_def feature_is_def)
  then have "current_amount (f_state gf) now cu (f tc) = v"
    using f by (auto simp: stores_def current_amount_def clamped_growth_zero)
  moreover have "find_tc (update_tc t c f d) t c = Some (f tc)"
    using l(1) f by (simp add: find_tc_update stores_def)
  ultimately show ?thesis
    using l f by (auto simp: balance_def lock_currency_runtime_conn_def runtime_of_def stores_def)
qed

lemma balance_update_other:
  assumes "k \<noteq> (t, c)" and "\<And>tc. tc_team (f tc) = tc_team tc \<and> tc_currency (f tc) = tc_currency tc"
  shows "balance now (update_tc t c f d) k = balance now d k"
  using assms by (cases k) (auto simp: balance_def lock_currency_runtime_conn_def find_tc_update
      cong: option.case_cong)

lemma balance_set_amount_same:
  "balance now d (t, c) \<noteq> None \<Longrightarrow> storable d (t, c) v \<Longrightarrow>
   balance now (set_amount now t c v d) (t, c) = Some v"
  unfolding set_amount_def by (rule balance_update_same) (simp_all add: stores_def)

lemma balance_set_amount_other:
  "k \<noteq> (t, c) \<Longrightarrow> balance now' (set_amount now t c v d) k = balance now' d k"
  unfolding set_amount_def by (rule balance_update_other) simp_all

section \<open>The interface of a purse\<close>

text \<open>
  What paying out of an account needs: a balance, and a store operation that makes an admissible
  amount the balance of that account and leaves the others alone.
\<close>

locale purse =
  fixes bal :: "'d \<Rightarrow> 'k \<Rightarrow> int option"
    and fits :: "'d \<Rightarrow> 'k \<Rightarrow> int \<Rightarrow> bool"
    and put :: "'d \<Rightarrow> 'k \<Rightarrow> int \<Rightarrow> 'd"
  assumes put_same: "bal d k \<noteq> None \<Longrightarrow> fits d k v \<Longrightarrow> bal (put d k v) k = Some v"
    and put_other: "j \<noteq> k \<Longrightarrow> bal (put d k v) j = bal d j"
    and fits_put: "fits (put d k v) j x = fits d j x"
    and fits_down: "fits d k x \<Longrightarrow> y \<le> x \<Longrightarrow> fits d k y"
begin

definition pay :: "'k \<Rightarrow> int \<Rightarrow> 'd \<Rightarrow> bool \<times> 'd" where
  "pay k a d =
     (case bal d k of
        Some b \<Rightarrow> if a \<le> b then (True, put d k (b - a)) else (False, d)
      | None \<Rightarrow> (False, d))"

fun pays :: "'k \<Rightarrow> int list \<Rightarrow> 'd \<Rightarrow> bool list \<times> 'd" where
  "pays k [] d = ([], d)"
| "pays k (a # as) d = (let (g, d1) = pay k a d; (gs, d2) = pays k as d1 in (g # gs, d2))"

lemma pays_sum:
  assumes "bal d k = Some b" and "fits d k b" and "0 \<le> b" and "\<forall>a \<in> set as. 0 < a"
  shows "\<exists>b'. bal (snd (pays k as d)) k = Some b' \<and> 0 \<le> b'
    \<and> b' = b - sum_list (map fst (filter snd (zip as (fst (pays k as d)))))
    \<and> (\<forall>j. j \<noteq> k \<longrightarrow> bal (snd (pays k as d)) j = bal d j)"
  using assms
proof (induction "as" arbitrary: d b)
  case (Cons a as)
  show ?case
  proof (cases "a \<le> b")
    case True
    let ?d = "put d k (b - a)"
    have f: "fits d k (b - a)" using Cons.prems(4) by (intro fits_down [OF Cons.prems(2)]) simp
    have e1: "bal ?d k = Some (b - a)" using put_same [OF _ f] Cons.prems(1) by simp
    have e2: "fits ?d k (b - a)" using f by (simp add: fits_put)
    have e3: "0 \<le> b - a" using True by simp
    have e4: "\<forall>a \<in> set as. 0 < a" using Cons.prems(4) by simp
    obtain b' where b': "bal (snd (pays k as ?d)) k = Some b'" "0 \<le> b'"
      "b' = b - a - sum_list (map fst (filter snd (zip as (fst (pays k as ?d)))))"
      "\<forall>j. j \<noteq> k \<longrightarrow> bal (snd (pays k as ?d)) j = bal ?d j"
      using Cons.IH [OF e1 e2 e3 e4] by blast
    have p: "pays k (a # as) d = (True # fst (pays k as ?d), snd (pays k as ?d))"
      using True Cons.prems(1) by (simp add: pay_def case_prod_beta)
    show ?thesis unfolding p using b' by (simp add: put_other)
  next
    case False
    have p: "pays k (a # as) d = (False # fst (pays k as d), snd (pays k as d))"
      using False Cons.prems(1) by (simp add: pay_def case_prod_beta)
    show ?thesis unfolding p using Cons.IH [OF Cons.prems(1-3)] Cons.prems(4) by simp
  qed
qed simp

end

text \<open>In the model, storing an amount after a payment also writes the event.\<close>

definition store_cost :: "time \<Rightarrow> db \<Rightarrow> nat \<times> nat \<Rightarrow> int \<Rightarrow> db" where
  "store_cost now d k v =
     (case lock_currency_runtime_conn now (fst k) (snd k) d of
        Inr (Some row) \<Rightarrow>
          insert_event (currency_event ''currency.cost'' (fst k) None row (v - cr_current row) v)
            (set_amount now (fst k) (snd k) v d)
      | _ \<Rightarrow> d)"

interpretation team_purse: purse "balance now" storable "store_cost now" for now
proof
  fix d v and k :: "nat \<times> nat"
  obtain t c where k: "k = (t, c)" by (cases k)
  assume "balance now d k \<noteq> None" "storable d k v"
  then show "balance now (store_cost now d k v) k = Some v"
    using balance_set_amount_same [of now d t c v]
    by (auto simp: k store_cost_def balance_Some)
next
  fix j k :: "nat \<times> nat" and d v
  assume "j \<noteq> k"
  then show "balance now (store_cost now d k v) j = balance now d j"
    using balance_set_amount_other [of j "fst k" "snd k" now now v d]
    by (auto simp: store_cost_def split: sum.split option.split)
next
  fix d v x and j k :: "nat \<times> nat"
  show "storable (store_cost now d k v) j x = storable d j x"
    by (auto simp: store_cost_def split: sum.split option.split)
next
  fix d x y and k :: "nat \<times> nat"
  assume "storable d k x" "y \<le> x"
  then show "storable d k y" by (auto simp: storable_def split: option.splits)
qed

lemma cost_is_pay:
  assumes "0 < a" and "in_i64 a" and "\<And>b. balance now d (t, c) = Some b \<Longrightarrow> in_i64 b"
    and "cost_currency_conn now t c a d = Inr res"
  shows "team_purse.pay now (t, c) a d = res"
proof (cases "lock_currency_runtime_conn now t c d")
  case (Inr found)
  show ?thesis
  proof (cases found)
    case None
    with assms(4) Inr show ?thesis
      by (auto simp: team_purse.pay_def balance_def cost_currency_conn_def)
  next
    case (Some row)
    with Inr have lk: "lock_currency_runtime_conn now t c d = Inr (Some row)" by simp
    then have b: "balance now d (t, c) = Some (cr_current row)" by (simp add: balance_def)
    have ib: "in_i64 (cr_current row)" using assms(3) b by blast
    have na: "in_i64 (- a)" using assms(1,2) by (simp add: i64_defs)
    have id: "cr_id row = c" using lk by (rule lock_SomeE) simp
    show ?thesis
    proof (cases "a \<le> cr_current row")
      case True
      have "in_i64 (cr_current row - a)" using True ib assms(1) by (simp add: i64_defs)
      with True assms(1,4) lk na b id show ?thesis
        by (auto simp: team_purse.pay_def cost_currency_conn_def cost_currency_locked_conn_def
            currency_cost_change_def checked64_def store_cost_def)
    next
      case False
      with assms(1,4) lk na b show ?thesis
        by (auto simp: team_purse.pay_def cost_currency_conn_def cost_currency_locked_conn_def
            currency_cost_change_def checked64_def)
    qed
  qed
qed (use assms(4) in \<open>simp add: cost_currency_conn_def\<close>)

text \<open>Several costs in one transaction, with which of them were granted.\<close>

fun cost_all :: "time \<Rightarrow> nat \<Rightarrow> nat \<Rightarrow> int list \<Rightarrow> db \<Rightarrow> db_error + bool list \<times> db" where
  "cost_all now t c [] d = Inr ([], d)"
| "cost_all now t c (a # as) d =
     res_bind (cost_currency_conn now t c a d) (\<lambda>(g, d1).
       res_bind (cost_all now t c as d1) (\<lambda>(gs, d2). Inr (g # gs, d2)))"

lemma cost_all_pays:
  assumes "\<forall>a \<in> set as. 0 < a \<and> in_i64 a" and "balance now d (t, c) = Some b" and "storable d (t, c) b"
    and "0 \<le> b" and "in_i64 b"
  shows "cost_all now t c as d = Inr (team_purse.pays now (t, c) as d)"
  using assms
proof (induction "as" arbitrary: d b)
  case (Cons a as)
  from Cons.prems(2) obtain row where "lock_currency_runtime_conn now t c d = Inr (Some row)"
    by (auto simp: balance_Some)
  then obtain res where res: "cost_currency_conn now t c a d = Inr res"
    by (simp add: cost_currency_conn_def)
  have pay: "team_purse.pay now (t, c) a d = res"
    using cost_is_pay [OF _ _ _ res] Cons.prems by simp
  obtain g d1 where r: "res = (g, d1)" by (cases res)
  have "\<exists>b1. balance now d1 (t, c) = Some b1 \<and> storable d1 (t, c) b1 \<and> 0 \<le> b1 \<and> in_i64 b1"
  proof (cases "a \<le> b")
    case True
    have f: "storable d (t, c) (b - a)"
      by (rule team_purse.fits_down [OF Cons.prems(3)]) (use Cons.prems(1) in simp)
    have "d1 = store_cost now d (t, c) (b - a)"
      using pay r True Cons.prems(2) by (simp add: team_purse.pay_def)
    moreover have "in_i64 (b - a)" using Cons.prems(1,5) True by (simp add: i64_defs)
    ultimately show ?thesis
      using team_purse.put_same [OF _ f, of now] Cons.prems(2) f True
      by (simp add: team_purse.fits_put)
  next
    case False
    with pay r Cons.prems show ?thesis by (auto simp: team_purse.pay_def)
  qed
  then have "cost_all now t c as d1 = Inr (team_purse.pays now (t, c) as d1)"
    using Cons.IH Cons.prems(1) by auto
  with res r pay show ?case by (simp add: case_prod_beta)
qed simp

section \<open>Every operation and its event\<close>

datatype currency_op =
    OpCost int
  | OpAdd int
  | OpUpdate update_options
  | OpStaff nat int nat
  | OpAdmin nat nat update_options

fun run_currency_op :: "time \<Rightarrow> nat \<Rightarrow> nat \<Rightarrow> currency_op \<Rightarrow> db \<Rightarrow> db_error + db" where
  "run_currency_op now t c (OpCost a) d =
     res_bind (cost_currency_conn now t c a d) (\<lambda>(r, d'). Inr d')"
| "run_currency_op now t c (OpAdd a) d =
     res_bind (add_currency_conn now t c a d) (\<lambda>(r, d'). Inr d')"
| "run_currency_op now t c (OpUpdate opts) d =
     res_bind (update_currency_conn now t c opts d) (\<lambda>(r, d'). Inr d')"
| "run_currency_op now t c (OpStaff g a u) d =
     res_bind (staff_adjust_currency now g t c a u d) (\<lambda>(r, d'). Inr d')"
| "run_currency_op now t c (OpAdmin g u opts) d =
     res_bind (admin_update_currency now g t c u opts d) (\<lambda>(r, d'). Inr d')"

text \<open>
  The arguments, and the differences the unchecked subtractions compute, fit 64 bits; and the growth is
  not changed alone while the balance is above the maximum, where it is cut down without an event.
\<close>

definition growth_alone_fits :: "int \<Rightarrow> int \<Rightarrow> update_options \<Rightarrow> bool" where
  "growth_alone_fits b m opts \<longleftrightarrow> (uo_amount opts = None \<and> uo_growth opts \<noteq> None \<longrightarrow> b \<le> m)"

fun op_in_range :: "int \<Rightarrow> int \<Rightarrow> currency_op \<Rightarrow> bool" where
  "op_in_range b m (OpAdd a) = in_i64 (m - b)"
| "op_in_range b m (OpUpdate opts) = growth_alone_fits b m opts"
| "op_in_range b m (OpAdmin g u opts) =
     (growth_alone_fits b m opts \<and> (case uo_amount opts of None \<Rightarrow> True | Some a \<Rightarrow> in_i64 (min a m - b)))"
| "op_in_range b m (OpStaff g a u) = in_i64 a"
| "op_in_range b m _ = True"

definition keeps_books :: "time \<Rightarrow> nat \<times> nat \<Rightarrow> int \<Rightarrow> db \<Rightarrow> db \<Rightarrow> bool" where
  "keeps_books now k b d d' \<longleftrightarrow>
     (\<forall>j. j \<noteq> k \<longrightarrow> balance now d' j = balance now d j) \<and>
     ((events d' = events d \<and> balance now d' k = Some b)
      \<or> (\<exists>e b'. events d' = events d @ [e] \<and> balance now d' k = Some b' \<and> ev_before e = Some b
           \<and> ev_after e = Some b' \<and> ev_delta e = Some (b' - b)))"

lemma keeps_books_refl: "balance now d k = Some b \<Longrightarrow> keeps_books now k b d d"
  by (simp add: keeps_books_def)

lemma keeps_books_event:
  assumes "balance now d (t, c) = Some b" and "storable d (t, c) v" and "stores now v f"
    and "cr_current row = b" and "delta = v - b"
  shows "keeps_books now (t, c) b d (insert_event (currency_event ty t u row delta v) (update_tc t c f d))"
proof -
  have "balance now (update_tc t c f d) (t, c) = Some v"
    using assms by (intro balance_update_same) simp_all
  moreover have "balance now (update_tc t c f d) j = balance now d j" if "j \<noteq> (t, c)" for j
    using that assms(3) by (intro balance_update_other) (auto simp: stores_def)
  ultimately show ?thesis
    using assms(4,5) by (auto simp: keeps_books_def currency_event_def)
qed

lemma keeps_books_silent:
  assumes "balance now d (t, c) = Some b" and "storable d (t, c) b" and "stores now b f"
  shows "keeps_books now (t, c) b d (update_tc t c f d)"
  using assms balance_update_same [of now d t c b f] balance_update_other [of _ t c f now d]
  by (auto simp: keeps_books_def stores_def)

section \<open>The currency across a closing and a reopening\<close>

lemma find_map_key:
  assumes "\<And>r. q (f r) = q r"
  shows "find q (map f rs) = map_option f (find q rs)"
  using assms by (induction rs) auto

lemma find_feature_record_state:
  "find_feature (record_state g f old target ph actor at d) g' f' =
   (if g' = g \<and> f' = f
    then map_option (\<lambda>r. r\<lparr>f_state := target, f_phase := ph, f_utime := at\<rparr>) (find_feature d g f)
    else find_feature d g' f')"
proof (cases "g' = g \<and> f' = f")
  case True
  then show ?thesis
    by (auto simp: find_feature_def record_state_def intro!: find_update_rows)
next
  case False
  then show ?thesis
    by (auto simp: find_feature_def record_state_def intro!: find_update_rows_other)
qed

lemma record_state_frame [simp]:
  "team_currencies (record_state g f old target ph actor at d) = team_currencies d"
  "currencies (record_state g f old target ph actor at d) = currencies d"
  by (simp_all add: record_state_def)

lemma enable_frame [simp]:
  "find_feature (enable_currency_growth_conn g at d) g' f = find_feature d g' f"
  "currencies (enable_currency_growth_conn g at d) = currencies d"
  by (simp_all add: enable_currency_growth_conn_def find_feature_def)

text \<open>What closing and opening the currency do to one account of the game.\<close>

lemma close_account:
  assumes "set_state_conn g \<lparr>fc_feature = Currency, fc_state = Closed\<rparr> ph actor at d = Inr (True, d')"
    and "find_tc d t c = Some tc" and "find_currency d c = Some cu" and "c_game cu = g"
  shows "find_tc d' t c = Some (settle_row cu at tc) \<and> currencies d' = currencies d
    \<and> in_i64 (c_growth cu + tc_growth tc)
    \<and> (\<exists>gf. find_feature d' g Currency = Some gf \<and> f_state gf = 0)"
proof -
  from assms(1) obtain row d1 where row: "find_feature d g Currency = Some row"
    and st: "settle_currency_growth_conn g None at d = Inr d1"
    and d': "d' = record_state g Currency (f_state row) 0 ph actor at d1"
    by (auto simp: set_state_conn_def Let_def res_bind_eq_Inr currency_step_def
        split: option.splits if_splits)
  have id: "c_id cu = c" and cin: "tc_currency tc = c"
    using assms(2,3) by (auto simp: find_currency_def find_tc_def find_Some_iff is_tc_def)
  have cur: "currency_in d g None tc = Some cu"
    using assms(3,4) cin by (simp add: currency_in_def)
  have "tc \<in> set (team_currencies d)" using assms(2) by (auto simp: find_tc_def find_Some_iff)
  with st cur have g64: "in_i64 (c_growth cu + tc_growth tc)"
    by (fastforce simp: settle_currency_growth_conn_def split: if_splits)
  have tcs: "team_currencies d1 = map (\<lambda>tc. case currency_in d g None tc of
      None \<Rightarrow> tc | Some c \<Rightarrow> settle_row c at tc) (team_currencies d)"
    using st by (auto simp: settle_currency_growth_conn_def split: if_splits)
  have "find_tc d1 t c = Some (settle_row cu at tc)"
    unfolding find_tc_def tcs
    by (subst find_map_key)
      (use assms(2) cur in \<open>auto simp: is_tc_def settle_row_def find_tc_def split: option.splits\<close>)
  moreover have "find_feature d1 g Currency = Some row" "currencies d1 = currencies d"
    using row settle_frame [OF st] by (simp_all add: find_feature_def)
  ultimately show ?thesis
    using g64 by (auto simp: d' find_feature_record_state find_tc_def)
qed

lemma open_account:
  assumes "set_state_conn g \<lparr>fc_feature = Currency, fc_state = Opened\<rparr> ph actor at d = Inr (True, d')"
    and "find_tc d t c = Some tc" and "find_currency d c = Some cu" and "c_game cu = g"
  shows "find_tc d' t c = Some (tc\<lparr>tc_utime := max (tc_utime tc) at\<rparr>) \<and> currencies d' = currencies d
    \<and> (\<exists>gf. find_feature d' g Currency = Some gf \<and> f_state gf = 1)"
proof -
  from assms(1) obtain row where row: "find_feature d g Currency = Some row"
    and d': "d' = record_state g Currency (f_state row) 1 ph actor at (enable_currency_growth_conn g at d)"
    by (auto simp: set_state_conn_def Let_def res_bind_eq_Inr currency_step_def
        split: option.splits if_splits)
  have cin: "tc_currency tc = c" using assms(2) by (auto simp: find_tc_def find_Some_iff is_tc_def)
  have cur: "currency_in d g None tc = Some cu"
    using assms(3,4) cin by (simp add: currency_in_def)
  have "find_tc (enable_currency_growth_conn g at d) t c = Some (tc\<lparr>tc_utime := max (tc_utime tc) at\<rparr>)"
    unfolding find_tc_def enable_currency_growth_conn_def
    by (simp, subst find_map_key)
      (use assms(2) cur in \<open>auto simp: is_tc_def find_tc_def split: option.splits\<close>)
  then show ?thesis
    using row by (auto simp: d' find_feature_record_state find_tc_def)
qed

lemma balance_account:
  assumes "find_tc d t c = Some tc" and "find_currency d c = Some cu"
    and "find_feature d (c_game cu) Currency = Some gf" and "in_i64 (c_growth cu + tc_growth tc)"
  shows "balance now d (t, c) = Some (current_amount (f_state gf) now cu tc)"
  using assms by (simp add: balance_def lock_currency_runtime_conn_def runtime_of_def)

section \<open>Each operation keeps the books\<close>

lemma balance_update_hidden:
  assumes "\<And>tc. tc_team (f tc) = tc_team tc \<and> tc_currency (f tc) = tc_currency tc
    \<and> tc_growth (f tc) = tc_growth tc \<and> tc_amount (f tc) = tc_amount tc \<and> tc_utime (f tc) = tc_utime tc"
  shows "balance now (update_tc t c f d) k = balance now d k"
proof -
  have r: "runtime_of now d cu (f tc) = runtime_of now d cu tc" for cu tc
    using assms by (auto simp: runtime_of_def current_amount_def split: option.split)
  show ?thesis
    using assms r by (cases k) (auto simp: balance_def lock_currency_runtime_conn_def find_tc_update
        cong: option.case_cong split: option.splits)
qed

lemma keeps_books_hidden:
  assumes "balance now d (t, c) = Some b"
    and "\<And>tc. tc_team (f tc) = tc_team tc \<and> tc_currency (f tc) = tc_currency tc
    \<and> tc_growth (f tc) = tc_growth tc \<and> tc_amount (f tc) = tc_amount tc \<and> tc_utime (f tc) = tc_utime tc"
  shows "keeps_books now (t, c) b d (update_tc t c f d)"
  using assms by (simp add: keeps_books_def balance_update_hidden)

text \<open>A locked account of the game, with the amount found in range.\<close>

definition booked :: "time \<Rightarrow> nat \<Rightarrow> nat \<Rightarrow> db \<Rightarrow> runtime_row \<Rightarrow> bool" where
  "booked now t c d row \<longleftrightarrow> lock_currency_runtime_conn now t c d = Inr (Some row)
     \<and> storable d (t, c) (cr_current row) \<and> in_i64 (cr_current row) \<and> 0 \<le> cr_max row"

lemma booked_row:
  assumes "booked now t c d row"
  shows "balance now d (t, c) = Some (cr_current row)" "cr_id row = c"
    "v \<le> cr_max row \<Longrightarrow> storable d (t, c) v" "v \<le> cr_current row \<Longrightarrow> storable d (t, c) v"
    "lock_currency_runtime_conn now t c d = Inr (Some row)"
proof -
  from assms have lk: "lock_currency_runtime_conn now t c d = Inr (Some row)" by (simp add: booked_def)
  then show "balance now d (t, c) = Some (cr_current row)" "cr_id row = c"
    "v \<le> cr_max row \<Longrightarrow> storable d (t, c) v" "lock_currency_runtime_conn now t c d = Inr (Some row)"
    by (auto simp: balance_def storable_def elim: lock_SomeE)
  show "v \<le> cr_current row \<Longrightarrow> storable d (t, c) v"
    using assms by (auto simp: booked_def storable_def split: option.splits)
qed

lemma amount_entry:
  assumes "booked now t c d row" and "storable d (t, c) v" and "delta = v - cr_current row"
  shows "keeps_books now (t, c) (cr_current row) d
     (insert_event (currency_event ty t user row delta v) (set_amount now t c v d))"
  unfolding set_amount_def
  by (rule keeps_books_event [OF booked_row(1)]) (use assms in \<open>simp_all add: stores_def\<close>)

lemma cost_entry:
  assumes B: "booked now t c d row"
  shows "keeps_books now (t, c) (cr_current row) d (snd (cost_currency_locked_conn now t row a d))"
proof -
  have "storable d (t, c) (cc_next ch) \<and> cc_delta ch = cc_next ch - cr_current row"
    if "currency_cost_change (cr_current row) (cr_max row) a = Some ch" for ch
    using that booked_row(3,4) [OF B, of "cc_next ch"]
    by (cases "0 \<le> a") (auto simp: currency_cost_change_def split: option.splits if_splits)
  then show ?thesis
    using amount_entry [OF B] keeps_books_refl [OF booked_row(1) [OF B]]
    by (auto simp: cost_currency_locked_conn_def booked_row(2) [OF B] split: option.split)
qed

lemma add_entry:
  assumes B: "booked now t c d row" and "add_currency_locked_conn now t row a d = Inr (x, d')" and "in_i64 (cr_max row - cr_current row)"
  shows "keeps_books now (t, c) (cr_current row) d d'"
proof -
  define v where "v = max (min (cr_current row) 0) (min (saturate64 (cr_current row + a)) (cr_max row))"
  have "v \<le> cr_max row" using B by (auto simp: v_def booked_def)
  moreover have "in_i64 (v - cr_current row)"
    using assms(3) B \<open>v \<le> cr_max row\<close> by (auto simp: v_def i64_defs booked_def)
  moreover have "d' = insert_event (currency_event ''currency.added'' t None row
      (wrap64 (v - cr_current row)) v) (set_amount now t c v d)"
    using assms(2) by (auto simp: add_currency_locked_conn_def Let_def v_def booked_row(2) [OF B]
        split: if_splits)
  ultimately show ?thesis using amount_entry [OF B] booked_row(3) [OF B] by simp
qed

text \<open>What an update of options writes; a growth that is shown afterwards fits 64 bits.\<close>

definition written :: "runtime_row \<Rightarrow> update_options \<Rightarrow> int" where
  "written row opts = min (case uo_amount opts of Some a \<Rightarrow> a | None \<Rightarrow> cr_current row) (cr_max row)"

definition stores_amount :: "time \<Rightarrow> int \<Rightarrow> (team_currency_row \<Rightarrow> team_currency_row) \<Rightarrow> bool" where
  "stores_amount now v f \<longleftrightarrow> (\<forall>tc. tc_team (f tc) = tc_team tc \<and> tc_currency (f tc) = tc_currency tc
     \<and> tc_amount (f tc) = v \<and> tc_utime (f tc) = now)"

lemma update_stores:
  assumes "booked now t c d row" and "uo_amount opts \<noteq> None \<or> uo_growth opts \<noteq> None"
  obtains f where "apply_currency_update_conn now t row opts d = update_tc t c f d" "stores_amount now (written row opts) f"
  using that assms
  by (auto simp: apply_currency_update_conn_def booked_row(2) stores_amount_def written_def)

lemma update_hides:
  "booked now t c d row \<Longrightarrow> uo_growth opts = None \<Longrightarrow> uo_amount opts = None \<Longrightarrow>
   keeps_books now (t, c) (cr_current row) d (apply_currency_update_conn now t row opts d)"
  by (simp add: apply_currency_update_conn_def booked_row(1,2) keeps_books_hidden)

lemma show_insert_event [simp]:
  "get_currency_info_one_conn now t c b (insert_event e d) = get_currency_info_one_conn now t c b d"
  by (simp add: get_currency_info_one_conn_def cong: option.case_cong if_cong)

lemma written_balance:
  assumes B: "booked now t c d row" and f: "stores_amount now (written row opts) f"
    and shown: "get_currency_info_one_conn now t c True (update_tc t c f d) = Inr s"
  shows "balance now (update_tc t c f d) (t, c) = Some (written row opts)"
    and "j \<noteq> (t, c) \<Longrightarrow> balance now (update_tc t c f d) j = balance now d j"
proof -
  have "lock_currency_runtime_conn now t c d = Inr (Some row)" using B by (simp add: booked_def)
  then obtain tc cu gf where l: "find_tc d t c = Some tc" "find_currency d c = Some cu"
    "find_feature d (c_game cu) Currency = Some gf" "cr_max row = c_max cu"
    by (rule lock_SomeE) simp
  have new: "find_tc (update_tc t c f d) t c = Some (f tc)"
    using l(1) f by (simp add: find_tc_update stores_amount_def)
  then have "in_i64 (c_growth cu + tc_growth (f tc))"
    using shown l(2,3) by (auto simp: get_currency_info_one_conn_def show_row_def split: if_splits)
  moreover have "written row opts \<le> c_max cu" by (simp add: written_def l(4))
  then have "current_amount (f_state gf) now cu (f tc) = written row opts"
    using f by (auto simp: stores_amount_def current_amount_def clamped_growth_zero)
  ultimately show "balance now (update_tc t c f d) (t, c) = Some (written row opts)"
    using l new by (simp add: balance_account)
  show "balance now (update_tc t c f d) j = balance now d j" if "j \<noteq> (t, c)"
    using that f by (intro balance_update_other) (auto simp: stores_amount_def)
qed

lemma written_entry:
  assumes B: "booked now t c d row" and f: "stores_amount now (written row opts) f"
    and shown: "get_currency_info_one_conn now t c True (update_tc t c f d) = Inr s"
    and "delta = written row opts - cr_current row"
  shows "keeps_books now (t, c) (cr_current row) d
     (insert_event (currency_event ty t u row delta (written row opts)) (update_tc t c f d))"
  using assms(4) written_balance [OF B f shown] by (simp add: keeps_books_def currency_event_def)

lemma written_silent:
  assumes B: "booked now t c d row" and f: "stores_amount now (written row opts) f"
    and shown: "get_currency_info_one_conn now t c True (update_tc t c f d) = Inr s"
    and "written row opts = cr_current row"
  shows "keeps_books now (t, c) (cr_current row) d (update_tc t c f d)"
  using assms(4) written_balance [OF B f shown] by (simp add: keeps_books_def)

lemma update_entry:
  assumes B: "booked now t c d row" and "update_currency_locked now t row opts d = Inr (x, d')"
    and fits: "growth_alone_fits (cr_current row) (cr_max row) opts"
  shows "keeps_books now (t, c) (cr_current row) d d'"
proof (cases "uo_amount opts = None \<and> uo_growth opts = None")
  case True
  with assms update_hides show ?thesis by (auto simp: update_currency_locked_def res_bind_eq_Inr Let_def)
next
  case False
  then obtain f where f: "apply_currency_update_conn now t row opts d = update_tc t c f d"
    "stores_amount now (written row opts) f" using update_stores [OF B] by blast
  show ?thesis
  proof (cases "uo_amount opts")
    case None
    then have "written row opts = cr_current row"
      using False fits by (simp add: written_def growth_alone_fits_def)
    then show ?thesis
      using assms(2) None f(1) written_silent [OF B f(2)] booked_row(2) [OF B]
      by (auto simp: update_currency_locked_def res_bind_eq_Inr Let_def)
  next
    case (Some a)
    then have "min a (cr_max row) = written row opts" by (simp add: written_def)
    then show ?thesis
      using assms(2) Some f(1) written_entry [OF B f(2)] booked_row(2) [OF B]
      by (auto simp: update_currency_locked_def res_bind_eq_Inr Let_def
          insert_backend_currency_update_event_conn_def split: option.splits)
  qed
qed

lemma staff_entry:
  assumes B: "booked now t c d row" and "staff_adjust_currency now g t c a u d = Inr (x, d')" and "in_i64 a"
  shows "keeps_books now (t, c) (cr_current row) d d'"
proof -
  consider "d' = d" | v where "strict_currency_next (cr_current row) (cr_max row) a = Next v"
    "d' = insert_staff_currency_event_conn t row v u (set_amount now t c v d)"
    using assms(2) booked_row(5) [OF B]
    by (auto simp: staff_adjust_currency_def res_bind_eq_Inr Let_def
        split: option.splits if_splits currency_boundary.splits)
  then show ?thesis
  proof cases
    case 1
    then show ?thesis using keeps_books_refl [OF booked_row(1) [OF B]] by simp
  next
    case 2
    from 2(1) have v: "v \<le> cr_max row" "wrap64 (v - cr_current row) = v - cr_current row"
      using assms(3) by (auto simp: strict_currency_next_def split: option.splits if_splits)
    show ?thesis
      unfolding 2(2) insert_staff_currency_event_conn_def
      by (rule amount_entry [OF B booked_row(3) [OF B v(1)] v(2)])
  qed
qed

lemma admin_entry:
  assumes B: "booked now t c d row" and "admin_update_currency now g t c u opts d = Inr (x, d')"
    and fits: "growth_alone_fits (cr_current row) (cr_max row) opts"
    and "\<And>a. uo_amount opts = Some a \<Longrightarrow> in_i64 (min a (cr_max row) - cr_current row)"
  shows "keeps_books now (t, c) (cr_current row) d d'"
proof (cases "cr_game row \<noteq> g")
  case True
  with assms(2) booked_row [OF B] show ?thesis by (simp add: admin_update_currency_def keeps_books_refl)
next
  case game: False
  show ?thesis
  proof (cases "uo_amount opts = None \<and> uo_growth opts = None")
    case True
    with game assms booked_row(5) [OF B] update_hides show ?thesis
      by (auto simp: admin_update_currency_def res_bind_eq_Inr Let_def)
  next
    case False
    then obtain f where f: "apply_currency_update_conn now t row opts d = update_tc t c f d"
      "stores_amount now (written row opts) f" using update_stores [OF B] by blast
    obtain s where shown: "get_currency_info_one_conn now t c True (update_tc t c f d) = Inr s"
      using assms(2) game f(1) booked_row(5) [OF B] by (auto simp: admin_update_currency_def res_bind_eq_Inr Let_def)
    show ?thesis
    proof (cases "uo_amount opts")
      case None
      then have "written row opts = cr_current row"
        using False fits by (simp add: written_def growth_alone_fits_def)
      then show ?thesis
        using assms(2) game None f(1) written_silent [OF B f(2) shown] booked_row(5) [OF B]
        by (auto simp: admin_update_currency_def res_bind_eq_Inr Let_def)
    next
      case (Some a)
      then have w: "min a (cr_max row) = written row opts" "wrap64 (written row opts - cr_current row) = written row opts - cr_current row"
        using assms(4) by (simp_all add: written_def)
      then have "d' = (if written row opts \<noteq> cr_current row
          then insert_staff_currency_event_conn t row (written row opts) u (update_tc t c f d) else update_tc t c f d)"
        using assms(2) game Some f(1) booked_row(5) [OF B]
        by (auto simp: admin_update_currency_def res_bind_eq_Inr Let_def)
      then show ?thesis
        using written_entry [OF B f(2) shown] written_silent [OF B f(2) shown] w(2)
        by (simp add: insert_staff_currency_event_conn_def)
    qed
  qed
qed

section \<open>Properties\<close>

text \<open>
  C26: a sequence of payments never overdraws an account. Paying any list of positive costs from a
  balance \<open>b\<close> succeeds as a transaction, grants some of the costs, leaves exactly \<open>b\<close> less the granted
  ones, which is never negative, and does not touch any other account.
\<close>

theorem costs_never_overdraw:
  assumes "balance now d (t, c) = Some b" and "storable d (t, c) b" and "0 \<le> b" and "in_i64 b"
    and "\<forall>a \<in> set as. 0 < a \<and> in_i64 a"
  shows "\<exists>gs d' b'. cost_all now t c as d = Inr (gs, d') \<and> balance now d' (t, c) = Some b'
    \<and> b' = b - sum_list (map fst (filter snd (zip as gs))) \<and> 0 \<le> b'
    \<and> (\<forall>k. k \<noteq> (t, c) \<longrightarrow> balance now d' k = balance now d k)"
proof -
  obtain gs d' where p: "team_purse.pays now (t, c) as d = (gs, d')" by (cases "team_purse.pays now (t, c) as d")
  have "cost_all now t c as d = Inr (gs, d')"
    using cost_all_pays [OF assms(5,1,2,3,4)] p by simp
  moreover obtain b' where "balance now d' (t, c) = Some b'" "0 \<le> b'"
    "b' = b - sum_list (map fst (filter snd (zip as gs)))"
    "\<forall>k. k \<noteq> (t, c) \<longrightarrow> balance now d' k = balance now d k"
    using team_purse.pays_sum [OF assms(1,2,3), of "as"] assms(5) p by auto
  ultimately show ?thesis by blast
qed

text \<open>A small game: currency 5 (10 a minute, at most 1000) and one account of team 3 holding 40.\<close>

definition purse_db :: "int \<Rightarrow> db" where
  "purse_db state = empty_db\<lparr>
     features := [\<lparr>f_game = 2, f_type = 4, f_state = state, f_phase = None, f_utime = 0\<rparr>],
     currencies := [\<lparr>c_id = 5, c_game = 2, c_slug = lit ''gold'', c_growth = 10, c_init_amount = 0,
       c_init_hidden = False, c_max = 1000\<rparr>],
     team_currencies := [\<lparr>tc_team = 3, tc_currency = 5, tc_amount = 40, tc_growth = 0,
       tc_hidden = False, tc_utime = 0\<rparr>]\<rparr>"

lemma purse_db_finds [simp]:
  "find_tc (purse_db st) 3 5 = Some \<lparr>tc_team = 3, tc_currency = 5, tc_amount = 40, tc_growth = 0,
       tc_hidden = False, tc_utime = 0\<rparr>"
  "find_currency (purse_db st) 5 = Some \<lparr>c_id = 5, c_game = 2, c_slug = lit ''gold'', c_growth = 10,
     c_init_amount = 0, c_init_hidden = False, c_max = 1000\<rparr>"
  "find_feature (purse_db st) 2 Currency = Some \<lparr>f_game = 2, f_type = 4, f_state = st, f_phase = None,
     f_utime = 0\<rparr>"
  by (simp_all add: purse_db_def empty_db_def find_tc_def is_tc_def find_currency_def find_feature_def)

lemma purse_db_balance: "balance 120000000 (purse_db 1) (3, 5) = Some 60"
  by (simp add: balance_def lock_currency_runtime_conn_def runtime_of_def i64_defs
      current_amount_def clamped_growth_def minutes_between_def)

lemma costs_never_overdraw_witness:
  "\<exists>gs d' b'. cost_all 120000000 3 5 [30, 50, 20] (purse_db 1) = Inr (gs, d')
    \<and> balance 120000000 d' (3, 5) = Some b' \<and> b' = 60 - sum_list (map fst (filter snd (zip [30, 50, 20] gs)))
    \<and> 0 \<le> b' \<and> (\<forall>k. k \<noteq> (3, 5) \<longrightarrow> balance 120000000 d' k = balance 120000000 (purse_db 1) k)"
  by (rule costs_never_overdraw) (simp_all add: purse_db_balance storable_def i64_defs)

text \<open>
  C7: the event log of a currency is its ledger. Whatever operation changes an amount (a cost, a
  reward, an update of amount, growth or visibility by a script or by an administrator, an adjustment
  by the staff), unless the differences it computes leave 64 bits or the growth alone is changed while
  the balance found is above the currency's maximum: either it logs nothing and the balance stays, or
  it logs one event whose \<open>before\<close> is the balance found, whose \<open>after\<close> is the balance left and whose
  \<open>delta\<close> is their difference; the other accounts keep theirs.
\<close>

theorem currency_events_keep_the_books:
  assumes "run_currency_op now t c op d = Inr d'" and "balance now d (t, c) = Some b"
    and "storable d (t, c) b" and "in_i64 b" and "\<forall>cu. find_currency d c = Some cu \<longrightarrow> 0 \<le> c_max cu \<and> op_in_range b (c_max cu) op"
  shows "keeps_books now (t, c) b d d'"
proof -
  from assms(2) obtain r where lk: "lock_currency_runtime_conn now t c d = Inr (Some r)"
    and b: "cr_current r = b" by (auto simp: balance_Some)
  then have "0 \<le> cr_max r" and rng: "op_in_range b (cr_max r) op"
    using assms(5) by (auto elim: lock_SomeE)
  then have B: "booked now t c d r" using lk b assms(3,4) by (simp add: booked_def)
  show ?thesis
  proof (cases op)
    case (OpCost a)
    with assms(1) lk b cost_entry [OF B, of a] show ?thesis
      by (auto simp: cost_currency_conn_def split: prod.splits)
  next
    case (OpAdd a)
    with assms(1) lk b rng show ?thesis
      by (auto simp: add_currency_conn_def res_bind_eq_Inr dest: add_entry [OF B])
  next
    case (OpUpdate opts)
    with assms(1) lk b rng show ?thesis
      by (auto simp: update_currency_conn_def res_bind_eq_Inr dest: update_entry [OF B])
  next
    case (OpStaff g a u)
    with assms(1) b rng show ?thesis by (auto simp: res_bind_eq_Inr dest: staff_entry [OF B])
  next
    case (OpAdmin g u opts)
    with assms(1) obtain x where x: "admin_update_currency now g t c u opts d = Inr (x, d')"
      by (auto simp: res_bind_eq_Inr)
    show ?thesis unfolding b [symmetric]
      by (rule admin_entry [OF B x]) (use OpAdmin rng b in auto)
  qed
qed

lemma currency_events_keep_the_books_witness:
  "\<exists>d'. run_currency_op 120000000 3 5 (OpCost 25) (purse_db 1) = Inr d'
    \<and> keeps_books 120000000 (3, 5) 60 (purse_db 1) d'"
proof -
  obtain row where "lock_currency_runtime_conn 120000000 3 5 (purse_db 1) = Inr (Some row)"
    using purse_db_balance by (auto simp: balance_Some)
  then obtain d' where "run_currency_op 120000000 3 5 (OpCost 25) (purse_db 1) = Inr d'"
    by (cases "cost_currency_locked_conn 120000000 3 row 25 (purse_db 1)") (simp add: cost_currency_conn_def)
  moreover from this have "keeps_books 120000000 (3, 5) 60 (purse_db 1) d'"
    by (rule currency_events_keep_the_books) (simp_all add: purse_db_balance storable_def i64_defs)
  ultimately show ?thesis by blast
qed

text \<open>
  While the currency of a game is closed nothing grows, and nothing is lost by closing it. An
  account that holds \<open>b\<close> when the currency closes (by hand or by a phase) holds \<open>b\<close> at every later
  time until it reopens, and after reopening it is \<open>b\<close> plus the growth of the minutes since the
  reopening: the time in between is not counted.
\<close>

theorem closing_freezes_amounts:
  assumes "set_state_conn g \<lparr>fc_feature = Currency, fc_state = Closed\<rparr> ph actor at d = Inr (True, d1)"
    and "set_state_conn g \<lparr>fc_feature = Currency, fc_state = Opened\<rparr> ph' actor' at' d1 = Inr (True, d2)"
    and "find_tc d t c = Some tc" and "find_currency d c = Some cu" and "c_game cu = g"
    and "feature_is d g Currency 1" and "tc_utime tc \<le> at" and "at \<le> at'"
  shows "\<exists>b. balance at d (t, c) = Some b \<and> balance now d1 (t, c) = Some b
    \<and> balance now d2 (t, c) =
        Some (clamped_growth b (minutes_between now at') (c_growth cu + tc_growth tc) (c_max cu))"
proof -
  note c = close_account [OF assms(1,3,4,5)]
  then have t1: "find_tc d1 t c = Some (settle_row cu at tc)" and cu1: "find_currency d1 c = Some cu"
    using assms(4) by (simp_all add: find_currency_def)
  note o = open_account [OF assms(2) t1 cu1 assms(5)]
  then have t2: "find_tc d2 t c = Some ((settle_row cu at tc)\<lparr>tc_utime := max (tc_utime (settle_row cu at tc)) at'\<rparr>)"
    and cu2: "find_currency d2 c = Some cu"
    using cu1 by (simp_all add: find_currency_def)
  obtain f0 f1 f2 where f: "find_feature d (c_game cu) Currency = Some f0" "f_state f0 = 1"
      "find_feature d1 (c_game cu) Currency = Some f1" "f_state f1 = 0"
      "find_feature d2 (c_game cu) Currency = Some f2" "f_state f2 = 1"
    using assms(5,6) c o by (auto simp: feature_is_def split: option.splits)
  have g: "in_i64 (c_growth cu + tc_growth tc)" using c by simp
  have sg: "tc_growth (settle_row cu at tc) = tc_growth tc" by (simp add: settle_row_def)
  have u: "max (tc_utime (settle_row cu at tc)) at' = at'" using assms(7,8) by (simp add: settle_row_def)
  have amt: "current_amount 1 at cu tc = tc_amount (settle_row cu at tc)"
    using minutes_nonneg [OF assms(7)] by (simp add: current_amount_def settle_row_def max_def)
  show ?thesis
    using balance_account [OF assms(3,4) f(1) g, of at]
      balance_account [OF t1 cu1 f(3), of now] balance_account [OF t2 cu2 f(5), of now] f(2,4,6) g sg u amt
    by (auto simp: current_amount_def)
qed

lemma closing_freezes_amounts_witness:
  "\<exists>d1 d2. set_state_conn 2 \<lparr>fc_feature = Currency, fc_state = Closed\<rparr> None (Some 9) 120000000 (purse_db 1) = Inr (True, d1)
    \<and> set_state_conn 2 \<lparr>fc_feature = Currency, fc_state = Opened\<rparr> None (Some 9) 600000000 d1 = Inr (True, d2)
    \<and> balance 600000000 d1 (3, 5) = Some 60 \<and> balance 660000000 d2 (3, 5) = Some 70"
proof -
  let ?close = "set_state_conn 2 \<lparr>fc_feature = Currency, fc_state = Closed\<rparr> None (Some 9) 120000000 (purse_db 1)"
  obtain d1 where c: "?close = Inr (True, d1)"
    by (auto simp: set_state_conn_def currency_step_def settle_currency_growth_conn_def currency_in_def
        purse_db_def empty_db_def find_feature_def find_currency_def i64_defs)
  have "\<exists>gf. find_feature d1 2 Currency = Some gf \<and> f_state gf = 0"
    using close_account [OF c, of 3 5] by simp
  then obtain d2 where o: "set_state_conn 2 \<lparr>fc_feature = Currency, fc_state = Opened\<rparr> None (Some 9) 600000000 d1 = Inr (True, d2)"
    by (auto simp: set_state_conn_def currency_step_def)
  have "\<exists>b. balance 120000000 (purse_db 1) (3, 5) = Some b \<and> balance now d1 (3, 5) = Some b
    \<and> balance now d2 (3, 5) = Some (clamped_growth b (minutes_between now 600000000) (10 + 0) 1000)" for now
    using closing_freezes_amounts [OF c o purse_db_finds(1,2), of now] by (simp add: feature_is_def)
  from this [of 600000000] this [of 660000000] c o show ?thesis
    by (auto simp: purse_db_balance clamped_growth_def minutes_between_def)
qed

end
