(* ===== verification/Gates.thy ===== *)
theory Gates
  imports Feature Expr_Cache
begin

text \<open>
  Where the predicate language meets the database (\<^verbatim>\<open>src/db/puzzle.rs\<close>): the gate state of a team,
  unlocking puzzles, and refreshing what a team sees of the hints. Compilation goes through the
  uncached function, which the cache is proved to agree with. Identifiers are naturals; \<open>to_i32\<close> is
  the code's \<open>try_into().unwrap_or(i32::MAX)\<close>.
\<close>

section \<open>The gate state of a team\<close>

definition to_i32 :: "nat \<Rightarrow> nat" where
  "to_i32 i = (if i \<le> 2147483647 then i else 2147483647)"

definition find_team :: "db \<Rightarrow> nat \<Rightarrow> team_row option" where
  "find_team d team_id = find (\<lambda>t. t_id t = team_id) (teams d)"

definition find_puzzle :: "db \<Rightarrow> nat \<Rightarrow> puzzle_row option" where
  "find_puzzle d puzzle_id = find (\<lambda>p. p_id p = puzzle_id) (puzzles d)"

definition find_round :: "db \<Rightarrow> nat \<Rightarrow> round_row option" where
  "find_round d round_id = find (\<lambda>r. r_id r = round_id) (rounds d)"

definition find_tp :: "db \<Rightarrow> nat \<Rightarrow> nat \<Rightarrow> team_puzzle_row option" where
  "find_tp d team_id puzzle_id =
     find (\<lambda>tp. tp_team tp = team_id \<and> tp_puzzle tp = puzzle_id) (team_puzzles d)"

text \<open>A map filled by inserting the pairs in order: the last one for a key wins.\<close>

definition collect_map :: "('k \<times> 'v) list \<Rightarrow> 'k \<Rightarrow> 'v option" where
  "collect_map kvs = map_of (rev kvs)"

definition slug_pair :: "ustr option \<Rightarrow> nat \<Rightarrow> (ustr \<times> nat) list" where
  "slug_pair slug i = (case slug of None \<Rightarrow> [] | Some s \<Rightarrow> [(s, i)])"

text \<open>The puzzles joined with their rounds, in the order of the query.\<close>

definition joined_puzzles :: "(puzzle_row \<Rightarrow> round_row \<Rightarrow> bool) \<Rightarrow> db \<Rightarrow> (puzzle_row \<times> round_row) list" where
  "joined_puzzles sel d =
     sort_key (\<lambda>(p, r). (r_sort r, r_id r, r_puzzle r \<noteq> Some (p_id p), p_sort p, p_id p))
       (concat (map (\<lambda>p. case find_round d (p_round p) of
            None \<Rightarrow> [] | Some r \<Rightarrow> if sel p r then [(p, r)] else []) (puzzles d)))"

definition round_members :: "(puzzle_row \<times> round_row) list \<Rightarrow> nat \<Rightarrow> nat list option" where
  "round_members rows rid =
     (let xs = map (\<lambda>(p, r). p_id p)
        (filter (\<lambda>(p, r). p_round p = rid \<and> r_puzzle r \<noteq> Some (p_id p)) rows)
      in if xs = [] then None else Some xs)"

definition make_states ::
  "nat list \<Rightarrow> (nat \<times> ustr) list \<Rightarrow> round_row list \<Rightarrow> (puzzle_row \<times> round_row) list \<Rightarrow> bool
    \<Rightarrow> puzzle_states" where
  "make_states solved_ids trigs round_rows rows started =
     \<lparr>is_solved = (\<lambda>i. to_i32 i \<in> set solved_ids), solved = solved_ids,
      puzzle_slug = collect_map (concat (map (\<lambda>(p, r). slug_pair (p_slug p) (p_id p)) rows)),
      round_slug = collect_map (concat (map (\<lambda>r. slug_pair (r_slug r) (r_id r)) round_rows)),
      round_puzzles = round_members rows,
      game_started = started,
      is_triggered = (\<lambda>i key. (to_i32 i, key) \<in> set trigs)\<rparr>"

definition solved_ids :: "db \<Rightarrow> nat \<Rightarrow> nat list" where
  "solved_ids d team_id = map tp_puzzle (filter (\<lambda>tp. tp_team tp = team_id \<and> tp_state tp \<ge> 1) (team_puzzles d))"

definition trigger_pairs :: "db \<Rightarrow> nat \<Rightarrow> (nat \<times> ustr) list" where
  "trigger_pairs d team_id =
     map (\<lambda>tg. (tg_puzzle tg, tg_key tg)) (filter (\<lambda>tg. tg_team tg = team_id) (triggers d))"

definition game_rounds :: "db \<Rightarrow> nat \<Rightarrow> round_row list" where
  "game_rounds d g = filter (\<lambda>r. r_game r = g) (rounds d)"

definition team_gate_state_conn :: "db \<Rightarrow> nat \<Rightarrow> puzzle_states option" where
  "team_gate_state_conn d team_id =
     (case find_team d team_id of
        None \<Rightarrow> None
      | Some team \<Rightarrow>
          Some (make_states (solved_ids d team_id) (trigger_pairs d team_id) (game_rounds d (t_game team))
            (joined_puzzles (\<lambda>p r. p_game p = t_game team) d) (t_start team \<noteq> None)))"

text \<open>The state is loaded at most once in a transaction: \<open>None\<close> while it has not been loaded.\<close>

type_synonym gate_cache = "puzzle_states option option"

definition load_team_gate_state_once :: "db \<Rightarrow> nat \<Rightarrow> gate_cache \<Rightarrow> gate_cache" where
  "load_team_gate_state_once d team_id cache =
     (case cache of None \<Rightarrow> Some (team_gate_state_conn d team_id) | Some s \<Rightarrow> Some s)"

definition loaded_state :: "gate_cache \<Rightarrow> puzzle_states option" where
  "loaded_state cache = (case cache of None \<Rightarrow> None | Some s \<Rightarrow> s)"

definition gate_holds :: "puzzle_states \<Rightarrow> ustr \<Rightarrow> bool" where
  "gate_holds state cond =
     (case compile_gate_expr_uncached cond of Inl e \<Rightarrow> False | Inr g \<Rightarrow> eval_compiled state g)"

section \<open>Releases and unlocking\<close>

definition effective_release :: "db \<Rightarrow> nat \<Rightarrow> time option" where
  "effective_release d puzzle_id =
     (case find_puzzle d puzzle_id of
        None \<Rightarrow> None
      | Some p \<Rightarrow>
          (case p_immediate_release p of
             Some t \<Rightarrow> Some t
           | None \<Rightarrow>
               (case p_release_phase p of
                  None \<Rightarrow> None
                | Some ph \<Rightarrow> map_option ph_release_at (find (\<lambda>r. ph_id r = ph) (phases d)))))"

definition released :: "time \<Rightarrow> db \<Rightarrow> nat \<Rightarrow> bool" where
  "released now d puzzle_id = (case effective_release d puzzle_id of None \<Rightarrow> False | Some t \<Rightarrow> t \<le> now)"

definition mark_team_dirty_conn :: "nat \<Rightarrow> db \<Rightarrow> db" where
  "mark_team_dirty_conn team_id d =
     d\<lparr>teams := update_rows (\<lambda>t. t_id t = team_id) (\<lambda>t. t\<lparr>t_dirty := True\<rparr>) (teams d)\<rparr>"

definition fresh_tp :: "time \<Rightarrow> nat \<Rightarrow> nat \<Rightarrow> team_puzzle_row" where
  "fresh_tp now team_id puzzle_id = \<lparr>tp_team = team_id, tp_puzzle = puzzle_id, tp_state = 0,
     tp_max_submit = 0, tp_ctime = now, tp_solve_at = None, tp_cooldown_till = None\<rparr>"

definition tp_key :: "team_puzzle_row \<Rightarrow> nat \<times> nat" where
  "tp_key tp = (tp_team tp, tp_puzzle tp)"

text \<open>The puzzles of the game whose condition compiles, is met, and that are not solved.\<close>

definition unlockable :: "db \<Rightarrow> nat \<Rightarrow> team_row \<Rightarrow> nat list" where
  "unlockable d team_id team =
     (let rows = joined_puzzles (\<lambda>p r. r_game r = t_game team) d;
          state = make_states (solved_ids d team_id) (trigger_pairs d team_id)
            (game_rounds d (t_game team)) rows (t_start team \<noteq> None)
      in map (\<lambda>(p, r). p_id p)
           (filter (\<lambda>(p, r). (case p_unlock_cond p of None \<Rightarrow> False | Some c \<Rightarrow> gate_holds state c)
                      \<and> \<not> is_solved state (p_id p)) rows))"

definition unlocked_event :: "nat \<Rightarrow> nat \<Rightarrow> nat \<Rightarrow> event_row" where
  "unlocked_event game_id team_id puzzle_id =
     (blank_event ''puzzle.unlocked'')\<lparr>ev_game := Some game_id, ev_team := Some team_id,
       ev_puzzle := Some puzzle_id\<rparr>"

definition unlock_new_puzzles :: "time \<Rightarrow> nat \<Rightarrow> db \<Rightarrow> nat list \<times> db" where
  "unlock_new_puzzles now team_id d =
     (case find_team d team_id of
        None \<Rightarrow> ([], d)
      | Some team \<Rightarrow>
          (let unlocks = unlockable d team_id team;
               tps = insert_new tp_key (team_puzzles d) (map (fresh_tp now team_id) unlocks);
               inserted = map tp_puzzle (drop (length (team_puzzles d)) tps);
               d1 = d\<lparr>team_puzzles := tps\<rparr>;
               d2 = (if inserted = [] then d1 else mark_team_dirty_conn team_id d1)
           in (inserted, d2\<lparr>events := events d2 @ map (unlocked_event (t_game team) team_id) inserted\<rparr>)))"

section \<open>Hints\<close>

definition has_enable :: "db \<Rightarrow> nat \<Rightarrow> nat \<Rightarrow> bool" where
  "has_enable d team_id hint_id = exists_row (\<lambda>e. he_team e = team_id \<and> he_hint e = hint_id) (hint_enables d)"

definition purchased :: "db \<Rightarrow> nat \<Rightarrow> nat \<Rightarrow> bool" where
  "purchased d team_id hint_id =
     exists_row (\<lambda>th. th_team th = team_id \<and> th_hint th = hint_id \<and> th_unlocked th) (team_hints d)"

definition find_visibility :: "db \<Rightarrow> nat \<Rightarrow> nat \<Rightarrow> hint_visibility_row option" where
  "find_visibility d team_id hint_id =
     find (\<lambda>v. hv_team v = team_id \<and> hv_hint v = hint_id) (hint_visibility d)"

definition displayed_at :: "db \<Rightarrow> nat \<Rightarrow> nat \<Rightarrow> time option" where
  "displayed_at d team_id hint_id =
     (case find_visibility d team_id hint_id of None \<Rightarrow> None | Some v \<Rightarrow> hv_displayed v)"

definition title_displayed_at :: "db \<Rightarrow> nat \<Rightarrow> nat \<Rightarrow> time option" where
  "title_displayed_at d team_id hint_id =
     (case find_visibility d team_id hint_id of None \<Rightarrow> None | Some v \<Rightarrow> hv_title_displayed v)"

definition enabled_at :: "db \<Rightarrow> nat \<Rightarrow> nat \<Rightarrow> time option" where
  "enabled_at d team_id hint_id =
     map_option he_at (find (\<lambda>e. he_team e = team_id \<and> he_hint e = hint_id) (hint_enables d))"

definition hint_enabled :: "db \<Rightarrow> nat \<Rightarrow> hint_row \<Rightarrow> bool" where
  "hint_enabled d team_id h \<longleftrightarrow> h_enable_cond h = None \<or> has_enable d team_id (h_id h)"

definition tp_open :: "db \<Rightarrow> nat \<Rightarrow> nat \<Rightarrow> bool" where
  "tp_open d team_id puzzle_id =
     (case find_tp d team_id puzzle_id of None \<Rightarrow> False | Some tp \<Rightarrow> tp_state tp \<ge> 0)"

text \<open>The join the refresh queries share: the puzzle is released and open to the team.\<close>

definition hint_reachable :: "time \<Rightarrow> db \<Rightarrow> nat \<Rightarrow> nat option \<Rightarrow> hint_row \<Rightarrow> bool" where
  "hint_reachable now d team_id only h \<longleftrightarrow>
     released now d (h_puzzle h) \<and> tp_open d team_id (h_puzzle h)
     \<and> \<not> purchased d team_id (h_id h) \<and> (only = None \<or> only = Some (h_puzzle h))"

definition hint_enable_key :: "hint_enable_row \<Rightarrow> nat \<times> nat" where
  "hint_enable_key e = (he_team e, he_hint e)"

definition add_enables :: "time \<Rightarrow> nat \<Rightarrow> nat list \<Rightarrow> db \<Rightarrow> db" where
  "add_enables now team_id ids d =
     d\<lparr>hint_enables := insert_new hint_enable_key (hint_enables d)
        (map (\<lambda>i. \<lparr>he_team = team_id, he_hint = i, he_at = now\<rparr>) ids)\<rparr>"

definition refresh_team_hint_enablements_conn ::
  "time \<Rightarrow> nat \<Rightarrow> nat option \<Rightarrow> gate_cache \<Rightarrow> db \<Rightarrow> gate_cache \<times> db" where
  "refresh_team_hint_enablements_conn now team_id only cache d =
     (let pending = filter (\<lambda>h. h_enable_cond h \<noteq> None \<and> \<not> has_enable d team_id (h_id h)
            \<and> hint_reachable now d team_id only h) (sort_key h_id (hints d));
          cache' = (if pending = [] then cache else load_team_gate_state_once d team_id cache);
          ids = (case loaded_state cache' of
              None \<Rightarrow> []
            | Some state \<Rightarrow>
                map h_id (filter (\<lambda>h. case h_enable_cond h of
                    None \<Rightarrow> False | Some c \<Rightarrow> gate_holds state c) pending))
      in (cache', add_enables now team_id ids d))"

definition refresh_team_hint_enablements :: "time \<Rightarrow> nat \<Rightarrow> nat option \<Rightarrow> db \<Rightarrow> db" where
  "refresh_team_hint_enablements now team_id only d =
     snd (refresh_team_hint_enablements_conn now team_id only None d)"

definition hint_display_condition_met ::
  "ustr option \<Rightarrow> bool \<Rightarrow> puzzle_states option \<Rightarrow> bool \<Rightarrow> bool \<Rightarrow> bool" where
  "hint_display_condition_met condition dflt state enabled cooldown_complete =
     (case condition of
        None \<Rightarrow> dflt
      | Some c \<Rightarrow>
          (case state of
             None \<Rightarrow> False
           | Some s \<Rightarrow>
               (case compile_hint_display_expr_uncached c of
                  Inl e \<Rightarrow> False
                | Inr g \<Rightarrow> eval_hint_display_compiled s g enabled cooldown_complete)))"

definition hint_field_visible ::
  "ustr option \<Rightarrow> bool \<Rightarrow> puzzle_states option \<Rightarrow> bool \<Rightarrow> bool \<Rightarrow> bool \<Rightarrow> bool" where
  "hint_field_visible condition dflt state bought enabled cooldown_complete \<longleftrightarrow>
     bought \<or> hint_display_condition_met condition dflt state enabled cooldown_complete"

definition hint_purchase_available :: "ustr option \<Rightarrow> puzzle_states \<Rightarrow> bool \<Rightarrow> bool \<Rightarrow> bool" where
  "hint_purchase_available display_condition state enabled cooldown_complete \<longleftrightarrow>
     enabled \<and> cooldown_complete
     \<and> hint_display_condition_met display_condition True (Some state) enabled cooldown_complete"

definition display_pending :: "db \<Rightarrow> nat \<Rightarrow> hint_row \<Rightarrow> bool" where
  "display_pending d team_id h \<longleftrightarrow> h_cooldown_origin h = 2 \<and> displayed_at d team_id (h_id h) = None"

definition title_display_pending :: "db \<Rightarrow> nat \<Rightarrow> hint_row \<Rightarrow> bool" where
  "title_display_pending d team_id h \<longleftrightarrow>
     h_cooldown_origin h = 3 \<and> title_displayed_at d team_id (h_id h) = None"

definition newly_enabled :: "db \<Rightarrow> nat \<Rightarrow> puzzle_states \<Rightarrow> hint_row \<Rightarrow> bool" where
  "newly_enabled d team_id state h \<longleftrightarrow> \<not> hint_enabled d team_id h
     \<and> (case h_enable_cond h of None \<Rightarrow> False | Some c \<Rightarrow> gate_holds state c)"

text \<open>Whether the hint (\<open>True\<close>) or its title (\<open>False\<close>) has just become visible.\<close>

definition newly_visible :: "db \<Rightarrow> nat \<Rightarrow> puzzle_states \<Rightarrow> hint_row \<Rightarrow> bool option" where
  "newly_visible d team_id state h =
     (let enabled = hint_enabled d team_id h \<or> newly_enabled d team_id state h in
      if display_pending d team_id h then
        (if hint_display_condition_met (h_display h) True (Some state) enabled False then Some True else None)
      else if title_display_pending d team_id h then
        (if hint_display_condition_met (h_title_display h) False (Some state) enabled False
         then Some False else None)
      else None)"

definition or_else :: "'a option \<Rightarrow> 'a option \<Rightarrow> 'a option" where
  "or_else x y = (case x of None \<Rightarrow> y | Some v \<Rightarrow> Some v)"

definition upsert_visibility ::
  "time \<Rightarrow> nat \<Rightarrow> nat \<times> bool \<Rightarrow> hint_visibility_row list \<Rightarrow> hint_visibility_row list" where
  "upsert_visibility now team_id x rows =
     (let (hint_id, disp) = x;
          displayed = (if disp then Some now else None);
          titled = (if disp then None else Some now)
      in if exists_row (\<lambda>v. hv_team v = team_id \<and> hv_hint v = hint_id) rows
         then update_rows (\<lambda>v. hv_team v = team_id \<and> hv_hint v = hint_id)
                (\<lambda>v. v\<lparr>hv_displayed := or_else (hv_displayed v) displayed,
                        hv_title_displayed := or_else (hv_title_displayed v) titled\<rparr>) rows
         else rows @ [\<lparr>hv_team = team_id, hv_hint = hint_id, hv_displayed = displayed,
                hv_title_displayed = titled\<rparr>])"

definition refresh_team_hint_states_conn ::
  "time \<Rightarrow> nat \<Rightarrow> nat option \<Rightarrow> gate_cache \<Rightarrow> db \<Rightarrow> gate_cache \<times> db" where
  "refresh_team_hint_states_conn now team_id only cache d =
     (let pending = filter (\<lambda>h.
            ((h_enable_cond h \<noteq> None \<and> \<not> has_enable d team_id (h_id h))
             \<or> display_pending d team_id h \<or> title_display_pending d team_id h)
            \<and> hint_reachable now d team_id only h) (sort_key h_id (hints d));
          cache' = (if pending = [] then cache else load_team_gate_state_once d team_id cache)
      in case loaded_state cache' of
           None \<Rightarrow> (cache', d)
         | Some state \<Rightarrow>
             (let ids = map h_id (filter (newly_enabled d team_id state) pending);
                  shown = concat (map (\<lambda>h. case newly_visible d team_id state h of
                      None \<Rightarrow> [] | Some disp \<Rightarrow> [(h_id h, disp)]) pending);
                  d1 = add_enables now team_id ids d
              in (cache', d1\<lparr>hint_visibility :=
                    fold (upsert_visibility now team_id) shown (hint_visibility d1)\<rparr>)))"

definition refresh_team_hint_states :: "time \<Rightarrow> nat \<Rightarrow> nat option \<Rightarrow> db \<Rightarrow> db" where
  "refresh_team_hint_states now team_id only d =
     snd (refresh_team_hint_states_conn now team_id only None d)"

section \<open>Lemmas\<close>

text \<open>What the gate state and the release view read is left alone by unlocking and by the refreshes.\<close>

definition same_gates :: "db \<Rightarrow> db \<Rightarrow> nat \<Rightarrow> bool" where
  "same_gates d d' team_id \<longleftrightarrow>
     solved_ids d' team_id = solved_ids d team_id \<and> triggers d' = triggers d \<and> rounds d' = rounds d
     \<and> puzzles d' = puzzles d
     \<and> map_option (\<lambda>t. (t_game t, t_start t)) (find_team d' team_id)
        = map_option (\<lambda>t. (t_game t, t_start t)) (find_team d team_id)"

lemma same_gates_refl [simp]: "same_gates d d t"
  by (simp add: same_gates_def)

lemma same_gates_trans: "same_gates d d' t \<Longrightarrow> same_gates d' d'' t \<Longrightarrow> same_gates d d'' t"
  by (simp add: same_gates_def)

lemma same_gates_joined: "same_gates d d' t \<Longrightarrow> joined_puzzles sel d' = joined_puzzles sel d"
  by (simp add: same_gates_def joined_puzzles_def find_round_def)

lemma same_gates_found:
  assumes "same_gates d d' t" and "find_team d t = Some team"
  obtains team' where "find_team d' t = Some team'" "t_game team' = t_game team" "t_start team' = t_start team"
  using assms by (cases "find_team d' t") (simp_all add: same_gates_def)

lemma same_gates_state:
  assumes "same_gates d d' t"
  shows "team_gate_state_conn d' t = team_gate_state_conn d t"
proof (cases "find_team d t")
  case None
  then have "find_team d' t = None" using assms by (simp add: same_gates_def)
  with None show ?thesis by (simp add: team_gate_state_conn_def)
next
  case (Some team)
  then obtain team' where t: "find_team d' t = Some team'" "t_game team' = t_game team"
    "t_start team' = t_start team" using same_gates_found [OF assms] by blast
  have "trigger_pairs d' t = trigger_pairs d t" "game_rounds d' = game_rounds d"
    "solved_ids d' t = solved_ids d t"
    using assms by (simp_all add: same_gates_def trigger_pairs_def game_rounds_def fun_eq_iff)
  with Some t same_gates_joined [OF assms] show ?thesis by (simp add: team_gate_state_conn_def)
qed

lemma same_gates_unlockable:
  assumes "same_gates d d' t" and "t_game team' = t_game team" and "t_start team' = t_start team"
  shows "unlockable d' t team' = unlockable d t team"
proof -
  have "trigger_pairs d' t = trigger_pairs d t" "game_rounds d' = game_rounds d"
    "solved_ids d' t = solved_ids d t"
    using assms by (simp_all add: same_gates_def trigger_pairs_def game_rounds_def fun_eq_iff)
  with assms(2,3) same_gates_joined [OF assms(1)] show ?thesis by (simp add: unlockable_def)
qed

lemma find_team_dirty:
  "find_team (mark_team_dirty_conn i d) t =
   map_option (\<lambda>r. if t = i then r\<lparr>t_dirty := True\<rparr> else r) (find_team d t)"
proof (cases "t = i")
  case True
  then show ?thesis
    by (auto simp: find_team_def mark_team_dirty_conn_def intro!: find_update_rows)
next
  case False
  then show ?thesis
    by (auto simp: find_team_def mark_team_dirty_conn_def option.map_ident
        intro!: find_update_rows_other)
qed

lemma mark_dirty_frame [simp]:
  "team_puzzles (mark_team_dirty_conn i d) = team_puzzles d"
  "triggers (mark_team_dirty_conn i d) = triggers d"
  "rounds (mark_team_dirty_conn i d) = rounds d"
  "puzzles (mark_team_dirty_conn i d) = puzzles d"
  "events (mark_team_dirty_conn i d) = events d"
  "members (mark_team_dirty_conn i d) = members d"
  "team_currencies (mark_team_dirty_conn i d) = team_currencies d"
  "submissions (mark_team_dirty_conn i d) = submissions d"
  by (simp_all add: mark_team_dirty_conn_def)

lemma same_gates_dirty: "same_gates d (mark_team_dirty_conn i d) t"
  by (cases "find_team d t") (simp_all add: same_gates_def find_team_dirty solved_ids_def)

lemma solved_ids_insert_new:
  assumes "\<forall>x \<in> set xs. tp_state x < 1"
  shows "map tp_puzzle (filter (\<lambda>tp. tp_team tp = t \<and> tp_state tp \<ge> 1) (insert_new tp_key rs xs))
    = map tp_puzzle (filter (\<lambda>tp. tp_team tp = t \<and> tp_state tp \<ge> 1) rs)"
proof -
  obtain ys where ys: "insert_new tp_key rs xs = rs @ ys" "set ys \<subseteq> set xs"
    using insert_new_prefix [of tp_key rs xs] by blast
  then have "filter (\<lambda>tp. tp_team tp = t \<and> tp_state tp \<ge> 1) ys = []"
    using assms by (fastforce simp: filter_empty_conv)
  with ys(1) show ?thesis by simp
qed

lemma unlock_rows:
  assumes "find_team d t = Some team"
  shows "team_puzzles (snd (unlock_new_puzzles now t d))
    = insert_new tp_key (team_puzzles d) (map (fresh_tp now t) (unlockable d t team))"
  using assms by (simp add: unlock_new_puzzles_def Let_def)

lemma find_team_frame [simp]:
  "find_team (d\<lparr>team_puzzles := x\<rparr>) t = find_team d t"
  "find_team (d\<lparr>events := y\<rparr>) t = find_team d t"
  by (simp_all add: find_team_def)

lemma unlock_same_gates: "same_gates d (snd (unlock_new_puzzles now t d)) t"
proof (cases "find_team d t")
  case None
  then show ?thesis by (simp add: unlock_new_puzzles_def)
next
  case (Some team)
  have "solved_ids (snd (unlock_new_puzzles now t d)) t = solved_ids d t"
    unfolding solved_ids_def unlock_rows [OF Some]
    by (rule solved_ids_insert_new) (auto simp: fresh_tp_def)
  moreover have "map_option (\<lambda>t. (t_game t, t_start t)) (find_team (snd (unlock_new_puzzles now t d)) t)
      = Some (t_game team, t_start team)"
    using Some
    by (cases "map tp_puzzle (drop (length (team_puzzles d)) (insert_new tp_key (team_puzzles d)
        (map (fresh_tp now t) (unlockable d t team)))) = []")
      (simp_all add: unlock_new_puzzles_def Let_def find_team_dirty)
  moreover have "triggers (snd (unlock_new_puzzles now t d)) = triggers d"
    "rounds (snd (unlock_new_puzzles now t d)) = rounds d"
    "puzzles (snd (unlock_new_puzzles now t d)) = puzzles d"
    using Some by (simp_all add: unlock_new_puzzles_def Let_def)
  ultimately show ?thesis using Some unfolding same_gates_def by simp
qed

lemma tp_keys_fresh: "tp_key ` set (map (fresh_tp now t) xs) = Pair t ` set xs"
  by (force simp: fresh_tp_def tp_key_def image_iff)

section \<open>Refreshing keeps the time stamps\<close>

lemma find_insert_new_kept:
  "find q rs = Some r \<Longrightarrow> find q (insert_new key rs xs) = Some r"
proof -
  assume "find q rs = Some r"
  moreover obtain ys where "insert_new key rs xs = rs @ ys" using insert_new_prefix [of key rs xs] by blast
  ultimately show ?thesis by (simp add: find_append)
qed

lemma enabled_at_add:
  assumes "enabled_at d t h = Some x"
  shows "enabled_at (add_enables now t' ids d) t h = Some x"
proof -
  obtain r where "find (\<lambda>e. he_team e = t \<and> he_hint e = h) (hint_enables d) = Some r" "he_at r = x"
    using assms by (auto simp: enabled_at_def)
  then show ?thesis by (simp add: enabled_at_def add_enables_def find_insert_new_kept)
qed

text \<open>The stamps of a hint: shown and title shown.\<close>

definition stamps :: "hint_visibility_row list \<Rightarrow> nat \<Rightarrow> nat \<Rightarrow> time option \<times> time option" where
  "stamps rows t h = (case find (\<lambda>v. hv_team v = t \<and> hv_hint v = h) rows of
     None \<Rightarrow> (None, None) | Some v \<Rightarrow> (hv_displayed v, hv_title_displayed v))"

definition keeps_stamps :: "time option \<times> time option \<Rightarrow> time option \<times> time option \<Rightarrow> bool" where
  "keeps_stamps a b \<longleftrightarrow> (fst a \<noteq> None \<longrightarrow> fst b = fst a) \<and> (snd a \<noteq> None \<longrightarrow> snd b = snd a)"

lemma upsert_keeps_stamps: "keeps_stamps (stamps rows t h) (stamps (upsert_visibility now t' x rows) t h)"
proof -
  obtain i disp where x: "x = (i, disp)" by (cases x)
  let ?q = "\<lambda>v. hv_team v = t \<and> hv_hint v = h"
  show ?thesis
  proof (cases "exists_row (\<lambda>v. hv_team v = t' \<and> hv_hint v = i) rows")
    case True
    show ?thesis
    proof (cases "t = t' \<and> h = i")
      case True
      with \<open>exists_row _ rows\<close> show ?thesis
        by (auto simp: x upsert_visibility_def Let_def stamps_def keeps_stamps_def or_else_def
            find_update_rows split: option.splits)
    next
      case False
      have "find ?q (upsert_visibility now t' x rows) = find ?q rs" if "rs = rows" for rs
        using \<open>exists_row _ rows\<close> False that
        by (auto simp: x upsert_visibility_def Let_def intro!: find_update_rows_other)
      then show ?thesis by (simp add: stamps_def keeps_stamps_def)
    qed
  next
    case False
    then show ?thesis
      by (auto simp: x upsert_visibility_def Let_def stamps_def keeps_stamps_def find_append
          split: option.splits)
  qed
qed

lemma fold_keeps_stamps:
  "keeps_stamps (stamps rows t h) (stamps (fold (upsert_visibility now t') xs rows) t h)"
proof (induction xs arbitrary: rows)
  case (Cons x xs)
  from Cons [of "upsert_visibility now t' x rows"] upsert_keeps_stamps [of rows t h now t' x]
  show ?case by (auto simp: keeps_stamps_def)
qed (simp add: keeps_stamps_def)

lemma displayed_stamps:
  "displayed_at d t h = fst (stamps (hint_visibility d) t h)"
  "title_displayed_at d t h = snd (stamps (hint_visibility d) t h)"
  by (simp_all add: displayed_at_def title_displayed_at_def find_visibility_def stamps_def
      split: option.split)

lemma refresh_stamps:
  "keeps_stamps (stamps (hint_visibility d) t h)
     (stamps (hint_visibility (refresh_team_hint_states now t' only d)) t h)"
  using fold_keeps_stamps [of "hint_visibility d" t h now t']
  by (auto simp: refresh_team_hint_states_def refresh_team_hint_states_conn_def Let_def
      add_enables_def keeps_stamps_def split: option.split)

lemma enabled_at_visibility [simp]: "enabled_at (d\<lparr>hint_visibility := v\<rparr>) t h = enabled_at d t h"
  by (simp add: enabled_at_def)

lemma refresh_enabled_at:
  "enabled_at d t h = Some x \<Longrightarrow> enabled_at (refresh_team_hint_states now t' only d) t h = Some x"
  by (simp add: refresh_team_hint_states_def refresh_team_hint_states_conn_def Let_def enabled_at_add
      split: option.split)

section \<open>Properties\<close>

text \<open>
  C9: one pass of unlocking is complete and repeating it does nothing. Unlocking appends rows only,
  in the unsolved state, for puzzles whose condition the team meets; afterwards every puzzle of the
  game whose condition is met has a row, and unlocking again at any time returns nothing and leaves
  the database as it is.
\<close>

theorem unlock_pass_complete:
  assumes "find_team d t = Some team" and "unlock_new_puzzles now t d = (new, d')"
  shows "(\<exists>rows. team_puzzles d' = team_puzzles d @ rows \<and> map tp_puzzle rows = new
      \<and> set rows \<subseteq> fresh_tp now t ` set (unlockable d t team))
    \<and> (\<forall>p \<in> set (unlockable d t team). \<exists>tp \<in> set (team_puzzles d'). tp_key tp = (t, p))
    \<and> unlock_new_puzzles now' t d' = ([], d')"
proof -
  have d': "d' = snd (unlock_new_puzzles now t d)" and new: "new = fst (unlock_new_puzzles now t d)"
    using assms(2) by simp_all
  have tps: "team_puzzles d' = insert_new tp_key (team_puzzles d) (map (fresh_tp now t) (unlockable d t team))"
    unfolding d' by (rule unlock_rows [OF assms(1)])
  obtain rows where rows: "team_puzzles d' = team_puzzles d @ rows"
    "set rows \<subseteq> set (map (fresh_tp now t) (unlockable d t team))"
    using insert_new_prefix [of tp_key "team_puzzles d" "map (fresh_tp now t) (unlockable d t team)"]
    unfolding tps by blast
  have "new = map tp_puzzle (drop (length (team_puzzles d)) (team_puzzles d'))"
    unfolding new tps using assms(1) by (simp add: unlock_new_puzzles_def Let_def)
  with rows have A: "map tp_puzzle rows = new" by simp
  have keys: "tp_key ` set (team_puzzles d') \<supseteq> Pair t ` set (unlockable d t team)"
    unfolding tps insert_new_keys tp_keys_fresh by blast
  then have B: "\<forall>p \<in> set (unlockable d t team). \<exists>tp \<in> set (team_puzzles d'). tp_key tp = (t, p)"
    by (fastforce simp: image_iff)
  have sg: "same_gates d d' t" unfolding d' by (rule unlock_same_gates)
  obtain team' where team': "find_team d' t = Some team'" "t_game team' = t_game team"
    "t_start team' = t_start team"
    using same_gates_found [OF sg assms(1)] by blast
  have "insert_new tp_key (team_puzzles d') (map (fresh_tp now' t) (unlockable d' t team')) = team_puzzles d'"
    using keys same_gates_unlockable [OF sg team'(2,3)]
    by (intro insert_new_all_present) (simp only: tp_keys_fresh)
  then have "unlock_new_puzzles now' t d' = ([], d')"
    using team'(1) by (simp add: unlock_new_puzzles_def Let_def)
  with rows A B show ?thesis by auto
qed

text \<open>A started team 3 of game 2, whose puzzle 6 opens when the game is started.\<close>

definition gate_db :: db where
  "gate_db = empty_db\<lparr>
     teams := [\<lparr>t_id = 3, t_name = [], t_pass = [], t_bio = [], t_game = 2, t_banned = False,
       t_locked = True, t_beta = False, t_dirty = False, t_start = Some 0, t_finish = None\<rparr>],
     rounds := [\<lparr>r_id = 4, r_game = 2, r_slug = None, r_sort = 0, r_puzzle = None\<rparr>],
     puzzles := [\<lparr>p_id = 6, p_game = 2, p_round = 4, p_slug = None, p_sort = 0,
       p_unlock_cond = Some (lit ''(game-started)''), p_release_phase = None, p_immediate_release = Some 0,
       p_max_submit = None, p_judge = None, p_penalty = None, p_requirements = None,
       p_title = [], p_ptype = 0, p_ticket_enabled = True, p_ticket_cooldown = 0\<rparr>]\<rparr>"

lemma unlock_pass_complete_witness:
  "\<exists>d'. unlock_new_puzzles 7 3 gate_db = ([6], d') \<and> team_puzzles d' = [fresh_tp 7 3 6]
    \<and> unlock_new_puzzles 9 3 d' = ([], d')"
proof -
  have "lit ''(game-started)'' = render (SList [Atom (lit ''game-started'')])" by (simp add: lit_def)
  then have "parse (lit ''(game-started)'') = Inr (SList [Atom (lit ''game-started'')])"
    using parse_render [of "SList [Atom (lit ''game-started'')]"]
    by (simp add: wf_atom_def lit_def is_whitespace_def)
  then have "compile_gate_expr_uncached (lit ''(game-started)'') = Inr GameStarted"
    by (simp add: compile_gate_expr_uncached_def)
  then have u: "unlockable gate_db 3 (hd (teams gate_db)) = [6]"
    by (simp add: unlockable_def gate_db_def empty_db_def joined_puzzles_def find_round_def
        gate_holds_def make_states_def solved_ids_def)
  have t: "find_team gate_db 3 = Some (hd (teams gate_db))" by (simp add: find_team_def gate_db_def)
  obtain new d' where p: "unlock_new_puzzles 7 3 gate_db = (new, d')" by fastforce
  then have "team_puzzles d' = [fresh_tp 7 3 6] \<and> new = [6]"
    using t u unlock_rows [OF t, of 7]
    by (auto simp: unlock_new_puzzles_def Let_def gate_db_def empty_db_def fresh_tp_def)
  with unlock_pass_complete [OF t p, of 9] p show ?thesis by (intro exI [of _ d']) simp
qed

end
