(* ===== verification/Hints.thy ===== *)
theory Hints
  imports Gates Currency
begin

text \<open>
  The hints of \<^verbatim>\<open>src/db/puzzle.rs\<close>: what a team is shown, when a cooldown ends, and buying a hint.
  A purchase is checked in a first sequence of statements and carried out by a transaction of its
  own; between the two a backend script may run, a parameter that may change the database.
\<close>

section \<open>Cooldowns\<close>

definition find_hint :: "db \<Rightarrow> nat \<Rightarrow> hint_row option" where
  "find_hint d hint_id = find (\<lambda>h. h_id h = hint_id) (hints d)"

text \<open>The moment a hint's cooldown is counted from, by its \<open>cooldown_origin\<close>.\<close>

definition cooldown_from :: "db \<Rightarrow> nat \<Rightarrow> hint_row \<Rightarrow> time option" where
  "cooldown_from d team_id h =
     (if h_cooldown_origin h = 1 then enabled_at d team_id (h_id h)
      else if h_cooldown_origin h = 2 then displayed_at d team_id (h_id h)
      else if h_cooldown_origin h = 3 then title_displayed_at d team_id (h_id h)
      else case (find_tp d team_id (h_puzzle h), effective_release d (h_puzzle h)) of
          (Some tp, Some r) \<Rightarrow> Some (max (tp_ctime tp) r)
        | _ \<Rightarrow> None)"

definition cooldown_until :: "db \<Rightarrow> nat \<Rightarrow> hint_row \<Rightarrow> time option" where
  "cooldown_until d team_id h = map_option (\<lambda>t. t + h_cooldown h * 1000000) (cooldown_from d team_id h)"

definition cooldown_complete :: "time \<Rightarrow> db \<Rightarrow> nat \<Rightarrow> hint_row \<Rightarrow> bool" where
  "cooldown_complete now d team_id h =
     (case cooldown_until d team_id h of None \<Rightarrow> False | Some t \<Rightarrow> t \<le> now)"

section \<open>What a team sees\<close>

record hint_show =
  hs_id :: nat
  hs_title :: "ustr option"
  hs_cooldown :: int
  hs_enabled :: bool
  hs_until :: "time option"
  hs_cost_id :: "nat option"
  hs_cost_amount :: int

definition shown_hint :: "time \<Rightarrow> db \<Rightarrow> nat \<Rightarrow> puzzle_states option \<Rightarrow> hint_row \<Rightarrow> hint_show option" where
  "shown_hint now d team_id state h =
     (let bought = purchased d team_id (h_id h);
          enabled = hint_enabled d team_id h;
          ready = cooldown_complete now d team_id h
      in if \<not> hint_field_visible (h_display h) True state bought enabled ready then None
         else Some \<lparr>hs_id = h_id h,
           hs_title = (if hint_field_visible (h_title_display h) ready state bought enabled ready
                       then Some (h_title h) else h_hidden_title h),
           hs_cooldown = h_cooldown h, hs_enabled = enabled,
           hs_until = cooldown_until d team_id h, hs_cost_id = h_cost_id h,
           hs_cost_amount = h_cost_amount h\<rparr>)"

definition get_hints_show_for_team :: "time \<Rightarrow> nat \<Rightarrow> nat \<Rightarrow> db \<Rightarrow> hint_show list \<times> db" where
  "get_hints_show_for_team now team_id puzzle_id d =
     (let (cache, d1) = refresh_team_hint_states_conn now team_id (Some puzzle_id) None d;
          rows = (if released now d1 puzzle_id \<and> tp_open d1 team_id puzzle_id
                  then filter (\<lambda>h. h_puzzle h = puzzle_id) (sort_key (\<lambda>h. (h_sort h, h_id h)) (hints d1))
                  else []);
          needs_state = list_ex (\<lambda>h. \<not> purchased d1 team_id (h_id h)
              \<and> (h_display h \<noteq> None \<or> h_title_display h \<noteq> None)) rows;
          cache' = (if needs_state then load_team_gate_state_once d1 team_id cache else cache)
      in (concat (map (\<lambda>h. case shown_hint now d1 team_id (loaded_state cache') h of
              None \<Rightarrow> [] | Some s \<Rightarrow> [s]) rows), d1))"

definition get_hints_team_state :: "time \<Rightarrow> nat \<Rightarrow> nat \<Rightarrow> db \<Rightarrow> (nat \<times> ustr) list" where
  "get_hints_team_state now team_id puzzle_id d =
     (if released now d puzzle_id \<and> tp_open d team_id puzzle_id
      then map (\<lambda>h. (h_id h, h_title h))
        (filter (\<lambda>h. h_puzzle h = puzzle_id \<and> purchased d team_id (h_id h)) (hints d))
      else [])"

definition next_hint_cooldown :: "time \<Rightarrow> nat \<Rightarrow> nat \<Rightarrow> db \<Rightarrow> time option" where
  "next_hint_cooldown now team_id puzzle_id d =
     (let ends = concat (map (\<lambda>h. case cooldown_until d team_id h of
            None \<Rightarrow> [] | Some t \<Rightarrow> if now < t then [t] else [])
          (filter (\<lambda>h. h_puzzle h = puzzle_id \<and> hint_reachable now d team_id None h) (hints d)))
      in if ends = [] then None else Some (Min (set ends)))"

section \<open>Charging a team directly\<close>

text \<open>
  The penalty and purchase statements compute the amount themselves: growth always counts, and only
  the maximum is applied.
\<close>

definition raw_amount :: "time \<Rightarrow> currency_row \<Rightarrow> team_currency_row \<Rightarrow> int" where
  "raw_amount now c tc =
     min (tc_amount tc + minutes_between now (tc_utime tc) * (c_growth c + tc_growth tc)) (c_max c)"

definition raw_current :: "time \<Rightarrow> nat \<Rightarrow> nat \<Rightarrow> db \<Rightarrow> db_error + int option" where
  "raw_current now team_id cid d =
     (case (find_tc d team_id cid, find_currency d cid) of
        (Some tc, Some c) \<Rightarrow>
          if in_i64 (c_growth c + tc_growth tc) \<and> in_i64 (raw_amount now c tc)
          then Inr (Some (raw_amount now c tc)) else Inl OutOfRange
      | _ \<Rightarrow> Inr None)"

text \<open>The common statement: subtract \<open>amount\<close> unless a required minimum is missed.\<close>

definition deduct ::
  "time \<Rightarrow> nat \<Rightarrow> nat \<Rightarrow> (int \<Rightarrow> bool) \<Rightarrow> int \<Rightarrow> db \<Rightarrow> db_error + (int \<times> int) option \<times> db" where
  "deduct now team_id cid enough amount d =
     res_bind (raw_current now team_id cid d) (\<lambda>current.
       case current of
         None \<Rightarrow> Inr (None, d)
       | Some before \<Rightarrow>
           if \<not> enough before then Inr (None, d)
           else if \<not> in_i64 (before - amount) then Inl OutOfRange
           else Inr (Some (before, before - amount), set_amount now team_id cid (before - amount) d))"

definition affords :: "int \<Rightarrow> int \<Rightarrow> bool" where
  "affords amount before \<longleftrightarrow> amount \<le> 0 \<or> amount \<le> before"

section \<open>Buying a hint\<close>

record purchase_info =
  pi_game :: nat
  pi_team :: nat
  pi_user :: nat
  pi_hint :: hint_row

definition member_team :: "db \<Rightarrow> nat \<Rightarrow> nat \<Rightarrow> nat option" where
  "member_team d user_id game_id =
     map_option m_team (find (\<lambda>m. m_user m = user_id \<and> m_game m = game_id) (members d))"

definition purchase_target :: "db \<Rightarrow> nat \<Rightarrow> nat \<Rightarrow> (nat \<times> nat) option" where
  "purchase_target d user_id hint_id =
     (case find_hint d hint_id of
        None \<Rightarrow> None
      | Some h \<Rightarrow>
          (case find_puzzle d (h_puzzle h) of
             None \<Rightarrow> None
           | Some p \<Rightarrow> map_option (\<lambda>t. (t, h_puzzle h)) (member_team d user_id (p_game p))))"

definition purchase_row :: "time \<Rightarrow> db \<Rightarrow> nat \<Rightarrow> nat \<Rightarrow> purchase_info option" where
  "purchase_row now d user_id hint_id =
     (case find_hint d hint_id of
        None \<Rightarrow> None
      | Some h \<Rightarrow>
          (case find_puzzle d (h_puzzle h) of
             None \<Rightarrow> None
           | Some p \<Rightarrow>
               (case find_round d (p_round p) of
                  None \<Rightarrow> None
                | Some r \<Rightarrow>
                    (case member_team d user_id (r_game r) of
                       None \<Rightarrow> None
                     | Some team_id \<Rightarrow>
                         if find_team d team_id \<noteq> None \<and> tp_open d team_id (h_puzzle h)
                            \<and> released now d (h_puzzle h)
                            \<and> \<not> purchased d team_id hint_id \<and> hint_enabled d team_id h
                            \<and> cooldown_complete now d team_id h
                         then Some \<lparr>pi_game = r_game r, pi_team = team_id, pi_user = user_id, pi_hint = h\<rparr>
                         else None))))"

datatype purchase_check_result = CheckUnavailable | CheckInsufficient | CheckReady purchase_info "int option"

definition purchase_check ::
  "time \<Rightarrow> nat \<Rightarrow> nat \<Rightarrow> db \<Rightarrow> db_error + purchase_check_result \<times> db" where
  "purchase_check now user_id hint_id d =
     (case purchase_target d user_id hint_id of
        None \<Rightarrow> Inr (CheckUnavailable, d)
      | Some (team_id, puzzle_id) \<Rightarrow>
          (let d1 = refresh_team_hint_states now team_id (Some puzzle_id) d in
           case purchase_row now d1 user_id hint_id of
             None \<Rightarrow> Inr (CheckUnavailable, d1)
           | Some info \<Rightarrow>
               (case team_gate_state_conn d1 (pi_team info) of
                  None \<Rightarrow> Inr (CheckUnavailable, d1)
                | Some state \<Rightarrow>
                    if \<not> hint_purchase_available (h_display (pi_hint info)) state True True
                    then Inr (CheckUnavailable, d1)
                    else case h_cost_id (pi_hint info) of
                        None \<Rightarrow> Inr (CheckReady info None, d1)
                      | Some cid \<Rightarrow>
                          res_bind (raw_current now (pi_team info) cid d1) (\<lambda>current.
                            case current of
                              None \<Rightarrow> Inr (CheckInsufficient, d1)
                            | Some before \<Rightarrow>
                                if affords (h_cost_amount (pi_hint info)) before
                                then Inr (CheckReady info (Some before), d1)
                                else Inr (CheckInsufficient, d1)))))"

text \<open>A backend script gets the function's name, the purchase and the amount found.\<close>

type_synonym 'ev hint_backend =
  "ustr \<Rightarrow> purchase_info \<Rightarrow> int option \<Rightarrow> db \<Rightarrow> db_error + 'ev list \<times> db"

definition run_hint_backend ::
  "'ev hint_backend \<Rightarrow> purchase_info \<Rightarrow> int option \<Rightarrow> db \<Rightarrow> db_error + 'ev list \<times> db" where
  "run_hint_backend backend info before d =
     (case h_backend_function (pi_hint info) of
        None \<Rightarrow> Inr ([], d) | Some function \<Rightarrow> backend function info before d)"

definition upsert_team_hint :: "time \<Rightarrow> nat \<Rightarrow> nat \<Rightarrow> db \<Rightarrow> db" where
  "upsert_team_hint now team_id hint_id d =
     d\<lparr>team_hints :=
        (if exists_row (\<lambda>th. th_team th = team_id \<and> th_hint th = hint_id) (team_hints d)
         then update_rows (\<lambda>th. th_team th = team_id \<and> th_hint th = hint_id)
                (\<lambda>th. th\<lparr>th_unlocked := True\<rparr>) (team_hints d)
         else team_hints d @ [\<lparr>th_team = team_id, th_hint = hint_id, th_unlocked = True, th_utime = now\<rparr>])\<rparr>"

definition trigger_key :: "trigger_row \<Rightarrow> nat \<times> nat \<times> ustr" where
  "trigger_key tg = (tg_team tg, tg_puzzle tg, tg_key tg)"

definition insert_triggers ::
  "nat \<Rightarrow> nat \<Rightarrow> ustr list \<Rightarrow> nat option \<Rightarrow> nat option \<Rightarrow> db \<Rightarrow> bool \<times> db" where
  "insert_triggers team_id puzzle_id keys sub hint d =
     (let rows = insert_new trigger_key (triggers d)
            (map (\<lambda>k. \<lparr>tg_team = team_id, tg_puzzle = puzzle_id, tg_key = k, tg_submission = sub,
                tg_hint = hint\<rparr>) keys)
      in if length rows = length (triggers d) then (False, d)
         else (True, mark_team_dirty_conn team_id (d\<lparr>triggers := rows\<rparr>)))"

definition hint_event :: "purchase_info \<Rightarrow> (int \<times> int) option \<Rightarrow> event_row" where
  "hint_event info paid =
     (blank_event ''hint.purchased'')\<lparr>ev_game := Some (pi_game info), ev_team := Some (pi_team info),
       ev_user := Some (pi_user info), ev_puzzle := Some (h_puzzle (pi_hint info)),
       ev_currency := (if paid = None then None else h_cost_id (pi_hint info)),
       ev_delta := map_option (\<lambda>(b, a). a - b) paid, ev_before := map_option fst paid,
       ev_after := map_option snd paid\<rparr>"

text \<open>The transaction: \<open>None\<close> when the money is gone by now, else whether a trigger was new.\<close>

definition record_purchase :: "time \<Rightarrow> purchase_info \<Rightarrow> (int \<times> int) option \<Rightarrow> db \<Rightarrow> bool \<times> db" where
  "record_purchase now info paid d =
     (let h = pi_hint info;
          d1 = upsert_team_hint now (pi_team info) (h_id h) d;
          r = (if h_triggers h = [] then (False, d1)
               else insert_triggers (pi_team info) (h_puzzle h) (h_triggers h) None (Some (h_id h)) d1)
      in (fst r, insert_event (hint_event info paid) (snd r)))"

definition purchase_commit :: "time \<Rightarrow> purchase_info \<Rightarrow> db \<Rightarrow> db_error + bool option \<times> db" where
  "purchase_commit now info d =
     (case h_cost_id (pi_hint info) of
        None \<Rightarrow> (let (inserted, d') = record_purchase now info None d in Inr (Some inserted, d'))
      | Some cid \<Rightarrow>
          res_bind (deduct now (pi_team info) cid (affords (h_cost_amount (pi_hint info)))
              (h_cost_amount (pi_hint info)) d)
            (\<lambda>(paid, d1).
               if paid = None then Inr (None, d1)
               else let (inserted, d') = record_purchase now info paid d1 in Inr (Some inserted, d')))"

datatype purchase_hint_result = Insufficient | Unavailable | PurchaseOk nat "nat list" bool

definition after_purchase :: "time \<Rightarrow> purchase_info \<Rightarrow> bool \<Rightarrow> db \<Rightarrow> purchase_hint_result \<times> db" where
  "after_purchase now info inserted d =
     (if inserted then
        (let (unlocks, d1) = unlock_new_puzzles now (pi_team info) d
         in (PurchaseOk (h_id (pi_hint info)) unlocks True,
             refresh_team_hint_states now (pi_team info) None d1))
      else (PurchaseOk (h_id (pi_hint info)) [] False, d))"

definition purchase_hint ::
  "'ev hint_backend \<Rightarrow> time \<Rightarrow> nat \<Rightarrow> nat \<Rightarrow> db \<Rightarrow> db_error + purchase_hint_result \<times> 'ev list \<times> db" where
  "purchase_hint backend now user_id hint_id d =
     res_bind (purchase_check now user_id hint_id d) (\<lambda>(check, d1).
       case check of
         CheckUnavailable \<Rightarrow> Inr (Unavailable, [], d1)
       | CheckInsufficient \<Rightarrow> Inr (Insufficient, [], d1)
       | CheckReady info before \<Rightarrow>
           res_bind (run_hint_backend backend info before d1) (\<lambda>(evs, d2).
             res_bind (purchase_commit now info d2) (\<lambda>(r, d3).
               case r of
                 None \<Rightarrow> Inr (Insufficient, [], d3)
               | Some inserted \<Rightarrow>
                   (let (res, d4) = after_purchase now info inserted d3 in Inr (res, evs, d4)))))"

section \<open>Lemmas\<close>

lemma refresh_shape:
  "\<exists>e v. refresh_team_hint_states now t only d = d\<lparr>hint_enables := e, hint_visibility := v\<rparr>"
proof -
  have "\<exists>e v. d = d\<lparr>hint_enables := e, hint_visibility := v\<rparr>"
    by (intro exI [of _ "hint_enables d"] exI [of _ "hint_visibility d"]) simp
  then show ?thesis
    by (auto simp: refresh_team_hint_states_def refresh_team_hint_states_conn_def Let_def
        add_enables_def split: option.split)
qed

lemma refresh_frame [simp]:
  "team_puzzles (refresh_team_hint_states now t only d) = team_puzzles d"
  "puzzles (refresh_team_hint_states now t only d) = puzzles d"
  "phases (refresh_team_hint_states now t only d) = phases d"
  "rounds (refresh_team_hint_states now t only d) = rounds d"
  "members (refresh_team_hint_states now t only d) = members d"
  "teams (refresh_team_hint_states now t only d) = teams d"
  "hints (refresh_team_hint_states now t only d) = hints d"
  "team_hints (refresh_team_hint_states now t only d) = team_hints d"
  "team_currencies (refresh_team_hint_states now t only d) = team_currencies d"
  "currencies (refresh_team_hint_states now t only d) = currencies d"
  "features (refresh_team_hint_states now t only d) = features d"
  "triggers (refresh_team_hint_states now t only d) = triggers d"
  "submissions (refresh_team_hint_states now t only d) = submissions d"
  "events (refresh_team_hint_states now t only d) = events d"
  using refresh_shape [of now t only d] by auto

lemma refresh_reads [simp]:
  "find_tp (refresh_team_hint_states now t only d) i p = find_tp d i p"
  "effective_release (refresh_team_hint_states now t only d) p = effective_release d p"
  "find_tc (refresh_team_hint_states now t only d) i c = find_tc d i c"
  "find_currency (refresh_team_hint_states now t only d) c = find_currency d c"
  "find_hint (refresh_team_hint_states now t only d) h = find_hint d h"
  "find_puzzle (refresh_team_hint_states now t only d) p = find_puzzle d p"
  "find_round (refresh_team_hint_states now t only d) r = find_round d r"
  "member_team (refresh_team_hint_states now t only d) u g = member_team d u g"
  "purchased (refresh_team_hint_states now t only d) i h = purchased d i h"
  by (simp_all add: find_tp_def effective_release_def find_puzzle_def find_tc_def find_currency_def
      find_hint_def find_round_def member_team_def purchased_def cong: option.case_cong)

lemma raw_current_refresh [simp]:
  "raw_current now' i c (refresh_team_hint_states now t only d) = raw_current now' i c d"
  by (simp add: raw_current_def)

lemma unlock_frame [simp]:
  "team_hints (snd (unlock_new_puzzles now t d)) = team_hints d"
  "hints (snd (unlock_new_puzzles now t d)) = hints d"
  "members (snd (unlock_new_puzzles now t d)) = members d"
  "puzzles (snd (unlock_new_puzzles now t d)) = puzzles d"
  "rounds (snd (unlock_new_puzzles now t d)) = rounds d"
  "phases (snd (unlock_new_puzzles now t d)) = phases d"
  "team_currencies (snd (unlock_new_puzzles now t d)) = team_currencies d"
  "currencies (snd (unlock_new_puzzles now t d)) = currencies d"
  "features (snd (unlock_new_puzzles now t d)) = features d"
  "triggers (snd (unlock_new_puzzles now t d)) = triggers d"
  "submissions (snd (unlock_new_puzzles now t d)) = submissions d"
  by (simp_all add: unlock_new_puzzles_def Let_def mark_team_dirty_conn_def split: option.split)

lemma raw_current_SomeE:
  assumes "raw_current now t c d = Inr (Some b)"
  obtains tc cu where "find_tc d t c = Some tc" "find_currency d c = Some cu" "b = raw_amount now cu tc"
    "in_i64 (c_growth cu + tc_growth tc)" "in_i64 b" "b \<le> c_max cu"
  using assms by (auto simp: raw_current_def raw_amount_def split: option.splits if_splits)

lemma raw_current_set_amount:
  assumes "raw_current now t c d = Inr (Some b)" and "v \<le> b" and "in_i64 v"
  shows "raw_current now t c (set_amount now t c v d) = Inr (Some v)"
proof -
  from assms(1) obtain tc cu where l: "find_tc d t c = Some tc" "find_currency d c = Some cu"
    "in_i64 (c_growth cu + tc_growth tc)" "b \<le> c_max cu" by (rule raw_current_SomeE)
  have "find_tc (set_amount now t c v d) t c = Some (tc\<lparr>tc_amount := v, tc_utime := now\<rparr>)"
    unfolding set_amount_def by (subst find_tc_update) (simp_all add: l(1))
  moreover have "find_currency (set_amount now t c v d) c = Some cu"
    using l(2) by (simp add: set_amount_def)
  ultimately show ?thesis using l assms(2,3) by (simp add: raw_current_def raw_amount_def)
qed

lemma purchased_upsert: "purchased (upsert_team_hint now t h d) t h"
proof (cases "exists_row (\<lambda>th. th_team th = t \<and> th_hint th = h) (team_hints d)")
  case True
  then obtain r where "r \<in> set (team_hints d)" "th_team r = t" "th_hint r = h"
    by (auto simp: exists_row_iff)
  then have "r\<lparr>th_unlocked := True\<rparr> \<in> set (update_rows (\<lambda>th. th_team th = t \<and> th_hint th = h)
      (\<lambda>th. th\<lparr>th_unlocked := True\<rparr>) (team_hints d))"
    by (force simp: set_update_rows)
  with True \<open>th_team r = t\<close> \<open>th_hint r = h\<close> show ?thesis
    by (auto simp: purchased_def upsert_team_hint_def exists_row_iff intro!: bexI [of _ "r\<lparr>th_unlocked := True\<rparr>"])
qed (auto simp: purchased_def upsert_team_hint_def exists_row_iff)

lemma purchased_frame [simp]:
  "purchased (insert_event e d) t h = purchased d t h"
  "purchased (snd (insert_triggers a b ks x y d)) t h = purchased d t h"
  "purchased (snd (unlock_new_puzzles now i d)) t h = purchased d t h"
  by (simp_all add: purchased_def insert_event_def insert_triggers_def Let_def mark_team_dirty_conn_def)

lemma record_frame [simp]:
  "members (snd (record_purchase now info paid d)) = members d"
  "hints (snd (record_purchase now info paid d)) = hints d"
  "puzzles (snd (record_purchase now info paid d)) = puzzles d"
  "rounds (snd (record_purchase now info paid d)) = rounds d"
  "currencies (snd (record_purchase now info paid d)) = currencies d"
  "team_currencies (snd (record_purchase now info paid d)) = team_currencies d"
  by (simp_all add: record_purchase_def Let_def upsert_team_hint_def insert_triggers_def
      insert_event_def mark_team_dirty_conn_def)

lemma record_purchased: "purchased (snd (record_purchase now info paid d)) (pi_team info) (h_id (pi_hint info))"
  by (simp add: record_purchase_def Let_def purchased_upsert)

lemma raw_current_record [simp]:
  "raw_current now' t c (snd (record_purchase now info paid d)) = raw_current now' t c d"
  by (simp add: raw_current_def find_tc_def find_currency_def)

lemma commit_paid:
  assumes "h_cost_id (pi_hint info) = Some cid" and "raw_current now (pi_team info) cid d = Inr (Some b)"
    and "0 \<le> h_cost_amount (pi_hint info)" and "h_cost_amount (pi_hint info) \<le> b"
  shows "\<exists>x d'. purchase_commit now info d = Inr (Some x, d')
    \<and> raw_current now (pi_team info) cid d' = Inr (Some (b - h_cost_amount (pi_hint info)))"
proof -
  let ?v = "b - h_cost_amount (pi_hint info)"
  let ?d = "set_amount now (pi_team info) cid ?v d"
  from assms(2) have "in_i64 b" by (rule raw_current_SomeE)
  then have r: "in_i64 ?v" using assms(3,4) by (simp add: i64_defs)
  with assms have "deduct now (pi_team info) cid (affords (h_cost_amount (pi_hint info)))
      (h_cost_amount (pi_hint info)) d = Inr (Some (b, ?v), ?d)"
    by (simp add: deduct_def affords_def)
  then have "purchase_commit now info d = Inr (Some (fst (record_purchase now info (Some (b, ?v)) ?d)),
      snd (record_purchase now info (Some (b, ?v)) ?d))"
    using assms(1) by (cases "record_purchase now info (Some (b, ?v)) ?d") (simp add: purchase_commit_def)
  moreover have "raw_current now (pi_team info) cid ?d = Inr (Some ?v)"
    by (rule raw_current_set_amount [OF assms(2) _ r]) (use assms(3) in simp)
  ultimately show ?thesis by simp
qed

lemma set_amount_tables [simp]:
  "members (set_amount now t c v d) = members d" "hints (set_amount now t c v d) = hints d"
  "puzzles (set_amount now t c v d) = puzzles d" "rounds (set_amount now t c v d) = rounds d"
  "currencies (set_amount now t c v d) = currencies d"
  "team_hints (set_amount now t c v d) = team_hints d"
  by (simp_all add: set_amount_def update_tc_def)

lemma deduct_cases:
  assumes "deduct now t c enough a d = Inr (paid, d')"
  shows "(paid = None \<and> d' = d) \<or> (\<exists>b. paid = Some (b, b - a) \<and> enough b
    \<and> raw_current now t c d = Inr (Some b) \<and> d' = set_amount now t c (b - a) d)"
proof (cases "raw_current now t c d")
  case (Inr r)
  with assms show ?thesis by (cases r) (simp_all add: deduct_def split: if_splits)
qed (use assms in \<open>simp add: deduct_def\<close>)

lemma deduct_frame:
  assumes "deduct now t c enough a d = Inr (paid, d')"
  shows "members d' = members d \<and> hints d' = hints d \<and> puzzles d' = puzzles d \<and> rounds d' = rounds d
    \<and> currencies d' = currencies d"
  using deduct_cases [OF assms] by auto

lemma commit_shape:
  assumes "purchase_commit now info d = Inr (Some x, d')"
  obtains (free) "h_cost_id (pi_hint info) = None" "d' = snd (record_purchase now info None d)"
    | (paid) cid paid d1 where "h_cost_id (pi_hint info) = Some cid" "paid \<noteq> None"
      "deduct now (pi_team info) cid (affords (h_cost_amount (pi_hint info)))
         (h_cost_amount (pi_hint info)) d = Inr (paid, d1)"
      "d' = snd (record_purchase now info paid d1)"
proof (cases "h_cost_id (pi_hint info)")
  case None
  with assms free show thesis by (simp add: purchase_commit_def case_prod_beta)
next
  case (Some cid)
  obtain r where r: "deduct now (pi_team info) cid (affords (h_cost_amount (pi_hint info)))
      (h_cost_amount (pi_hint info)) d = Inr r"
    using assms Some by (auto simp: purchase_commit_def res_bind_eq_Inr)
  obtain q d1 where q: "r = (q, d1)" by (cases r)
  have "q \<noteq> None" using assms Some r q by (cases "q = None") (simp_all add: purchase_commit_def)
  with assms Some r q paid [of cid q d1] show thesis by (simp add: purchase_commit_def case_prod_beta)
qed

lemma commit_frame:
  assumes "purchase_commit now info d = Inr (Some x, d')"
  shows "purchased d' (pi_team info) (h_id (pi_hint info)) \<and> members d' = members d
    \<and> hints d' = hints d \<and> puzzles d' = puzzles d \<and> rounds d' = rounds d \<and> currencies d' = currencies d"
  using assms
proof (cases rule: commit_shape)
  case free
  then show ?thesis by (simp add: record_purchased)
next
  case (paid cid paid d1)
  from deduct_frame [OF paid(3)] paid(4) show ?thesis by (simp add: record_purchased)
qed

lemma after_purchase_ok:
  "\<exists>unlocks changed d'. after_purchase now info x d = (PurchaseOk (h_id (pi_hint info)) unlocks changed, d')"
  by (cases "unlock_new_puzzles now (pi_team info) d") (auto simp: after_purchase_def)

lemma after_purchase_frame:
  assumes "after_purchase now info inserted d = (res, d')"
  shows "team_hints d' = team_hints d \<and> members d' = members d \<and> hints d' = hints d
    \<and> puzzles d' = puzzles d \<and> rounds d' = rounds d \<and> currencies d' = currencies d
    \<and> team_currencies d' = team_currencies d"
  using assms unlock_frame [of now "pi_team info" d]
  by (auto simp: after_purchase_def case_prod_beta split: if_splits)

text \<open>A hint that passed the check is one the team could buy.\<close>

lemma check_ready:
  assumes "purchase_check now user hid d = Inr (CheckReady info before, d1)"
  shows "\<exists>p. d1 = refresh_team_hint_states now (fst (the (purchase_target d user hid))) (Some p) d
    \<and> purchase_row now d1 user hid = Some info"
  using assms
  by (auto simp: purchase_check_def Let_def res_bind_eq_Inr
      split: option.splits if_splits prod.splits)

text \<open>What the check looked at: the state after the hint's conditions were looked at.\<close>

definition looked_at :: "time \<Rightarrow> nat \<Rightarrow> nat \<Rightarrow> db \<Rightarrow> db" where
  "looked_at now user hid d =
     (case purchase_target d user hid of
        None \<Rightarrow> d | Some (t, p) \<Rightarrow> refresh_team_hint_states now t (Some p) d)"

lemma check_ready_for:
  assumes "purchase_check now user hid d = Inr (CheckReady info before, d1)"
  shows "d1 = looked_at now user hid d
    \<and> (\<exists>state. team_gate_state_conn d1 (pi_team info) = Some state
        \<and> hint_purchase_available (h_display (pi_hint info)) state True True)"
  using assms
  by (auto simp: purchase_check_def looked_at_def Let_def res_bind_eq_Inr
      split: option.splits if_splits prod.splits)

lemma refresh_play [simp]:
  "tp_open (refresh_team_hint_states now t only d) = tp_open d"
  "released n (refresh_team_hint_states now t only d) = released n d"
  using refresh_shape [of now t only d]
  by (auto simp: fun_eq_iff tp_open_def find_tp_def released_def effective_release_def find_puzzle_def
      cong: option.case_cong)

lemma find_hint_id: "find_hint d hid = Some h \<Longrightarrow> h_id h = hid"
  by (auto simp: find_hint_def find_Some_iff)

lemma purchase_row_SomeE:
  assumes "purchase_row now d user hid = Some info"
  obtains p r where "find_hint d hid = Some (pi_hint info)" "find_puzzle d (h_puzzle (pi_hint info)) = Some p"
    "find_round d (p_round p) = Some r" "member_team d user (r_game r) = Some (pi_team info)"
    "\<not> purchased d (pi_team info) hid" "hint_enabled d (pi_team info) (pi_hint info)"
    "cooldown_complete now d (pi_team info) (pi_hint info)" "released now d (h_puzzle (pi_hint info))"
    "tp_open d (pi_team info) (h_puzzle (pi_hint info))" "h_id (pi_hint info) = hid" "pi_game info = r_game r"
  using assms by (auto simp: purchase_row_def find_hint_id split: option.splits if_splits)

lemma purchase_okE:
  assumes "purchase_hint backend now user hid d = Inr (PurchaseOk i unlocks changed, evs, d')"
  obtains info before d1 d2 x d3 where "purchase_check now user hid d = Inr (CheckReady info before, d1)"
    "run_hint_backend backend info before d1 = Inr (evs, d2)"
    "purchase_commit now info d2 = Inr (Some x, d3)"
    "after_purchase now info x d3 = (PurchaseOk i unlocks changed, d')"
proof -
  from assms obtain check d1 where c: "purchase_check now user hid d = Inr (check, d1)"
    by (cases "purchase_check now user hid d") (auto simp: purchase_hint_def)
  obtain info before where ci: "check = CheckReady info before"
    using assms c by (cases check) (auto simp: purchase_hint_def)
  obtain evs' d2 where b: "run_hint_backend backend info before d1 = Inr (evs', d2)"
    using assms c ci by (cases "run_hint_backend backend info before d1") (auto simp: purchase_hint_def)
  obtain r d3 where m: "purchase_commit now info d2 = Inr (r, d3)"
    using assms c ci b by (cases "purchase_commit now info d2") (auto simp: purchase_hint_def)
  obtain x where r: "r = Some x" using assms c ci b m by (cases r) (auto simp: purchase_hint_def)
  have "after_purchase now info x d3 = (PurchaseOk i unlocks changed, d')" "evs' = evs"
    using assms c ci b m r by (auto simp: purchase_hint_def split: prod.splits)
  with that c ci b m r show thesis by blast
qed

section \<open>Properties\<close>

text \<open>
  Cooldowns are never restarted. Refreshing the hints of any team, for one puzzle or for all,
  at any time, keeps the moment from which a running cooldown is counted, whatever its origin: the
  opening of the puzzle, the enabling of the hint, its display or the display of its title.
\<close>

theorem refresh_keeps_cooldown_start:
  assumes "cooldown_from d t h = Some x"
  shows "cooldown_from (refresh_team_hint_states now t' only d) t h = Some x"
proof -
  let ?r = "refresh_team_hint_states now t' only d"
  have "keeps_stamps (displayed_at d t (h_id h), title_displayed_at d t (h_id h))
      (displayed_at ?r t (h_id h), title_displayed_at ?r t (h_id h))"
    using refresh_stamps [of d t "h_id h" now t' only] by (simp add: displayed_stamps)
  with assms refresh_enabled_at [of d t "h_id h" x now t' only] show ?thesis
    by (auto simp: cooldown_from_def keeps_stamps_def split: if_splits)
qed

text \<open>A released puzzle 6 with the unconditional hint 11 that costs 20, and two members of team 3.\<close>

definition hint_11 :: hint_row where
  "hint_11 = \<lparr>h_id = 11, h_puzzle = 6, h_sort = 0, h_title = lit ''t'', h_hidden_title = None,
     h_enable_cond = None, h_title_display = None, h_display = None, h_cooldown = 60,
     h_cooldown_origin = 0, h_cost_id = Some 5, h_cost_amount = 20, h_backend_function = None,
     h_triggers = []\<rparr>"

definition hint_db :: db where
  "hint_db = (purse_db 1)\<lparr>
     teams := [\<lparr>t_id = 3, t_name = [], t_pass = [], t_bio = [], t_game = 2, t_banned = False,
       t_locked = True, t_beta = False, t_dirty = False, t_start = Some 0, t_finish = None\<rparr>],
     members := [\<lparr>m_team = 3, m_user = 8, m_game = 2, m_captain = True, m_ctime = 0\<rparr>,
       \<lparr>m_team = 3, m_user = 9, m_game = 2, m_captain = False, m_ctime = 0\<rparr>],
     rounds := [\<lparr>r_id = 4, r_game = 2, r_slug = None, r_sort = 0, r_puzzle = None\<rparr>],
     puzzles := [\<lparr>p_id = 6, p_game = 2, p_round = 4, p_slug = None, p_sort = 0, p_unlock_cond = None,
       p_release_phase = None, p_immediate_release = Some 0, p_max_submit = None, p_judge = None,
       p_penalty = None, p_requirements = None,
       p_title = [], p_ptype = 0, p_ticket_enabled = True, p_ticket_cooldown = 0\<rparr>],
     team_puzzles := [fresh_tp 0 3 6], hints := [hint_11]\<rparr>"

lemma hint_db_reads [simp]:
  "find_hint hint_db 11 = Some hint_11" "effective_release hint_db 6 = Some 0"
  "find_tp hint_db 3 6 = Some (fresh_tp 0 3 6)"
  by (simp_all add: hint_db_def find_hint_def effective_release_def find_puzzle_def find_tp_def
      fresh_tp_def hint_11_def)

lemma refresh_keeps_cooldown_start_witness:
  "cooldown_from (refresh_team_hint_states 5 3 None hint_db) 3 hint_11 = Some 0"
  by (rule refresh_keeps_cooldown_start) (simp add: cooldown_from_def hint_11_def fresh_tp_def)

text \<open>
  C6: buying a hint, exactly. When a purchase of a hint with a price and without a script succeeds,
  the hint was not bought, and in the state after its conditions were looked at it was enabled, its
  cooldown was over, its puzzle was open to the team and released, and its condition for being shown
  allowed the purchase; the team could afford it. The team then owns it, its account holds the amount
  found less the price, and every further attempt of any member to buy it is refused.
\<close>

theorem hint_purchase_exact:
  assumes "purchase_hint backend now user hid d = Inr (PurchaseOk i unlocks changed, evs, d')"
    and "find_hint d hid = Some h" and "h_backend_function h = None" and "h_cost_id h = Some cid"
  shows "\<exists>team before. \<not> purchased d team hid \<and> purchased d' team hid
    \<and> hint_enabled (looked_at now user hid d) team h \<and> cooldown_complete now (looked_at now user hid d) team h
    \<and> tp_open d team (h_puzzle h) \<and> released now d (h_puzzle h)
    \<and> (\<exists>state. team_gate_state_conn (looked_at now user hid d) team = Some state
        \<and> hint_purchase_available (h_display h) state True True)
    \<and> raw_current now team cid d = Inr (Some before) \<and> affords (h_cost_amount h) before
    \<and> find_tc d' team cid = map_option (\<lambda>tc. tc\<lparr>tc_amount := before - h_cost_amount h, tc_utime := now\<rparr>)
        (find_tc d team cid)
    \<and> (\<exists>g. member_team d user g = Some team
        \<and> (\<forall>user' now' check d''. member_team d user' g = Some team \<longrightarrow>
              purchase_check now' user' hid d' = Inr (check, d'') \<longrightarrow> check = CheckUnavailable))"
proof -
  from assms(1) obtain info before d1 d2 x d3 where
    c: "purchase_check now user hid d = Inr (CheckReady info before, d1)"
    and b: "run_hint_backend backend info before d1 = Inr (evs, d2)"
    and m: "purchase_commit now info d2 = Inr (Some x, d3)"
    and a: "after_purchase now info x d3 = (PurchaseOk i unlocks changed, d')"
    by (rule purchase_okE)
  obtain t0 p0 where d1: "d1 = refresh_team_hint_states now t0 (Some p0) d"
    and row: "purchase_row now d1 user hid = Some info"
    using check_ready [OF c] by blast
  from row obtain p r where r: "find_hint d hid = Some (pi_hint info)"
    "find_puzzle d (h_puzzle (pi_hint info)) = Some p" "find_round d (p_round p) = Some r"
    "member_team d user (r_game r) = Some (pi_team info)" "\<not> purchased d (pi_team info) hid"
    "h_id (pi_hint info) = hid" "hint_enabled d1 (pi_team info) (pi_hint info)"
    "cooldown_complete now d1 (pi_team info) (pi_hint info)" "tp_open d (pi_team info) (h_puzzle (pi_hint info))"
    "released now d (h_puzzle (pi_hint info))"
    by (rule purchase_row_SomeE) (simp add: d1)
  note looked = check_ready_for [OF c]
  have h: "pi_hint info = h" using r(1) assms(2) by simp
  have d2: "d2 = d1" using b assms(3) h by (simp add: run_hint_backend_def)
  from m obtain before' d3' where paid:
    "raw_current now (pi_team info) cid d = Inr (Some before')" "affords (h_cost_amount h) before'"
    "d3 = snd (record_purchase now info (Some (before', before' - h_cost_amount h))
       (set_amount now (pi_team info) cid (before' - h_cost_amount h) d2))"
  proof (cases rule: commit_shape)
    case free
    then show thesis using assms(4) h by simp
  next
    case (paid cid' q d4)
    with deduct_cases [OF paid(3)] assms(4) h that show thesis by (auto simp: d2 d1)
  qed
  note af = after_purchase_frame [OF a] and cf = commit_frame [OF m]
  have own: "purchased d' (pi_team info) hid"
    using af cf r(6) by (simp add: purchased_def)
  have tc: "find_tc d' (pi_team info) cid = map_option
      (\<lambda>tc. tc\<lparr>tc_amount := before' - h_cost_amount h, tc_utime := now\<rparr>) (find_tc d (pi_team info) cid)"
    using af find_tc_update [of "\<lambda>tc. tc\<lparr>tc_amount := before' - h_cost_amount h, tc_utime := now\<rparr>"
        "pi_team info" cid d2 "pi_team info" cid]
    by (simp add: find_tc_def paid(3) set_amount_def d2 d1)
  have refused: "check = CheckUnavailable"
    if "member_team d user' (r_game r) = Some (pi_team info)"
      and "purchase_check now' user' hid d' = Inr (check, d'')" for user' now' check d''
  proof -
    have "purchase_row now' (refresh_team_hint_states now' x (Some y) d') user' hid = None" for x y
      using own that(1) r(1-3) af cf
      by (auto simp: purchase_row_def find_hint_def find_puzzle_def find_round_def member_team_def
          d2 d1 split: option.splits)
    then show ?thesis
      using that(2) by (auto simp: purchase_check_def Let_def split: option.splits)
  qed
  show ?thesis
    using r(4,5) r(7-10) looked own paid(1,2) tc refused unfolding h by blast
qed

lemma hint_db_refresh [simp]: "refresh_team_hint_states now 3 (Some 6) hint_db = hint_db"
  by (simp add: refresh_team_hint_states_def refresh_team_hint_states_conn_def hint_db_def hint_11_def
      display_pending_def title_display_pending_def loaded_state_def)

lemma hint_db_check:
  assumes "u = 8 \<or> u = 9"
  shows "purchase_check 120000000 u 11 hint_db =
    Inr (CheckReady \<lparr>pi_game = 2, pi_team = 3, pi_user = u, pi_hint = hint_11\<rparr> (Some 60), hint_db)"
proof -
  have f: "find_puzzle hint_db 6 = Some (hd (puzzles hint_db))" "find_round hint_db 4 = Some (hd (rounds hint_db))"
    "member_team hint_db u 2 = Some 3" "find_team hint_db 3 = Some (hd (teams hint_db))"
    "p_round (hd (puzzles hint_db)) = 4" "r_game (hd (rounds hint_db)) = 2" "p_game (hd (puzzles hint_db)) = 2"
    using assms by (auto simp: hint_db_def find_puzzle_def find_round_def member_team_def find_team_def)
  have no_bought: "\<not> purchased hint_db 3 i" for i
    by (simp add: purchased_def exists_row_def hint_db_def purse_db_def empty_db_def)
  have h: "h_puzzle hint_11 = 6" "h_enable_cond hint_11 = None" "h_cooldown hint_11 = 60"
    "h_cooldown_origin hint_11 = 0"
    by (simp_all add: hint_11_def)
  have row: "purchase_row 120000000 hint_db u 11 =
      Some \<lparr>pi_game = 2, pi_team = 3, pi_user = u, pi_hint = hint_11\<rparr>"
    using f no_bought by (simp add: purchase_row_def tp_open_def released_def hint_enabled_def
        cooldown_complete_def cooldown_until_def cooldown_from_def fresh_tp_def h)
  have raw: "raw_current 120000000 3 5 hint_db = Inr (Some 60)"
    by (simp add: raw_current_def hint_db_def purse_db_def empty_db_def find_tc_def is_tc_def
        find_currency_def raw_amount_def minutes_between_def i64_defs)
  show ?thesis
    using row raw f
    by (simp add: purchase_check_def purchase_target_def team_gate_state_conn_def hint_11_def
        hint_purchase_available_def hint_display_condition_met_def affords_def)
qed

lemma hint_purchase_exact_witness:
  "\<exists>unlocks changed evs d'. purchase_hint (\<lambda>f i b d. Inr ([()], d)) 120000000 8 11 hint_db
      = Inr (PurchaseOk 11 unlocks changed, evs, d')
    \<and> (\<exists>team before. purchased d' team 11 \<and> raw_current 120000000 team 5 hint_db = Inr (Some before)
        \<and> affords 20 before)"
proof -
  let ?i = "\<lparr>pi_game = 2, pi_team = 3, pi_user = 8, pi_hint = hint_11\<rparr>"
  have raw: "raw_current 120000000 3 5 hint_db = Inr (Some 60)"
    by (simp add: raw_current_def hint_db_def purse_db_def empty_db_def find_tc_def is_tc_def
        find_currency_def raw_amount_def minutes_between_def i64_defs)
  then obtain x d3 where m: "purchase_commit 120000000 ?i hint_db = Inr (Some x, d3)"
    using commit_paid [of ?i 5 120000000 hint_db 60] by (auto simp: hint_11_def)
  obtain unlocks changed d4 where "after_purchase 120000000 ?i x d3 = (PurchaseOk 11 unlocks changed, d4)"
    using after_purchase_ok [of 120000000 ?i x d3] by (auto simp: hint_11_def)
  with m hint_db_check [of 8] have ok: "purchase_hint (\<lambda>f i b d. Inr ([()], d)) 120000000 8 11 hint_db
      = Inr (PurchaseOk 11 unlocks changed, [], d4)"
    by (simp add: purchase_hint_def run_hint_backend_def hint_11_def)
  from hint_purchase_exact [OF ok, of hint_11 5] ok show ?thesis by (auto simp: hint_11_def)
qed

text \<open>
  C27: two members can be charged for the same hint. The check that the hint is not yet bought is not
  repeated in the paying transaction: when two members of a team pass the check one after the other
  and only then both pay, both payments succeed and the team's account is charged twice the price.
\<close>

theorem concurrent_purchases_charge_twice:
  assumes "purchase_check now u1 hid d = Inr (CheckReady i1 b1, d1)"
    and "purchase_check now u2 hid d1 = Inr (CheckReady i2 b2, d2)"
    and "pi_team i1 = team" and "pi_team i2 = team" and "h_cost_id (pi_hint i1) = Some cid"
    and "raw_current now team cid d = Inr (Some b)"
    and "0 < h_cost_amount (pi_hint i1)" and "2 * h_cost_amount (pi_hint i1) \<le> b"
  shows "\<exists>x y d3 d4. purchase_commit now i1 d2 = Inr (Some x, d3) \<and> purchase_commit now i2 d3 = Inr (Some y, d4)
    \<and> raw_current now team cid d4 = Inr (Some (b - 2 * h_cost_amount (pi_hint i1)))"
proof -
  define t1 t2 where "t1 = fst (the (purchase_target d u1 hid))" and "t2 = fst (the (purchase_target d1 u2 hid))"
  obtain p1 where d1: "d1 = refresh_team_hint_states now t1 (Some p1) d"
    and row1: "purchase_row now d1 u1 hid = Some i1"
    using check_ready [OF assms(1)] unfolding t1_def by auto
  obtain p2 where d2: "d2 = refresh_team_hint_states now t2 (Some p2) d1"
    and row2: "purchase_row now d2 u2 hid = Some i2"
    using check_ready [OF assms(2)] unfolding t2_def by auto
  note d = d2 d1
  have "find_hint d1 hid = Some (pi_hint i1)" using row1 by (rule purchase_row_SomeE)
  moreover have "find_hint d2 hid = Some (pi_hint i2)" using row2 by (rule purchase_row_SomeE)
  moreover have "find_hint d2 hid = find_hint d1 hid" by (simp add: d2)
  ultimately have same: "pi_hint i2 = pi_hint i1" by simp
  let ?a = "h_cost_amount (pi_hint i1)"
  have r2: "raw_current now team cid d2 = Inr (Some b)" using assms(6) by (simp add: d)
  obtain x d3 where 1: "purchase_commit now i1 d2 = Inr (Some x, d3)"
    "raw_current now team cid d3 = Inr (Some (b - ?a))"
    using commit_paid [of i1 cid now d2 b] assms(3,5,7,8) r2 by auto
  obtain y d4 where 2: "purchase_commit now i2 d3 = Inr (Some y, d4)"
    "raw_current now team cid d4 = Inr (Some (b - ?a - ?a))"
    using commit_paid [of i2 cid now d3 "b - ?a"] assms(4,5,7,8) 1(2) same by auto
  from 1(1) 2 show ?thesis by auto
qed

lemma concurrent_purchases_charge_twice_witness:
  "\<exists>x y d3 d4.
     purchase_commit 120000000 \<lparr>pi_game = 2, pi_team = 3, pi_user = 8, pi_hint = hint_11\<rparr> hint_db = Inr (Some x, d3)
   \<and> purchase_commit 120000000 \<lparr>pi_game = 2, pi_team = 3, pi_user = 9, pi_hint = hint_11\<rparr> d3 = Inr (Some y, d4)
   \<and> raw_current 120000000 3 5 d4 = Inr (Some (60 - 2 * 20))"
proof -
  have raw: "raw_current 120000000 3 5 hint_db = Inr (Some 60)"
    by (simp add: raw_current_def hint_db_def purse_db_def empty_db_def find_tc_def is_tc_def
        find_currency_def raw_amount_def minutes_between_def i64_defs)
  have c8: "purchase_check 120000000 8 11 hint_db = Inr (CheckReady
      \<lparr>pi_game = 2, pi_team = 3, pi_user = 8, pi_hint = hint_11\<rparr> (Some 60), hint_db)"
    and c9: "purchase_check 120000000 9 11 hint_db = Inr (CheckReady
      \<lparr>pi_game = 2, pi_team = 3, pi_user = 9, pi_hint = hint_11\<rparr> (Some 60), hint_db)"
    by (simp_all add: hint_db_check)
  show ?thesis
    using concurrent_purchases_charge_twice [OF c8 c9 _ _ _ raw] by (simp add: hint_11_def)
qed

text \<open>
  Charging makes a closed currency grow. While the currency of the game is closed the balance is
  the stored amount; a purchase or a penalty of \<open>a\<close> leaves not that amount less \<open>a\<close> but counts the
  growth since the last write as well, the time the currency was closed included.
\<close>

theorem charge_grows_closed_currency:
  assumes "find_tc d t c = Some tc" and "find_currency d c = Some cu" and "feature_is d (c_game cu) Currency 0"
    and "in_i64 (c_growth cu + tc_growth tc)" and "in_i64 (tc_amount tc)"
    and "0 < (c_growth cu + tc_growth tc) * minutes_between now (tc_utime tc)"
    and "tc_amount tc + minutes_between now (tc_utime tc) * (c_growth cu + tc_growth tc) \<le> c_max cu"
    and "in_i64 (c_max cu)" and "0 \<le> a" and "a \<le> tc_amount tc"
  shows "balance now d (t, c) = Some (tc_amount tc)
    \<and> (\<exists>res d' b. deduct now t c (affords a) a d = Inr (Some res, d') \<and> balance now d' (t, c) = Some b
        \<and> b = tc_amount tc + minutes_between now (tc_utime tc) * (c_growth cu + tc_growth tc) - a
        \<and> tc_amount tc - a < b)"
proof -
  obtain gf where gf: "find_feature d (c_game cu) Currency = Some gf" "f_state gf = 0"
    using assms(3) by (auto simp: feature_is_def split: option.splits)
  have b0: "balance now d (t, c) = Some (tc_amount tc)"
    using balance_account [OF assms(1,2) gf(1) assms(4)] gf(2) by (simp add: current_amount_def)
  define v where "v = tc_amount tc + minutes_between now (tc_utime tc) * (c_growth cu + tc_growth tc)"
  have v: "raw_amount now cu tc = v" "tc_amount tc < v" "v \<le> c_max cu"
    using assms(6,7) by (simp_all add: v_def raw_amount_def mult.commute)
  have iv: "in_i64 v" "in_i64 (v - a)"
    using v assms(5,8,9,10) by (simp_all add: i64_defs)
  have "deduct now t c (affords a) a d = Inr (Some (v, v - a), set_amount now t c (v - a) d)"
    using assms(1,2,4,10) v iv by (simp add: deduct_def raw_current_def affords_def)
  moreover have "balance now (set_amount now t c (v - a) d) (t, c) = Some (v - a)"
  proof (rule balance_set_amount_same)
    show "balance now d (t, c) \<noteq> None" using b0 by simp
    show "storable d (t, c) (v - a)" using assms(2) v(3) assms(9) by (simp add: storable_def)
  qed
  ultimately show ?thesis using b0 v(2) unfolding v_def by auto
qed

lemma charge_grows_closed_currency_witness:
  "balance 600000000 (purse_db 0) (3, 5) = Some 40
   \<and> (\<exists>res d'. deduct 600000000 3 5 (affords 0) 0 (purse_db 0) = Inr (Some res, d')
        \<and> balance 600000000 d' (3, 5) = Some 140)"
  using charge_grows_closed_currency [OF purse_db_finds(1,2), of 0 600000000 0]
  by (auto simp: feature_is_def i64_defs minutes_between_def)

end
