(* ===== verification/Team.thy ===== *)
theory Team
  imports Hints
begin

text \<open>
  Teams (\<^verbatim>\<open>src/db/team.rs\<close>) and the player routes in front of them (\<^verbatim>\<open>src/api/team.rs\<close>). Lower-casing of
  the database is a parameter; fresh identifiers and \<open>now\<close> are arguments. Notifications and cache
  invalidations after a commit are not modelled.
\<close>

section \<open>Names and features\<close>

definition btrim :: "ustr \<Rightarrow> ustr" where
  "btrim s = rev (dropWhile (\<lambda>c. c = 32) (rev (dropWhile (\<lambda>c. c = 32) s)))"

definition norm_name :: "(ustr \<Rightarrow> ustr) \<Rightarrow> ustr \<Rightarrow> ustr" where
  "norm_name lower s = lower (btrim s)"

definition find_game :: "db \<Rightarrow> nat \<Rightarrow> game_row option" where
  "find_game d game_id = find (\<lambda>g. g_id g = game_id) (games d)"

definition lock_duplicate_name_policy_conn :: "db \<Rightarrow> nat \<Rightarrow> bool option" where
  "lock_duplicate_name_policy_conn d game_id = map_option g_allow_duplicate_names (find_game d game_id)"

definition duplicate_team_name_exists_conn ::
  "(ustr \<Rightarrow> ustr) \<Rightarrow> db \<Rightarrow> nat \<Rightarrow> ustr \<Rightarrow> nat option \<Rightarrow> bool" where
  "duplicate_team_name_exists_conn lower d game_id name exclude =
     exists_row (\<lambda>t. t_game t = game_id \<and> norm_name lower (t_name t) = norm_name lower name
        \<and> (exclude = None \<or> exclude \<noteq> Some (t_id t))) (teams d)"

definition team_open :: "db \<Rightarrow> nat \<Rightarrow> bool" where
  "team_open d game_id =
     (case find_feature d game_id TeamFormation of None \<Rightarrow> True | Some r \<Rightarrow> f_state r = 1)"

definition init_team_puzzles_conn :: "time \<Rightarrow> nat \<Rightarrow> nat \<Rightarrow> db \<Rightarrow> db" where
  "init_team_puzzles_conn now team_id game_id d =
     d\<lparr>team_puzzles := insert_new tp_key (team_puzzles d)
        (map (\<lambda>p. fresh_tp now team_id (p_id p))
          (filter (\<lambda>p. p_unlock_cond p = None \<and>
              (case find_round d (p_round p) of None \<Rightarrow> False | Some r \<Rightarrow> r_game r = game_id))
            (puzzles d)))\<rparr>"

section \<open>Members\<close>

definition member_of :: "nat \<Rightarrow> nat \<Rightarrow> member_row \<Rightarrow> bool" where
  "member_of team_id user_id m \<longleftrightarrow> m_team m = team_id \<and> m_user m = user_id"

definition team_members :: "db \<Rightarrow> nat \<Rightarrow> member_row list" where
  "team_members d team_id = filter (\<lambda>m. m_team m = team_id) (members d)"

definition team_event :: "string \<Rightarrow> nat \<Rightarrow> nat option \<Rightarrow> nat option \<Rightarrow> nat option \<Rightarrow> event_row" where
  "team_event ty game_id team user target =
     (blank_event ty)\<lparr>ev_game := Some game_id, ev_team := team, ev_user := user, ev_target := target\<rparr>"

text \<open>The insert trigger copies the game from the team; \<open>(user_id, game_id)\<close> and \<open>(team_id, user_id)\<close> are unique.\<close>

definition new_member :: "time \<Rightarrow> team_row \<Rightarrow> nat \<Rightarrow> bool \<Rightarrow> member_row" where
  "new_member now team user_id captain =
     \<lparr>m_team = t_id team, m_user = user_id, m_game = t_game team, m_captain = captain, m_ctime = now\<rparr>"

definition in_game :: "db \<Rightarrow> nat \<Rightarrow> nat \<Rightarrow> bool" where
  "in_game d user_id game_id = exists_row (\<lambda>m. m_user m = user_id \<and> m_game m = game_id) (members d)"

definition is_leader_in_game :: "db \<Rightarrow> nat \<Rightarrow> nat \<Rightarrow> bool" where
  "is_leader_in_game d game_id user_id =
     (case find (\<lambda>m. m_game m = game_id \<and> m_user m = user_id) (members d) of
        None \<Rightarrow> False | Some m \<Rightarrow> m_captain m)"

datatype team_join_result = JoinNotFound | JoinNotOpen | JoinWrongPwd | JoinTeamFull | JoinBanned
  | JoinToMany | JoinOk

definition join :: "time \<Rightarrow> nat \<Rightarrow> nat \<Rightarrow> ustr \<Rightarrow> db \<Rightarrow> db_error + team_join_result \<times> db" where
  "join now team_id user_id password d =
     (case find_team d team_id of
        None \<Rightarrow> Inr (JoinNotFound, d)
      | Some verify \<Rightarrow>
          if \<not> team_open d (t_game verify) then Inr (JoinNotOpen, d)
          else if t_banned verify then Inr (JoinBanned, d)
          else if t_pass verify \<noteq> password then Inr (JoinWrongPwd, d)
          else (case find_game d (t_game verify) of
              None \<Rightarrow> Inl (OtherError ''Game not found'')
            | Some g \<Rightarrow>
                if (case g_max_members g of None \<Rightarrow> False
                    | Some max_members \<Rightarrow> int (length (team_members d team_id)) \<ge> max_members)
                then Inr (JoinTeamFull, d)
                else if in_game d user_id (t_game verify) then Inl UniqueViolation
                else Inr (JoinOk, insert_event
                  (team_event ''team.member.joined'' (t_game verify) (Some team_id) (Some user_id) None)
                  (d\<lparr>members := members d @ [new_member now verify user_id False]\<rparr>))))"

record team_put_data =
  put_name :: ustr
  put_pass :: ustr
  put_bio :: ustr
  put_game :: nat

definition new_team :: "nat \<Rightarrow> team_put_data \<Rightarrow> team_row" where
  "new_team fresh data = \<lparr>t_id = fresh, t_name = put_name data, t_pass = put_pass data,
     t_bio = put_bio data, t_game = put_game data, t_banned = False, t_locked = False, t_beta = False,
     t_dirty = True, t_start = None, t_finish = None\<rparr>"

datatype team_create_result = CreateNotOpen | CreateToMany | CreateNameConflict | CreateOk nat

definition user_create ::
  "(ustr \<Rightarrow> ustr) \<Rightarrow> time \<Rightarrow> nat \<Rightarrow> nat \<Rightarrow> team_put_data \<Rightarrow> db \<Rightarrow> team_create_result \<times> db" where
  "user_create lower now fresh user_id data d =
     (case lock_duplicate_name_policy_conn d (put_game data) of
        None \<Rightarrow> (CreateNotOpen, d)
      | Some allow_duplicate_names \<Rightarrow>
          if \<not> team_open d (put_game data) then (CreateNotOpen, d)
          else if \<not> allow_duplicate_names
             \<and> duplicate_team_name_exists_conn lower d (put_game data) (put_name data) None
          then (CreateNameConflict, d)
          else if in_game d user_id (put_game data) then (CreateToMany, d)
          else (let team = new_team fresh data;
                    d1 = d\<lparr>teams := teams d @ [team],
                           members := members d @ [new_member now team user_id True]\<rparr>;
                    d2 = init_team_puzzles_conn now fresh (put_game data) d1;
                    d3 = insert_event
                      (team_event ''team.created'' (put_game data) (Some fresh) (Some user_id) None) d2
                in (CreateOk fresh, refresh_team_hint_enablements now fresh None d3)))"

text \<open>\<open>DELETE \<dots> USING rb_team t WHERE \<dots> NOT t.is_locked\<close>.\<close>

definition delete_member_unlocked :: "string \<Rightarrow> nat \<Rightarrow> nat \<Rightarrow> bool \<Rightarrow> db \<Rightarrow> bool \<times> db" where
  "delete_member_unlocked ty team_id user_id kicked d =
     (case find_team d team_id of
        None \<Rightarrow> (False, d)
      | Some t \<Rightarrow>
          if t_locked t \<or> \<not> exists_row (member_of team_id user_id) (members d) then (False, d)
          else (True, insert_event
            (if kicked then team_event ty (t_game t) (Some team_id) None (Some user_id)
             else team_event ty (t_game t) (Some team_id) (Some user_id) None)
            (d\<lparr>members := delete_rows (member_of team_id user_id) (members d)\<rparr>)))"

definition leave :: "nat \<Rightarrow> nat \<Rightarrow> db \<Rightarrow> bool \<times> db" where
  "leave team_id user_id = delete_member_unlocked ''team.member.left'' team_id user_id False"

definition kick_member :: "nat \<Rightarrow> nat \<Rightarrow> db \<Rightarrow> bool \<times> db" where
  "kick_member team_id user_id = delete_member_unlocked ''team.member.kicked'' team_id user_id True"

text \<open>Deleting a team cascades; the log keeps its entries without the team.\<close>

definition of_team_ticket :: "db \<Rightarrow> nat \<Rightarrow> nat \<Rightarrow> bool" where
  "of_team_ticket d team_id ticket_id \<longleftrightarrow>
     exists_row (\<lambda>tk. tk_id tk = ticket_id \<and> tk_team tk = team_id) (tickets d)"

definition delete_team :: "nat \<Rightarrow> db \<Rightarrow> db" where
  "delete_team team_id d =
     d\<lparr>teams := delete_rows (\<lambda>t. t_id t = team_id) (teams d),
       members := delete_rows (\<lambda>m. m_team m = team_id) (members d),
       team_features := delete_rows (\<lambda>r. tf_team r = team_id) (team_features d),
       team_currencies := delete_rows (\<lambda>r. tc_team r = team_id) (team_currencies d),
       team_puzzles := delete_rows (\<lambda>r. tp_team r = team_id) (team_puzzles d),
       submissions := delete_rows (\<lambda>r. s_team r = team_id) (submissions d),
       triggers := delete_rows (\<lambda>r. tg_team r = team_id) (triggers d),
       team_hints := delete_rows (\<lambda>r. th_team r = team_id) (team_hints d),
       hint_enables := delete_rows (\<lambda>r. he_team r = team_id) (hint_enables d),
       hint_visibility := delete_rows (\<lambda>r. hv_team r = team_id) (hint_visibility d),
       tickets := delete_rows (\<lambda>r. tk_team r = team_id) (tickets d),
       ticket_operations := delete_rows (\<lambda>r. of_team_ticket d team_id (to_ticket r)) (ticket_operations d),
       messages := delete_rows (\<lambda>r. of_team_ticket d team_id (ms_ticket r)) (messages d),
       notifications := delete_rows (\<lambda>r. nt_team r = team_id) (notifications d),
       content_unlocks := delete_rows (\<lambda>r. cu_team r = team_id) (content_unlocks d),
       lock_teams := delete_rows (\<lambda>r. lt_team r = team_id) (lock_teams d),
       events := update_rows (\<lambda>e. ev_team e = Some team_id) (\<lambda>e. e\<lparr>ev_team := None\<rparr>) (events d)\<rparr>"

definition disband :: "nat \<Rightarrow> db \<Rightarrow> bool \<times> db" where
  "disband team_id d =
     (case find_team d team_id of
        None \<Rightarrow> (False, d)
      | Some t \<Rightarrow>
          if t_locked t \<or> team_members d team_id = [] then (False, d)
          else (True, insert_event (team_event ''team.disbanded'' (t_game t) None None None)
                  (delete_team team_id d)))"

definition promote_member :: "nat \<Rightarrow> nat \<Rightarrow> db \<Rightarrow> bool \<times> db" where
  "promote_member team_id user_id d =
     (case find (member_of team_id user_id) (members d) of
        None \<Rightarrow> (False, d)
      | Some target \<Rightarrow>
          (True, insert_event
            (team_event ''team.member.promoted'' (m_game target) (Some team_id) None (Some user_id))
            (d\<lparr>members := update_rows (\<lambda>m. m_team m = team_id)
                (\<lambda>m. m\<lparr>m_captain := (m_user m = user_id)\<rparr>) (members d)\<rparr>)))"

record user_update_data =
  ud_name :: "ustr option"
  ud_pass :: "ustr option"
  ud_bio :: "ustr option"

datatype user_update_result = UpdateBad | UpdateNameConflict | UpdateOk

definition or_keep :: "'a option \<Rightarrow> 'a \<Rightarrow> 'a" where
  "or_keep x y = (case x of None \<Rightarrow> y | Some v \<Rightarrow> v)"

definition set_profile :: "user_update_data \<Rightarrow> team_row \<Rightarrow> team_row" where
  "set_profile data t =
     t\<lparr>t_name := or_keep (ud_name data) (t_name t), t_pass := or_keep (ud_pass data) (t_pass t),
       t_bio := or_keep (ud_bio data) (t_bio t)\<rparr>"

definition captain_team :: "db \<Rightarrow> nat \<Rightarrow> nat \<Rightarrow> team_row option" where
  "captain_team d game_id user_id =
     (case find (\<lambda>m. m_user m = user_id \<and> m_game m = game_id \<and> m_captain m) (members d) of
        None \<Rightarrow> None | Some m \<Rightarrow> find_team d (m_team m))"

definition user_update ::
  "(ustr \<Rightarrow> ustr) \<Rightarrow> nat \<Rightarrow> nat \<Rightarrow> user_update_data \<Rightarrow> db \<Rightarrow> user_update_result \<times> db" where
  "user_update lower game_id user_id data d =
     (case lock_duplicate_name_policy_conn d game_id of
        None \<Rightarrow> (UpdateBad, d)
      | Some allow_duplicate_names \<Rightarrow>
          (case captain_team d game_id user_id of
             None \<Rightarrow> (UpdateBad, d)
           | Some current \<Rightarrow>
               if ud_name data \<noteq> None \<and> t_locked current then (UpdateBad, d)
               else if (case ud_name data of
                      None \<Rightarrow> False
                    | Some name \<Rightarrow> norm_name lower (t_name current) \<noteq> norm_name lower name
                        \<and> \<not> allow_duplicate_names
                        \<and> duplicate_team_name_exists_conn lower d game_id name (Some (t_id current)))
               then (UpdateNameConflict, d)
               else if ud_name data = None \<and> ud_pass data = None \<and> ud_bio data = None then (UpdateBad, d)
               else (UpdateOk, insert_event
                  (team_event ''team.updated'' game_id (Some (t_id current)) (Some user_id) None)
                  (d\<lparr>teams := update_rows (\<lambda>t. t_id t = t_id current) (set_profile data) (teams d)\<rparr>))))"

section \<open>The player routes\<close>

text \<open>\<open>^[!-~]{8,32}$\<close>.\<close>

definition valid_password :: "ustr \<Rightarrow> bool" where
  "valid_password s \<longleftrightarrow> 8 \<le> length s \<and> length s \<le> 32 \<and> list_all (\<lambda>c. 33 \<le> c \<and> c \<le> 126) s"

definition valid_length :: "nat \<Rightarrow> nat \<Rightarrow> ustr option \<Rightarrow> bool" where
  "valid_length lo hi x = (case x of None \<Rightarrow> True | Some s \<Rightarrow> lo \<le> length s \<and> length s \<le> hi)"

definition valid_update :: "user_update_data \<Rightarrow> bool" where
  "valid_update data \<longleftrightarrow> valid_length 1 40 (ud_name data) \<and> valid_length 8 32 (ud_pass data)
     \<and> valid_length 0 200 (ud_bio data)"

datatype team_request =
    ReqCreate nat ustr ustr ustr
  | ReqJoin nat ustr
  | ReqLeave nat
  | ReqUpdate nat user_update_data
  | ReqDisband nat
  | ReqKick nat nat
  | ReqPromote nat nat

text \<open>
  The answers the handlers give; an error status carries the code of the result. \<open>Failed\<close> is an
  internal error of the database layer.
\<close>

datatype team_response = Done | Created nat | BadRequest | Conflict | NotFound | Forbidden
  | Unprocessable | Failed db_error

definition create_self ::
  "(ustr \<Rightarrow> ustr) \<Rightarrow> time \<Rightarrow> nat \<Rightarrow> nat \<Rightarrow> nat \<Rightarrow> ustr \<Rightarrow> ustr \<Rightarrow> ustr \<Rightarrow> db \<Rightarrow> team_response \<times> db" where
  "create_self lower now fresh uid game_id name pass bio d =
     (if trim name = [] \<or> length (trim name) > 40 \<or> \<not> valid_password (trim pass) then (BadRequest, d)
      else case user_create lower now fresh uid
          \<lparr>put_name = trim name, put_pass = trim pass, put_bio = bio, put_game = game_id\<rparr> d of
        (CreateOk i, d') \<Rightarrow> (Created i, d')
      | (_, d') \<Rightarrow> (Conflict, d'))"

definition join_handler :: "time \<Rightarrow> nat \<Rightarrow> nat \<Rightarrow> ustr \<Rightarrow> db \<Rightarrow> team_response \<times> db" where
  "join_handler now uid team_id password d =
     (case join now team_id uid password d of
        Inl e \<Rightarrow> (Failed e, d)
      | Inr (r, d') \<Rightarrow> (if r = JoinNotFound then NotFound else if r = JoinOk then Done else Conflict, d'))"

definition flag_response :: "bool \<times> db \<Rightarrow> team_response \<times> db" where
  "flag_response r = (if fst r then Done else Conflict, snd r)"

definition leave_self :: "nat \<Rightarrow> nat \<Rightarrow> db \<Rightarrow> team_response \<times> db" where
  "leave_self uid game_id d =
     (case member_team d uid game_id of
        None \<Rightarrow> (Conflict, d) | Some team_id \<Rightarrow> flag_response (leave team_id uid d))"

definition update_self ::
  "(ustr \<Rightarrow> ustr) \<Rightarrow> nat \<Rightarrow> nat \<Rightarrow> user_update_data \<Rightarrow> db \<Rightarrow> team_response \<times> db" where
  "update_self lower uid game_id data d =
     (let req = data\<lparr>ud_name := map_option trim (ud_name data)\<rparr> in
      if \<not> valid_update req then (BadRequest, d)
      else let (r, d') = user_update lower game_id uid req d
           in (if r = UpdateOk then Done else Conflict, d'))"

definition disband_self :: "nat \<Rightarrow> nat \<Rightarrow> db \<Rightarrow> team_response \<times> db" where
  "disband_self uid game_id d =
     (case member_team d uid game_id of
        None \<Rightarrow> (NotFound, d) | Some team_id \<Rightarrow> flag_response (disband team_id d))"

definition kick_self :: "nat \<Rightarrow> nat \<Rightarrow> nat \<Rightarrow> db \<Rightarrow> team_response \<times> db" where
  "kick_self uid game_id target d =
     (if target = uid then (Unprocessable, d)
      else case member_team d uid game_id of
          None \<Rightarrow> (NotFound, d) | Some team_id \<Rightarrow> flag_response (kick_member team_id target d))"

definition promote_self :: "nat \<Rightarrow> nat \<Rightarrow> nat \<Rightarrow> db \<Rightarrow> team_response \<times> db" where
  "promote_self uid game_id target d =
     (if target = uid then (Unprocessable, d)
      else case member_team d uid game_id of
          None \<Rightarrow> (NotFound, d) | Some team_id \<Rightarrow> flag_response (promote_member team_id target d))"

text \<open>Updating, disbanding, kicking and promoting sit behind the leader check; leaving does not.\<close>

definition check_leader_middleware ::
  "nat \<Rightarrow> nat \<Rightarrow> (db \<Rightarrow> team_response \<times> db) \<Rightarrow> db \<Rightarrow> team_response \<times> db" where
  "check_leader_middleware uid game_id next d =
     (if is_leader_in_game d game_id uid then next d else (Forbidden, d))"

fun team_handle ::
  "(ustr \<Rightarrow> ustr) \<Rightarrow> time \<Rightarrow> nat \<Rightarrow> nat \<Rightarrow> team_request \<Rightarrow> db \<Rightarrow> team_response \<times> db" where
  "team_handle lower now fresh uid (ReqCreate g name pass bio) d = create_self lower now fresh uid g name pass bio d"
| "team_handle lower now fresh uid (ReqJoin team_id password) d = join_handler now uid team_id password d"
| "team_handle lower now fresh uid (ReqLeave g) d = leave_self uid g d"
| "team_handle lower now fresh uid (ReqUpdate g data) d =
     check_leader_middleware uid g (update_self lower uid g data) d"
| "team_handle lower now fresh uid (ReqDisband g) d = check_leader_middleware uid g (disband_self uid g) d"
| "team_handle lower now fresh uid (ReqKick g target) d =
     check_leader_middleware uid g (kick_self uid g target) d"
| "team_handle lower now fresh uid (ReqPromote g target) d =
     check_leader_middleware uid g (promote_self uid g target) d"

section \<open>Administration\<close>

text \<open>Whether a user exists is a parameter.\<close>

record admin_team_create_data =
  ac_name :: ustr
  ac_pass :: ustr
  ac_bio :: ustr
  ac_captain :: nat

datatype admin_team_create_result = AdminUserConflict | AdminNotFound | AdminOk nat

definition admin_create ::
  "(nat \<Rightarrow> bool) \<Rightarrow> time \<Rightarrow> nat \<Rightarrow> nat \<Rightarrow> admin_team_create_data \<Rightarrow> db
    \<Rightarrow> admin_team_create_result \<times> db" where
  "admin_create user_exists now fresh game_id data d =
     (if \<not> user_exists (ac_captain data) then (AdminNotFound, d)
      else if in_game d (ac_captain data) game_id then (AdminUserConflict, d)
      else if find_game d game_id = None then (AdminNotFound, d)
      else (let team = new_team fresh \<lparr>put_name = ac_name data, put_pass = ac_pass data,
                  put_bio = ac_bio data, put_game = game_id\<rparr>;
                d1 = d\<lparr>teams := teams d @ [team],
                       members := members d @ [new_member now team (ac_captain data) True]\<rparr>;
                d2 = init_team_puzzles_conn now fresh game_id d1
            in (AdminOk fresh, refresh_team_hint_enablements now fresh None d2)))"

datatype admin_team_currency_action = Initialize | Remove

fun valid_admin_currency_action ::
  "admin_team_currency_action option \<Rightarrow> bool option \<Rightarrow> bool \<Rightarrow> bool" where
  "valid_admin_currency_action None requested was_started = True"
| "valid_admin_currency_action (Some Initialize) (Some True) was_started = (\<not> was_started)"
| "valid_admin_currency_action (Some Remove) (Some False) was_started = was_started"
| "valid_admin_currency_action _ _ was_started = False"

record admin_team_update_data =
  au_name :: "ustr option"
  au_pass :: "ustr option"
  au_bio :: "ustr option"
  au_banned :: "bool option"
  au_locked :: "bool option"
  au_started :: "bool option"
  au_currency_action :: "admin_team_currency_action option"
  au_beta :: "bool option"
  au_features :: "(game_feature \<times> bool) list option"
  au_reason :: "ustr option"

definition admin_team_feature :: "game_feature \<Rightarrow> bool" where
  "admin_team_feature f \<longleftrightarrow> f = DirectMessage \<or> f = PuzzleTicket \<or> f = Leaderboard"

definition valid_features :: "(game_feature \<times> bool) list option \<Rightarrow> bool" where
  "valid_features fs = (case fs of None \<Rightarrow> True
     | Some xs \<Rightarrow> list_all (\<lambda>(f, e). admin_team_feature f) xs \<and> distinct (map (\<lambda>(f, e). feature_value f) xs))"

definition team_feature_enabled :: "db \<Rightarrow> nat \<Rightarrow> game_feature \<Rightarrow> bool" where
  "team_feature_enabled d team_id f =
     (case find (\<lambda>r. tf_team r = team_id \<and> tf_type r = feature_value f) (team_features d) of
        None \<Rightarrow> True | Some r \<Rightarrow> tf_enabled r)"

definition changed_flag :: "bool option \<Rightarrow> bool \<Rightarrow> bool" where
  "changed_flag x current = (case x of None \<Rightarrow> False | Some b \<Rightarrow> b \<noteq> current)"

text \<open>Whether the event gets any entry besides the currency's.\<close>

definition access_changes :: "db \<Rightarrow> team_row \<Rightarrow> admin_team_update_data \<Rightarrow> bool" where
  "access_changes d t data \<longleftrightarrow> changed_flag (au_banned data) (t_banned t)
     \<or> changed_flag (au_locked data) (t_locked t) \<or> changed_flag (au_started data) (t_start t \<noteq> None)
     \<or> changed_flag (au_beta data) (t_beta t)
     \<or> (case au_features data of None \<Rightarrow> False
        | Some xs \<Rightarrow> list_ex (\<lambda>(f, e). team_feature_enabled d (t_id t) f \<noteq> e) xs)"

definition admin_set_team :: "time \<Rightarrow> admin_team_update_data \<Rightarrow> team_row \<Rightarrow> team_row" where
  "admin_set_team clock data t =
     t\<lparr>t_name := or_keep (au_name data) (t_name t), t_pass := or_keep (au_pass data) (t_pass t),
       t_bio := or_keep (au_bio data) (t_bio t), t_banned := or_keep (au_banned data) (t_banned t),
       t_locked := or_keep (au_locked data) (t_locked t), t_beta := or_keep (au_beta data) (t_beta t),
       t_start := (case au_started data of
           Some True \<Rightarrow> (case t_start t of Some s \<Rightarrow> Some s | None \<Rightarrow> Some clock)
         | Some False \<Rightarrow> None
         | None \<Rightarrow> t_start t)\<rparr>"

definition upsert_currency :: "time \<Rightarrow> nat \<Rightarrow> currency_row \<Rightarrow> team_currency_row list \<Rightarrow> team_currency_row list" where
  "upsert_currency now team_id c rows =
     (let fresh = \<lparr>tc_team = team_id, tc_currency = c_id c, tc_amount = c_init_amount c, tc_growth = 0,
            tc_hidden = c_init_hidden c, tc_utime = now\<rparr>
      in if exists_row (is_tc team_id (c_id c)) rows
         then update_rows (is_tc team_id (c_id c)) (\<lambda>tc. fresh) rows else rows @ [fresh])"

fun team_currency_action ::
  "time \<Rightarrow> nat \<Rightarrow> nat \<Rightarrow> admin_team_currency_action \<Rightarrow> db \<Rightarrow> bool \<times> db" where
  "team_currency_action now game_id team_id Initialize d =
     (True, d\<lparr>team_currencies := fold (upsert_currency now team_id)
        (filter (\<lambda>c. c_game c = game_id) (currencies d)) (team_currencies d)\<rparr>)"
| "team_currency_action now game_id team_id Remove d =
     (exists_row (\<lambda>tc. tc_team tc = team_id) (team_currencies d),
      d\<lparr>team_currencies := delete_rows (\<lambda>tc. tc_team tc = team_id) (team_currencies d)\<rparr>)"

definition upsert_feature :: "nat \<Rightarrow> game_feature \<times> bool \<Rightarrow> team_feature_row list \<Rightarrow> team_feature_row list" where
  "upsert_feature team_id x rows =
     (let (f, e) = x; key = (\<lambda>r. tf_team r = team_id \<and> tf_type r = feature_value f)
      in if exists_row key rows then update_rows key (\<lambda>r. r\<lparr>tf_enabled := e\<rparr>) rows
         else rows @ [\<lparr>tf_team = team_id, tf_type = feature_value f, tf_enabled = e\<rparr>])"

datatype admin_team_update_result = AdminUpdateInvalid | AdminUpdateNotFound | AdminUpdateOk

definition admin_update ::
  "time \<Rightarrow> time \<Rightarrow> nat \<Rightarrow> nat \<Rightarrow> nat \<Rightarrow> admin_team_update_data \<Rightarrow> db \<Rightarrow> admin_team_update_result \<times> db" where
  "admin_update now clock game_id team_id actor_id data d =
     (if \<not> valid_features (au_features data) then (AdminUpdateInvalid, d)
      else case find (\<lambda>t. t_game t = game_id \<and> t_id t = team_id) (teams d) of
        None \<Rightarrow> (AdminUpdateNotFound, d)
      | Some current \<Rightarrow>
          if \<not> valid_admin_currency_action (au_currency_action data) (au_started data) (t_start current \<noteq> None)
          then (AdminUpdateInvalid, d)
          else (let d1 = d\<lparr>teams := update_rows (\<lambda>t. t_game t = game_id \<and> t_id t = team_id)
                      (admin_set_team clock data) (teams d)\<rparr>;
                    d2 = (if changed_flag (au_started data) (t_start current \<noteq> None)
                            \<or> changed_flag (au_locked data) (t_locked current)
                          then mark_team_dirty_conn team_id d1 else d1);
                    (noted, d3) = (case au_currency_action data of
                        None \<Rightarrow> (False, d2) | Some act \<Rightarrow> team_currency_action now game_id team_id act d2);
                    d4 = (case au_features data of
                        None \<Rightarrow> d3
                      | Some xs \<Rightarrow> d3\<lparr>team_features := fold (upsert_feature team_id) xs (team_features d3)\<rparr>)
                in (AdminUpdateOk,
                    if access_changes d current data \<or> noted
                    then insert_event (team_event ''team.access_changed'' game_id (Some team_id)
                           (Some actor_id) None) d4
                    else d4)))"

datatype admin_member_result = MemberConflict | LastMember | MemberNotFound | MemberOk

definition team_in_game :: "db \<Rightarrow> nat \<Rightarrow> nat \<Rightarrow> team_row option" where
  "team_in_game d game_id team_id = find (\<lambda>t. t_id t = team_id \<and> t_game t = game_id) (teams d)"

definition admin_add_member ::
  "(nat \<Rightarrow> bool) \<Rightarrow> time \<Rightarrow> nat \<Rightarrow> nat \<Rightarrow> nat \<Rightarrow> db \<Rightarrow> admin_member_result \<times> db" where
  "admin_add_member user_exists now game_id team_id user_id d =
     (case team_in_game d game_id team_id of
        None \<Rightarrow> (MemberNotFound, d)
      | Some t \<Rightarrow>
          if \<not> user_exists user_id then (MemberNotFound, d)
          else if in_game d user_id game_id then (MemberConflict, d)
          else (MemberOk, d\<lparr>members := members d @ [new_member now t user_id False]\<rparr>))"

text \<open>\<open>ORDER BY ctime_at ASC LIMIT 1\<close>: the earliest member, the first one in the table among equals.\<close>

definition earliest_member :: "member_row list \<Rightarrow> member_row option" where
  "earliest_member ms = (case sort_key m_ctime ms of [] \<Rightarrow> None | m # _ \<Rightarrow> Some m)"

definition appoint_earliest :: "nat \<Rightarrow> db \<Rightarrow> db" where
  "appoint_earliest team_id d =
     (case earliest_member (team_members d team_id) of
        None \<Rightarrow> d
      | Some m \<Rightarrow> d\<lparr>members := update_rows (member_of (m_team m) (m_user m))
            (\<lambda>m. m\<lparr>m_captain := True\<rparr>) (members d)\<rparr>)"

definition admin_remove_member :: "nat \<Rightarrow> nat \<Rightarrow> nat \<Rightarrow> db \<Rightarrow> admin_member_result \<times> db" where
  "admin_remove_member game_id team_id user_id d =
     (if team_in_game d game_id team_id = None then (MemberNotFound, d)
      else if length (filter (\<lambda>m. m_team m = team_id \<and> m_game m = game_id) (members d)) \<le> 1
      then (LastMember, d)
      else let goes = (\<lambda>m. m_team m = team_id \<and> m_user m = user_id \<and> m_game m = game_id) in
        if \<not> exists_row goes (members d) then (MemberNotFound, d)
        else let d1 = d\<lparr>members := delete_rows goes (members d)\<rparr>
             in (MemberOk,
                 if exists_row (\<lambda>m. m_team m = team_id \<and> m_captain m) (members d1) then d1
                 else appoint_earliest team_id d1))"

definition admin_promote_member :: "nat \<Rightarrow> nat \<Rightarrow> nat \<Rightarrow> db \<Rightarrow> admin_member_result \<times> db" where
  "admin_promote_member game_id team_id user_id d =
     (if \<not> exists_row (\<lambda>m. m_game m = game_id \<and> m_team m = team_id \<and> m_user m = user_id) (members d)
      then (MemberNotFound, d)
      else (MemberOk, snd (promote_member team_id user_id d)))"

definition admin_delete :: "nat \<Rightarrow> nat \<Rightarrow> db \<Rightarrow> nat list option \<times> db" where
  "admin_delete game_id team_id d =
     (case team_in_game d game_id team_id of
        None \<Rightarrow> (None, d)
      | Some t \<Rightarrow>
          if team_members d team_id = [] then (None, d)
          else (Some (map m_user (team_members d team_id)), delete_team team_id d))"

section \<open>The administration routes\<close>

definition valid_admin_create :: "admin_team_create_data \<Rightarrow> bool" where
  "valid_admin_create data \<longleftrightarrow> valid_length 1 40 (Some (ac_name data))
     \<and> valid_length 1 32 (Some (ac_pass data)) \<and> valid_length 0 200 (Some (ac_bio data))"

definition valid_admin_update :: "admin_team_update_data \<Rightarrow> bool" where
  "valid_admin_update data \<longleftrightarrow> valid_length 1 40 (au_name data) \<and> valid_length 1 32 (au_pass data)
     \<and> valid_length 0 200 (au_bio data) \<and> valid_length 0 500 (au_reason data)"

definition create_handler ::
  "(nat \<Rightarrow> bool) \<Rightarrow> time \<Rightarrow> nat \<Rightarrow> nat \<Rightarrow> admin_team_create_data \<Rightarrow> db \<Rightarrow> team_response \<times> db" where
  "create_handler user_exists now fresh game_id data d =
     (let req = data\<lparr>ac_name := trim (ac_name data)\<rparr> in
      if \<not> valid_admin_create req then (BadRequest, d)
      else case admin_create user_exists now fresh game_id req d of
        (AdminUserConflict, d') \<Rightarrow> (Conflict, d')
      | (AdminNotFound, d') \<Rightarrow> (NotFound, d')
      | (AdminOk team_id, d') \<Rightarrow> (Created team_id, d'))"

text \<open>Starting a team unlocks its puzzles. The leaderboard and team caches are dropped afterwards.\<close>

definition update_handler ::
  "time \<Rightarrow> time \<Rightarrow> nat \<Rightarrow> nat \<Rightarrow> nat \<Rightarrow> admin_team_update_data \<Rightarrow> db \<Rightarrow> team_response \<times> db" where
  "update_handler now clock game_id team_id actor data d =
     (let req = data\<lparr>au_name := map_option trim (au_name data)\<rparr> in
      if \<not> valid_admin_update req \<or> \<not> valid_features (au_features req) then (BadRequest, d)
      else case admin_update now clock game_id team_id actor req d of
        (AdminUpdateInvalid, d') \<Rightarrow> (BadRequest, d')
      | (AdminUpdateNotFound, d') \<Rightarrow> (NotFound, d')
      | (AdminUpdateOk, d') \<Rightarrow>
          (Done, if au_started req = Some True then snd (unlock_new_puzzles now team_id d') else d'))"

fun member_response :: "admin_member_result \<times> db \<Rightarrow> team_response \<times> db" where
  "member_response (MemberOk, d) = (Done, d)"
| "member_response (MemberConflict, d) = (Conflict, d)"
| "member_response (LastMember, d) = (NotFound, d)"
| "member_response (MemberNotFound, d) = (NotFound, d)"

text \<open>Removing answers the last member with a conflict and has no other one.\<close>

definition remove_member_handler :: "nat \<Rightarrow> nat \<Rightarrow> nat \<Rightarrow> db \<Rightarrow> team_response \<times> db" where
  "remove_member_handler game_id team_id user_id d =
     (case admin_remove_member game_id team_id user_id d of
        (MemberOk, d') \<Rightarrow> (Done, d')
      | (LastMember, d') \<Rightarrow> (Conflict, d')
      | (_, d') \<Rightarrow> (NotFound, d'))"

definition update_currency_handler ::
  "time \<Rightarrow> nat \<Rightarrow> nat \<Rightarrow> nat \<Rightarrow> nat \<Rightarrow> update_options \<Rightarrow> ustr option \<Rightarrow> db \<Rightarrow> team_response \<times> db" where
  "update_currency_handler now game_id team_id cid actor opts reason d =
     (if \<not> valid_length 0 500 reason then (BadRequest, d)
      else case admin_update_currency now game_id team_id cid actor opts d of
        Inl e \<Rightarrow> (Failed e, d)
      | Inr (None, d') \<Rightarrow> (NotFound, d')
      | Inr (Some c, d') \<Rightarrow> if team_in_game d' game_id team_id = None then (NotFound, d') else (Done, d'))"

text \<open>The answer does not depend on what the deletion did.\<close>

definition delete_handler :: "nat \<Rightarrow> nat \<Rightarrow> db \<Rightarrow> team_response \<times> db" where
  "delete_handler game_id team_id d =
     (if team_in_game d game_id team_id = None then (NotFound, d)
      else (Done, snd (admin_delete game_id team_id d)))"

datatype team_admin_request =
    AdminCreate nat admin_team_create_data
  | AdminUpdate nat nat admin_team_update_data
  | AdminAdd nat nat nat
  | AdminRemove nat nat nat
  | AdminPromote nat nat nat
  | AdminCurrency nat nat nat update_options "ustr option"
  | AdminDelete nat nat

fun team_admin_handle ::
  "(nat \<Rightarrow> bool) \<Rightarrow> time \<Rightarrow> nat \<Rightarrow> nat \<Rightarrow> team_admin_request \<Rightarrow> db \<Rightarrow> team_response \<times> db" where
  "team_admin_handle user_exists now fresh actor (AdminCreate g data) d =
     create_handler user_exists now fresh g data d"
| "team_admin_handle user_exists now fresh actor (AdminUpdate g t data) d =
     update_handler now now g t actor data d"
| "team_admin_handle user_exists now fresh actor (AdminAdd g t u) d =
     member_response (admin_add_member user_exists now g t u d)"
| "team_admin_handle user_exists now fresh actor (AdminRemove g t u) d = remove_member_handler g t u d"
| "team_admin_handle user_exists now fresh actor (AdminPromote g t u) d =
     member_response (admin_promote_member g t u d)"
| "team_admin_handle user_exists now fresh actor (AdminCurrency g t c opts reason) d =
     update_currency_handler now g t c actor opts reason d"
| "team_admin_handle user_exists now fresh actor (AdminDelete g t) d = delete_handler g t d"

end
