(* ===== verification/Roster.thy ===== *)
theory Roster
  imports Team
begin

text \<open>
  Who is in which team: an abstract machine over the teams and members alone, a simulation showing
  that every player and administration request performs steps of it, and what follows for any
  history of requests.
\<close>

section \<open>The roster as an abstract machine\<close>

text \<open>The teams with their games, and the members: what any operation may do to them.\<close>

type_synonym roster = "(nat \<times> nat) list \<times> member_row list"

definition roster :: "db \<Rightarrow> roster" where
  "roster d = (map (\<lambda>t. (t_id t, t_game t)) (teams d), members d)"

definition member_keys :: "member_row list \<Rightarrow> (nat \<times> nat) set" where
  "member_keys ms = (\<lambda>m. (m_user m, m_game m)) ` set ms"

inductive roster_step :: "roster \<Rightarrow> roster \<Rightarrow> bool" where
  stay: "roster_step R R"
| enter: "(m_team m, m_game m) \<in> set ts \<Longrightarrow> (m_user m, m_game m) \<notin> member_keys ms \<Longrightarrow> \<not> m_captain m \<Longrightarrow>
    roster_step (ts, ms) (ts, ms @ [m])"
| found: "m_team m \<notin> fst ` set ts \<Longrightarrow> (m_user m, m_game m) \<notin> member_keys ms \<Longrightarrow> m_captain m \<Longrightarrow>
    roster_step (ts, ms) (ts @ [(m_team m, m_game m)], ms @ [m])"
| quit: "roster_step (ts, ms) (ts, delete_rows p ms)"
| dissolve: "roster_step (ts, ms)
    (filter (\<lambda>x. fst x \<noteq> t) ts, delete_rows (\<lambda>m. m_team m = t) ms)"
| promote: "exists_row (member_of t u) ms \<Longrightarrow>
    roster_step (ts, ms) (ts, update_rows (\<lambda>m. m_team m = t) (\<lambda>m. m\<lparr>m_captain := (m_user m = u)\<rparr>) ms)"
| appoint: "\<not> exists_row (\<lambda>m. m_team m = t \<and> m_captain m) ms \<Longrightarrow>
    roster_step (ts, ms) (ts, update_rows (member_of t u) (\<lambda>m. m\<lparr>m_captain := True\<rparr>) ms)"

inductive_cases roster_stepE: "roster_step R R'"

definition one_captain :: "member_row list \<Rightarrow> bool" where
  "one_captain ms \<longleftrightarrow> (\<forall>a \<in> set ms. \<forall>b \<in> set ms.
     m_captain a \<and> m_captain b \<and> m_team a = m_team b \<longrightarrow> m_user a = m_user b)"

definition roster_ok :: "roster \<Rightarrow> bool" where
  "roster_ok R \<longleftrightarrow> distinct (map fst (fst R)) \<and> distinct (map (\<lambda>m. (m_user m, m_game m)) (snd R))
     \<and> (\<forall>m \<in> set (snd R). (m_team m, m_game m) \<in> set (fst R)) \<and> one_captain (snd R)"

lemma distinct_fst_unique: "distinct (map fst ts) \<Longrightarrow> (t, g) \<in> set ts \<Longrightarrow> (t, g') \<in> set ts \<Longrightarrow> g = g'"
  by (metis eq_key_imp_eq_value)

lemma one_captain_subset: "one_captain ms \<Longrightarrow> set ms' \<subseteq> set ms \<Longrightarrow> one_captain ms'"
  unfolding one_captain_def by blast

lemma one_captainD:
  "one_captain ms \<Longrightarrow> a \<in> set ms \<Longrightarrow> b \<in> set ms \<Longrightarrow> m_captain a \<Longrightarrow> m_captain b \<Longrightarrow>
   m_team a = m_team b \<Longrightarrow> m_user a = m_user b"
  unfolding one_captain_def by blast

lemma one_captain_append:
  assumes "one_captain ms" and "m_captain m \<Longrightarrow> \<forall>x \<in> set ms. m_team x \<noteq> m_team m"
  shows "one_captain (ms @ [m])"
  unfolding one_captain_def
proof (intro ballI impI)
  fix a b
  assume ab: "a \<in> set (ms @ [m])" "b \<in> set (ms @ [m])" "m_captain a \<and> m_captain b \<and> m_team a = m_team b"
  then consider "a = m" "b = m" | "a \<in> set ms" "b \<in> set ms" | "a = m" "b \<in> set ms" | "a \<in> set ms" "b = m"
    by auto
  then show "m_user a = m_user b"
  proof cases
    case 2
    with ab(3) assms(1) show ?thesis unfolding one_captain_def by blast
  next
    case 3
    with ab(3) assms(2) show ?thesis by auto
  next
    case 4
    with ab(3) assms(2) show ?thesis by auto
  qed simp
qed

lemma ball_map_eq: "map k xs = map k ys \<Longrightarrow> (\<forall>x \<in> set xs. P (k x)) \<longleftrightarrow> (\<forall>x \<in> set ys. P (k x))"
proof -
  assume "map k xs = map k ys"
  then have "set (map k xs) = set (map k ys)" by (rule arg_cong)
  then have "(\<forall>z \<in> set (map k xs). P z) \<longleftrightarrow> (\<forall>z \<in> set (map k ys). P z)" by simp
  then show ?thesis by simp
qed

lemma roster_ok_update:
  assumes "roster_ok (ts, ms)" and "one_captain (update_rows p f ms)"
    and "\<And>r. m_user (f r) = m_user r" "\<And>r. m_game (f r) = m_game r" "\<And>r. m_team (f r) = m_team r"
  shows "roster_ok (ts, update_rows p f ms)"
proof -
  have "map (\<lambda>m. (m_user m, m_game m)) (update_rows p f ms) = map (\<lambda>m. (m_user m, m_game m)) ms"
    "map (\<lambda>m. (m_team m, m_game m)) (update_rows p f ms) = map (\<lambda>m. (m_team m, m_game m)) ms"
    by (simp_all add: map_update_rows assms)
  then show ?thesis
    using assms(1,2) ball_map_eq[of "\<lambda>m. (m_team m, m_game m)" "update_rows p f ms" ms "\<lambda>x. x \<in> set ts"]
    unfolding roster_ok_def by simp
qed

lemma roster_step_ok:
  assumes "roster_step R R'" and "roster_ok R"
  shows "roster_ok R'"
  using assms
proof (induction rule: roster_step.induct)
  case (enter m ts ms)
  have "one_captain (ms @ [m])"
    using enter by (intro one_captain_append) (simp_all add: roster_ok_def)
  with enter show ?case by (simp add: roster_ok_def member_keys_def)
next
  case (found m ts ms)
  have "m_team x \<noteq> m_team m" if "x \<in> set ms" for x
    using found that by (force simp: roster_ok_def)
  then have "one_captain (ms @ [m])"
    using found.prems by (intro one_captain_append) (auto simp: roster_ok_def)
  with found show ?case by (simp add: roster_ok_def member_keys_def)
next
  case (quit ts ms p)
  then have "one_captain (delete_rows p ms)" "distinct (map (\<lambda>m. (m_user m, m_game m)) (delete_rows p ms))"
    by (auto simp: roster_ok_def intro: one_captain_subset distinct_delete_rows)
  with quit show ?case by (auto simp: roster_ok_def)
next
  case (dissolve ts ms t)
  let ?p = "\<lambda>m. m_team m = t"
  from dissolve have "one_captain (delete_rows ?p ms)" "distinct (map (\<lambda>m. (m_user m, m_game m)) (delete_rows ?p ms))"
    "distinct (map fst (filter (\<lambda>x. fst x \<noteq> t) ts))"
    by (auto simp: roster_ok_def intro: one_captain_subset distinct_delete_rows distinct_map_filter)
  with dissolve show ?case by (auto simp: roster_ok_def)
next
  case (promote t u ms ts)
  let ?ms = "update_rows (\<lambda>m. m_team m = t) (\<lambda>m. m\<lparr>m_captain := (m_user m = u)\<rparr>) ms"
  have "one_captain ?ms"
    unfolding one_captain_def
  proof (intro ballI impI)
    fix a b
    assume "a \<in> set ?ms" "b \<in> set ?ms" and cap: "m_captain a \<and> m_captain b \<and> m_team a = m_team b"
    then obtain r s where rs: "r \<in> set ms" "s \<in> set ms"
      "a = (if m_team r = t then r\<lparr>m_captain := (m_user r = u)\<rparr> else r)"
      "b = (if m_team s = t then s\<lparr>m_captain := (m_user s = u)\<rparr> else s)"
      by (auto simp: update_rows_def)
    show "m_user a = m_user b"
    proof (cases "m_team r = t")
      case True
      with rs(3,4) cap show ?thesis by (auto split: if_splits)
    next
      case False
      then have "a = r" using rs(3) by simp
      have "m_team s \<noteq> t"
        using cap rs(4) \<open>a = r\<close> False by (auto split: if_splits)
      then have "b = s" using rs(4) by simp
      have "one_captain ms" using promote.prems by (simp add: roster_ok_def)
      then show ?thesis
        unfolding \<open>a = r\<close> \<open>b = s\<close> using rs(1,2) cap[unfolded \<open>a = r\<close> \<open>b = s\<close>]
        by (blast intro: one_captainD)
    qed
  qed
  with promote.prems show ?case by (intro roster_ok_update) simp_all
next
  case (appoint t ms ts u)
  let ?ms = "update_rows (member_of t u) (\<lambda>m. m\<lparr>m_captain := True\<rparr>) ms"
  have "one_captain ?ms"
    unfolding one_captain_def
  proof (intro ballI impI)
    fix a b
    assume "a \<in> set ?ms" "b \<in> set ?ms" and cap: "m_captain a \<and> m_captain b \<and> m_team a = m_team b"
    then obtain r s where rs: "r \<in> set ms" "s \<in> set ms"
      "a = (if member_of t u r then r\<lparr>m_captain := True\<rparr> else r)"
      "b = (if member_of t u s then s\<lparr>m_captain := True\<rparr> else s)"
      by (auto simp: update_rows_def)
    then have same: "m_team r = m_team s" "m_user a = m_user r" "m_user b = m_user s"
      using cap by (auto split: if_splits)
    show "m_user a = m_user b"
    proof (cases "m_team r = t")
      case True
      then have "\<not> m_captain r" "\<not> m_captain s"
        using appoint.hyps rs(1,2) same(1) by (auto simp: exists_row_iff)
      with rs(3,4) cap have "member_of t u r" "member_of t u s" by presburger+
      then show ?thesis unfolding same(2,3) member_of_def by simp
    next
      case False
      then have "\<not> member_of t u r" "\<not> member_of t u s"
        unfolding member_of_def using same(1) by simp_all
      with rs(3,4) cap have "m_captain r" "m_captain s" by simp_all
      moreover have "one_captain ms" using appoint.prems by (simp add: roster_ok_def)
      ultimately show ?thesis
        unfolding same(2,3) using one_captainD[of ms r s] rs(1,2) same(1) by blast
    qed
  qed
  with appoint.prems show ?case by (intro roster_ok_update) simp_all
qed simp

lemma roster_insert_event [simp]: "roster (insert_event e d) = roster d"
  by (simp add: roster_def insert_event_def)

lemma roster_tables [simp]:
  "roster (d\<lparr>team_puzzles := x1\<rparr>) = roster d" "roster (d\<lparr>hint_enables := x2\<rparr>) = roster d"
  "roster (d\<lparr>team_currencies := x3\<rparr>) = roster d" "roster (d\<lparr>team_features := x4\<rparr>) = roster d"
  "roster (d\<lparr>events := x5\<rparr>) = roster d"
  by (simp_all add: roster_def)

lemma roster_init [simp]: "roster (init_team_puzzles_conn now t g d) = roster d"
  by (simp add: init_team_puzzles_conn_def)

lemma roster_enablements [simp]: "roster (refresh_team_hint_enablements now t only d) = roster d"
  by (simp add: refresh_team_hint_enablements_def refresh_team_hint_enablements_conn_def Let_def
      add_enables_def)

lemma roster_teams:
  assumes "\<And>t. t_id (f t) = t_id t \<and> t_game (f t) = t_game t"
  shows "roster (d\<lparr>teams := update_rows p f (teams d)\<rparr>) = roster d"
  using assms by (simp add: roster_def)

lemma roster_dirty [simp]: "roster (mark_team_dirty_conn t d) = roster d"
  unfolding mark_team_dirty_conn_def by (rule roster_teams) simp

lemma in_game_keys: "in_game d u g \<longleftrightarrow> (u, g) \<in> member_keys (members d)"
  by (force simp: in_game_def exists_row_iff member_keys_def)

lemma find_team_in: "find_team d i = Some t \<Longrightarrow> (i, t_game t) \<in> set (fst (roster d)) \<and> t_id t = i"
  by (force simp: find_team_def find_Some_iff roster_def)

lemma roster_members [simp]: "roster (d\<lparr>members := ms\<rparr>) = (fst (roster d), ms)"
  by (simp add: roster_def)

lemma roster_pair: "roster d = (fst (roster d), members d)"
  by (simp add: roster_def)

lemma roster_members_teams:
  "members (insert_event e d) = members d" "teams (insert_event e d) = teams d"
  by (simp_all add: insert_event_def)

lemma roster_unlock [simp]: "roster (snd (unlock_new_puzzles now t d)) = roster d"
  by (simp add: unlock_new_puzzles_def Let_def split: option.split)

section \<open>Every request is a step of the machine\<close>

lemma enter_step:
  assumes "t \<in> set (teams d)" and "\<not> in_game d u (t_game t)"
  shows "roster_step (roster d) (fst (roster d), members d @ [new_member now t u False])"
  unfolding roster_def fst_conv
  using assms by (intro roster_step.enter) (auto simp: new_member_def in_game_keys)

lemma found_step:
  assumes "t_id t \<notin> t_id ` set (teams d)" and "\<not> in_game d u (t_game t)"
  shows "roster_step (roster d) (fst (roster d) @ [(t_id t, t_game t)], members d @ [new_member now t u True])"
proof -
  let ?m = "new_member now t u True"
  have "m_team ?m \<notin> fst ` set (fst (roster d))" "(m_user ?m, m_game ?m) \<notin> member_keys (members d)"
    using assms by (auto simp: new_member_def roster_def in_game_keys)
  then have "roster_step (fst (roster d), members d)
      (fst (roster d) @ [(m_team ?m, m_game ?m)], members d @ [?m])"
    by (intro roster_step.found) (simp_all add: new_member_def)
  moreover have "roster d = (fst (roster d), members d)" by (rule roster_pair)
  ultimately show ?thesis by (simp add: new_member_def)
qed

lemma quit_step: "roster_step (roster d) (fst (roster d), delete_rows p (members d))"
  by (subst (1) roster_pair) (rule roster_step.quit)

lemma roster_delete_team:
  "roster (delete_team t d)
    = (filter (\<lambda>x. fst x \<noteq> t) (fst (roster d)), delete_rows (\<lambda>m. m_team m = t) (members d))"
  by (simp add: delete_team_def roster_def delete_rows_def filter_map comp_def)

lemma dissolve_step:
  assumes "roster d' = roster (delete_team t d)"
  shows "roster_step (roster d) (roster d')"
  unfolding assms roster_delete_team by (subst (1) roster_pair) (rule roster_step.dissolve)

lemma find_member_in: "find q (members d) = Some m \<Longrightarrow> m \<in> set (members d) \<and> q m"
  by (auto simp: find_Some_iff)

lemma promote_step: "roster_step (roster d) (roster (snd (promote_member t u d)))"
proof (cases "find (member_of t u) (members d)")
  case None
  then show ?thesis by (simp add: promote_member_def roster_step.stay)
next
  case (Some m)
  then have "exists_row (member_of t u) (members d)"
    by (auto simp: exists_row_iff dest: find_member_in)
  from roster_step.promote [OF this, of "fst (roster d)"] show ?thesis
    using Some roster_pair [of d] by (simp add: promote_member_def)
qed

lemma delete_member_step: "roster_step (roster d) (roster (snd (delete_member_unlocked ty t u k d)))"
  by (auto simp: delete_member_unlocked_def intro: quit_step roster_step.stay split: option.split)

lemma disband_step: "roster_step (roster d) (roster (snd (disband t d)))"
  by (auto simp: disband_def intro: dissolve_step roster_step.stay split: option.split)

lemma find_team_mem: "find_team d i = Some t \<Longrightarrow> t \<in> set (teams d) \<and> t_id t = i"
  by (auto simp: find_team_def find_Some_iff)

lemma enter_found:
  assumes "find_team d i = Some t" and "\<not> in_game d u (t_game t)"
  shows "roster_step (roster d) (fst (roster d), members d @ [new_member now t u False])"
  using find_team_mem [OF assms(1)] assms(2) by (simp add: enter_step)

lemma join_step:
  assumes "join now t u pw d = Inr (r, d')"
  shows "roster_step (roster d) (roster d')"
  using assms unfolding join_def
  by (auto intro: enter_found roster_step.stay split: option.splits if_splits)

lemma roster_found [simp]:
  "fst (roster (d\<lparr>teams := teams d @ [t]\<rparr>)) = fst (roster d) @ [(t_id t, t_game t)]"
  by (simp add: roster_def)

lemma new_team_key [simp]: "t_id (new_team fresh data) = fresh" "t_game (new_team fresh data) = put_game data"
  by (simp_all add: new_team_def)

lemma create_step:
  assumes "fresh \<notin> t_id ` set (teams d)"
  shows "roster_step (roster d) (roster (snd (user_create lower now fresh u data d)))"
  using assms found_step [of "new_team fresh data" d u now] unfolding user_create_def
  by (auto simp: Let_def intro: roster_step.stay split: option.split)

lemma admin_create_step:
  assumes "fresh \<notin> t_id ` set (teams d)"
  shows "roster_step (roster d) (roster (snd (admin_create ux now fresh g data d)))"
  using assms found_step [of "new_team fresh \<lparr>put_name = ac_name data, put_pass = ac_pass data,
    put_bio = ac_bio data, put_game = g\<rparr>" d "ac_captain data" now] unfolding admin_create_def
  by (auto simp: Let_def intro: roster_step.stay split: option.split)

lemma add_member_step: "roster_step (roster d) (roster (snd (admin_add_member ux now g t u d)))"
proof (cases "team_in_game d g t")
  case None
  then show ?thesis by (simp add: admin_add_member_def roster_step.stay)
next
  case (Some x)
  then have "x \<in> set (teams d)" "t_game x = g" by (auto simp: team_in_game_def find_Some_iff)
  then show ?thesis
    using Some enter_step [of x d u now] by (simp add: admin_add_member_def roster_step.stay)
qed

lemma earliest_in: "earliest_member ms = Some m \<Longrightarrow> m \<in> set ms"
  using set_sort [of m_ctime ms] by (cases "sort_key m_ctime ms") (auto simp: earliest_member_def)

lemma appoint_step:
  assumes "\<not> exists_row (\<lambda>m. m_team m = t \<and> m_captain m) (members d)"
  shows "roster_step (roster d) (roster (appoint_earliest t d))"
proof (cases "earliest_member (team_members d t)")
  case None
  then show ?thesis by (simp add: appoint_earliest_def roster_step.stay)
next
  case (Some m)
  then have "m_team m = t" by (auto dest!: earliest_in simp: team_members_def)
  with Some roster_step.appoint [OF assms, of "fst (roster d)" "m_user m"] roster_pair [of d]
  show ?thesis by (simp add: appoint_earliest_def)
qed

abbreviation roster_steps :: "roster \<Rightarrow> roster \<Rightarrow> bool" where
  "roster_steps \<equiv> roster_step\<^sup>*\<^sup>*"

lemma remove_member_steps: "roster_steps (roster d) (roster (snd (admin_remove_member g t u d)))"
proof -
  define goes :: "member_row \<Rightarrow> bool" where "goes = (\<lambda>m. m_team m = t \<and> m_user m = u \<and> m_game m = g)"
  let ?d = "d\<lparr>members := delete_rows goes (members d)\<rparr>"
  have "roster_step (roster d) (roster ?d)" by (simp add: quit_step)
  moreover have "roster_step (roster ?d) (roster (appoint_earliest t ?d))"
    if "\<not> exists_row (\<lambda>m. m_team m = t \<and> m_captain m) (delete_rows goes (members d))"
    using that by (intro appoint_step) simp
  ultimately show ?thesis
    unfolding admin_remove_member_def goes_def [symmetric] Let_def
    by (auto intro: converse_rtranclp_into_rtranclp)
qed

lemma roster_feature_rows [simp]: "roster (d\<lparr>team_features := x\<rparr>) = roster d"
  by (simp add: roster_def)

lemma roster_currency_action [simp]: "roster (snd (team_currency_action now g t a d)) = roster d"
  by (cases a) simp_all

lemma roster_user_update [simp]: "roster (snd (user_update lower g u data d)) = roster d"
  by (simp add: user_update_def roster_teams set_profile_def split: option.split)

lemma roster_currency_action': "team_currency_action now g t a d = (n, d') \<Longrightarrow> roster d' = roster d"
  using roster_currency_action [of now g t a d] by simp

lemma roster_set_team [simp]:
  "roster (d\<lparr>teams := update_rows p (admin_set_team clock data) (teams d)\<rparr>) = roster d"
  by (rule roster_teams) (simp add: admin_set_team_def)

lemma roster_admin_update [simp]: "roster (snd (admin_update now clock g t actor data d)) = roster d"
  unfolding admin_update_def Let_def
  by (cases "au_currency_action data"; cases "au_features data")
    (simp_all add: case_prod_beta split: option.split)

lemma roster_update_tc [simp]: "roster (update_tc t c f d) = roster d"
  by (simp add: update_tc_def)

lemma roster_apply_currency [simp]: "roster (apply_currency_update_conn now t row opts d) = roster d"
  by (simp add: apply_currency_update_conn_def Let_def)

lemma roster_staff_event [simp]: "roster (insert_staff_currency_event_conn t row a u d) = roster d"
  by (simp add: insert_staff_currency_event_conn_def)

lemma roster_admin_currency:
  assumes "admin_update_currency now g t c u opts d = Inr (x, d')"
  shows "roster d' = roster d"
proof -
  from assms obtain found where f: "lock_currency_runtime_conn now t c d = Inr found"
    unfolding admin_update_currency_def by (auto simp: res_bind_eq_Inr)
  show ?thesis
  proof (cases found)
    case None
    with assms f show ?thesis by (simp add: admin_update_currency_def)
  next
    case (Some row)
    with assms f show ?thesis
      by (cases "uo_amount opts")
        (auto simp: admin_update_currency_def res_bind_eq_Inr Let_def split: if_splits)
  qed
qed

lemma roster_admin_update': "admin_update now clock g t actor data d = (r, d') \<Longrightarrow> roster d' = roster d"
  using roster_admin_update [of now clock g t actor data d] by simp

section \<open>Whole requests\<close>

theorem team_handle_steps:
  assumes "fresh \<notin> t_id ` set (teams d)"
  shows "roster_steps (roster d) (roster (snd (team_handle lower now fresh uid req d)))"
proof -
  have "roster_step (roster d) (roster (snd (team_handle lower now fresh uid req d)))"
  proof (cases req)
    case (ReqCreate g name pass bio)
    have "snd (create_self lower now fresh uid g name pass bio d)
        = (if trim name = [] \<or> length (trim name) > 40 \<or> \<not> valid_password (trim pass) then d
           else snd (user_create lower now fresh uid
             \<lparr>put_name = trim name, put_pass = trim pass, put_bio = bio, put_game = g\<rparr> d))"
      by (simp add: create_self_def split: prod.split team_create_result.split)
    with ReqCreate assms show ?thesis by (simp add: create_step roster_step.stay)
  next
    case (ReqJoin t pw)
    then show ?thesis
      by (auto simp: join_handler_def intro: join_step roster_step.stay split: sum.split)
  next
    case (ReqLeave g)
    then show ?thesis
      by (simp add: leave_self_def flag_response_def leave_def delete_member_step roster_step.stay
          split: option.split)
  next
    case (ReqUpdate g data)
    then show ?thesis
      by (simp add: check_leader_middleware_def update_self_def Let_def case_prod_beta roster_step.stay)
  next
    case (ReqDisband g)
    then show ?thesis
      by (simp add: check_leader_middleware_def disband_self_def flag_response_def disband_step
          roster_step.stay split: option.split)
  next
    case (ReqKick g u)
    then show ?thesis
      by (simp add: check_leader_middleware_def kick_self_def flag_response_def kick_member_def
          delete_member_step roster_step.stay split: option.split)
  next
    case (ReqPromote g u)
    then show ?thesis
      by (simp add: check_leader_middleware_def promote_self_def flag_response_def promote_step
          roster_step.stay split: option.split)
  qed
  then show ?thesis by (rule r_into_rtranclp)
qed

theorem team_admin_handle_steps:
  assumes "fresh \<notin> t_id ` set (teams d)"
  shows "roster_steps (roster d) (roster (snd (team_admin_handle ux now fresh actor req d)))"
proof (cases req)
  case (AdminCreate g data)
  let ?req = "data\<lparr>ac_name := trim (ac_name data)\<rparr>"
  have "snd (create_handler ux now fresh g data d)
      = (if valid_admin_create ?req then snd (admin_create ux now fresh g ?req d) else d)"
    by (simp add: create_handler_def Let_def split: prod.split admin_team_create_result.split)
  with AdminCreate admin_create_step [OF assms] show ?thesis by auto
next
  case (AdminUpdate g t data)
  have "roster (snd (update_handler now now g t actor data d)) = roster d"
    by (auto simp: update_handler_def Let_def roster_admin_update'
        split: prod.split admin_team_update_result.split)
  with AdminUpdate show ?thesis by simp
next
  case (AdminAdd g t u)
  have "snd (member_response r) = snd r" for r by (cases r rule: member_response.cases) simp_all
  with AdminAdd add_member_step [of d ux now g t u] show ?thesis by auto
next
  case (AdminRemove g t u)
  have "snd (remove_member_handler g t u d) = snd (admin_remove_member g t u d)"
    by (simp add: remove_member_handler_def split: prod.split admin_member_result.split)
  with AdminRemove remove_member_steps [of d g t u] show ?thesis by simp
next
  case (AdminPromote g t u)
  have "snd (member_response r) = snd r" for r by (cases r rule: member_response.cases) simp_all
  with AdminPromote promote_step [of d t u] show ?thesis by (auto simp: admin_promote_member_def)
next
  case (AdminCurrency g t c opts reason)
  have "roster (snd (update_currency_handler now g t c actor opts reason d)) = roster d"
    by (auto simp: update_currency_handler_def dest: roster_admin_currency split: sum.split option.split)
  with AdminCurrency show ?thesis by simp
next
  case (AdminDelete g t)
  then show ?thesis
    by (auto simp: delete_handler_def admin_delete_def intro: dissolve_step split: option.split)
qed

text \<open>Any history of requests; a new team gets an identifier no team has.\<close>

inductive team_run :: "db \<Rightarrow> db \<Rightarrow> bool" where
  start: "team_run d d"
| player: "team_run d d' \<Longrightarrow> fresh \<notin> t_id ` set (teams d') \<Longrightarrow>
    team_run d (snd (team_handle lower now fresh uid req d'))"
| staff: "team_run d d' \<Longrightarrow> fresh \<notin> t_id ` set (teams d') \<Longrightarrow>
    team_run d (snd (team_admin_handle ux now fresh actor areq d'))"

lemma team_run_steps: "team_run d d' \<Longrightarrow> roster_steps (roster d) (roster d')"
  by (induction rule: team_run.induct)
    (auto intro: rtranclp_trans team_handle_steps team_admin_handle_steps)

lemma roster_steps_ok: "roster_steps R R' \<Longrightarrow> roster_ok R \<Longrightarrow> roster_ok R'"
  by (induction rule: rtranclp_induct) (auto intro: roster_step_ok)

section \<open>Properties\<close>

text \<open>
  C10: who is in which team stays consistent. Starting without teams, after any history of requests by
  players and administrators every member belongs to an existing team of the member's game, nobody
  is in two teams of one game, and no team has two captains.
\<close>

theorem membership_invariant:
  assumes "team_run d d'" and "teams d = []" and "members d = []"
  shows "(\<forall>m \<in> set (members d'). \<exists>t \<in> set (teams d'). t_id t = m_team m \<and> t_game t = m_game m)
    \<and> distinct (map (\<lambda>m. (m_user m, m_game m)) (members d'))
    \<and> (\<forall>a \<in> set (members d'). \<forall>b \<in> set (members d').
          m_captain a \<and> m_captain b \<and> m_team a = m_team b \<longrightarrow> m_user a = m_user b)"
proof -
  have "roster_ok (roster d)"
    using assms(2,3) by (simp add: roster_ok_def roster_def one_captain_def)
  then have "roster_ok (roster d')"
    using roster_steps_ok team_run_steps [OF assms(1)] by blast
  then have ok: "\<forall>m \<in> set (members d'). (m_team m, m_game m) \<in> (\<lambda>t. (t_id t, t_game t)) ` set (teams d')"
    "distinct (map (\<lambda>m. (m_user m, m_game m)) (members d'))" "one_captain (members d')"
    by (simp_all add: roster_ok_def roster_def)
  from ok(1) have "\<forall>m \<in> set (members d'). \<exists>t \<in> set (teams d'). t_id t = m_team m \<and> t_game t = m_game m"
    by (fastforce simp: image_iff)
  with ok(2,3) show ?thesis unfolding one_captain_def by blast
qed

lemma membership_invariant_witness:
  "\<exists>d'. team_handle (\<lambda>s. s) 5 4 9 (ReqCreate 2 [65] [97, 97, 97, 97, 97, 97, 97, 97] [])
       (empty_db\<lparr>games := [\<lparr>g_id = 2, g_active = True, g_max_members = None, g_allow_duplicate_names = True\<rparr>]\<rparr>)
     = (Created 4, d') \<and> members d' \<noteq> [] \<and> distinct (map (\<lambda>m. (m_user m, m_game m)) (members d'))"
proof -
  let ?d = "empty_db\<lparr>games := [\<lparr>g_id = 2, g_active = True, g_max_members = None, g_allow_duplicate_names = True\<rparr>]\<rparr>"
  let ?r = "team_handle (\<lambda>s. s) 5 4 9 (ReqCreate 2 [65] [97, 97, 97, 97, 97, 97, 97, 97] []) ?d"
  obtain r d' where rd: "?r = (r, d')" by (rule prod.exhaust)
  have "team_run ?d (snd ?r)"
    by (rule team_run.player [OF team_run.start]) (simp add: empty_db_def)
  from membership_invariant [OF this]
  have "distinct (map (\<lambda>m. (m_user m, m_game m)) (members d'))" unfolding rd by (simp add: empty_db_def)
  moreover have "fst ?r = Created 4" "members (snd ?r) \<noteq> []"
    by (simp_all add: create_self_def trim_def is_whitespace_def valid_password_def user_create_def
        lock_duplicate_name_policy_conn_def find_game_def team_open_def find_feature_def in_game_def
        exists_row_def empty_db_def insert_event_def init_team_puzzles_conn_def Let_def
        refresh_team_hint_enablements_def refresh_team_hint_enablements_conn_def add_enables_def)
  then have "r = Created 4" "members d' \<noteq> []" unfolding rd by simp_all
  ultimately show ?thesis using rd by blast
qed

end
