(* ===== verification/Team_Players.thy ===== *)
theory Team_Players
  imports Roster
begin

text \<open>
  What players can do to teams, names and members: a second abstract machine, finer than the roster,
  whose steps carry the guards of the player requests; a simulation; and the properties of any
  history of player requests.
\<close>

section \<open>The machine\<close>

type_synonym team_core = "nat \<times> nat \<times> ustr \<times> bool"

definition team_core :: "team_row \<Rightarrow> team_core" where
  "team_core t = (t_id t, t_game t, t_name t, t_locked t)"

type_synonym core = "game_row list \<times> team_core list \<times> member_row list"

definition core_of :: "db \<Rightarrow> core" where
  "core_of d = (games d, map team_core (teams d), members d)"

definition size_of :: "member_row list \<Rightarrow> nat \<Rightarrow> nat" where
  "size_of ms t = length (filter (\<lambda>m. m_team m = t) ms)"

definition has_room :: "game_row list \<Rightarrow> nat \<Rightarrow> nat \<Rightarrow> bool" where
  "has_room gs g n \<longleftrightarrow> (case find (\<lambda>r. g_id r = g) gs of
     None \<Rightarrow> False | Some r \<Rightarrow> (case g_max_members r of None \<Rightarrow> True | Some k \<Rightarrow> int n < k))"

definition duplicates_allowed :: "game_row list \<Rightarrow> nat \<Rightarrow> bool" where
  "duplicates_allowed gs g \<longleftrightarrow> (case find (\<lambda>r. g_id r = g) gs of
     None \<Rightarrow> False | Some r \<Rightarrow> g_allow_duplicate_names r)"

definition name_free :: "(ustr \<Rightarrow> ustr) \<Rightarrow> team_core list \<Rightarrow> nat \<Rightarrow> ustr \<Rightarrow> bool" where
  "name_free lower ts g n \<longleftrightarrow>
     (\<forall>(i, g', n', l) \<in> set ts. g' = g \<longrightarrow> norm_name lower n' \<noteq> norm_name lower n)"

definition has_captain :: "member_row list \<Rightarrow> nat \<Rightarrow> bool" where
  "has_captain ms t \<longleftrightarrow> exists_row (\<lambda>m. m_team m = t \<and> m_captain m) ms"

definition renamed :: "nat \<Rightarrow> ustr \<Rightarrow> team_core list \<Rightarrow> team_core list" where
  "renamed t n ts = map (\<lambda>x. if fst x = t then (t, fst (snd x), n, snd (snd (snd x))) else x) ts"

inductive player_step :: "(ustr \<Rightarrow> ustr) \<Rightarrow> core \<Rightarrow> core \<Rightarrow> bool" for lower where
  stay: "player_step lower C C"
| joins: "(m_team m, m_game m, n, l) \<in> set ts \<Longrightarrow> has_room gs (m_game m) (size_of ms (m_team m)) \<Longrightarrow>
    \<not> m_captain m \<Longrightarrow> player_step lower (gs, ts, ms) (gs, ts, ms @ [m])"
| creates: "m_team m \<notin> fst ` set ts \<Longrightarrow> duplicates_allowed gs (m_game m) \<or> name_free lower ts (m_game m) n \<Longrightarrow>
    player_step lower (gs, ts, ms) (gs, ts @ [(m_team m, m_game m, n, False)], ms @ [m])"
| goes: "(t, g, n, False) \<in> set ts \<Longrightarrow> player_step lower (gs, ts, ms) (gs, ts, delete_rows (member_of t u) ms)"
| disbands: "has_captain ms t \<Longrightarrow> (t, g, n, False) \<in> set ts \<Longrightarrow>
    player_step lower (gs, ts, ms) (gs, filter (\<lambda>x. fst x \<noteq> t) ts, delete_rows (\<lambda>m. m_team m = t) ms)"
| promotes: "has_captain ms t \<Longrightarrow> player_step lower (gs, ts, ms)
    (gs, ts, update_rows (\<lambda>m. m_team m = t) (\<lambda>m. m\<lparr>m_captain := (m_user m = u)\<rparr>) ms)"
| renames: "(t, g, n, False) \<in> set ts \<Longrightarrow>
    duplicates_allowed gs g \<or> name_free lower (filter (\<lambda>x. fst x \<noteq> t) ts) g n' \<or> norm_name lower n' = norm_name lower n \<Longrightarrow>
    player_step lower (gs, ts, ms) (gs, renamed t n' ts, ms)"

inductive_cases player_stepE: "player_step lower C C'"

section \<open>The requests as steps\<close>

lemma core_frame [simp]:
  "core_of (insert_event e d) = core_of d"
  "core_of (init_team_puzzles_conn now t g d) = core_of d"
  "core_of (refresh_team_hint_enablements now t only d) = core_of d"
  by (simp_all add: core_of_def insert_event_def init_team_puzzles_conn_def
      refresh_team_hint_enablements_def refresh_team_hint_enablements_conn_def add_enables_def Let_def)

lemma core_members [simp]:
  "core_of (d\<lparr>members := ms\<rparr>) = (games d, map team_core (teams d), ms)"
  by (simp add: core_of_def)

lemma team_core_in: "t \<in> set (teams d) \<Longrightarrow>
    (t_id t, t_game t, t_name t, t_locked t) \<in> set (map team_core (teams d))"
  by (force simp: team_core_def)

lemma fst_team_core [simp]: "fst (team_core t) = t_id t"
  by (simp add: team_core_def)

lemma team_core_ids [simp]: "fst ` team_core ` set ts = t_id ` set ts"
  by (simp add: image_image)

lemma not_duplicate:
  assumes "\<not> duplicate_team_name_exists_conn lower d g name None"
  shows "name_free lower (map team_core (teams d)) g name"
  using assms
  by (auto simp: duplicate_team_name_exists_conn_def name_free_def team_core_def exists_row_iff)

lemma not_duplicate_other:
  assumes "\<not> duplicate_team_name_exists_conn lower d g name (Some i)"
  shows "name_free lower (filter (\<lambda>x. fst x \<noteq> i) (map team_core (teams d))) g name"
  using assms
  by (auto simp: duplicate_team_name_exists_conn_def name_free_def team_core_def exists_row_iff)

lemma policy_allowed:
  "lock_duplicate_name_policy_conn d g = Some b \<Longrightarrow> duplicates_allowed (games d) g = b"
  by (auto simp: lock_duplicate_name_policy_conn_def find_game_def duplicates_allowed_def)

lemma join_player:
  assumes "join now t u pw d = Inr (r, d')"
  shows "player_step lower (core_of d) (core_of d')"
proof (cases "r = JoinOk")
  case False
  with assms have "d' = d" by (auto simp: join_def split: option.splits if_splits)
  then show ?thesis by (simp add: player_step.stay)
next
  case True
  from assms True obtain v g where v: "find_team d t = Some v" "find_game d (t_game v) = Some g"
    "\<not> (case g_max_members g of None \<Rightarrow> False | Some k \<Rightarrow> int (length (team_members d t)) \<ge> k)"
    and d': "d' = insert_event (team_event ''team.member.joined'' (t_game v) (Some t) (Some u) None)
      (d\<lparr>members := members d @ [new_member now v u False]\<rparr>)"
    by (auto simp: join_def split: option.splits if_splits)
  from find_team_mem [OF v(1)] have t: "v \<in> set (teams d)" "t_id v = t" by simp_all
  let ?m = "new_member now v u False"
  have "has_room (games d) (m_game ?m) (size_of (members d) (m_team ?m))"
    using v(2,3) t(2) by (auto simp: has_room_def find_game_def new_member_def size_of_def
        team_members_def split: option.splits)
  from player_step.joins [OF _ this, where n = "t_name v" and l = "t_locked v"
      and ts = "map team_core (teams d)"] team_core_in [OF t(1)]
  show ?thesis unfolding d' by (simp add: core_of_def [of d] new_member_def)
qed

lemma create_player:
  assumes "fresh \<notin> t_id ` set (teams d)"
  shows "player_step lower (core_of d) (core_of (snd (user_create lower now fresh u data d)))"
proof (cases "fst (user_create lower now fresh u data d) = CreateOk fresh")
  case False
  then have "snd (user_create lower now fresh u data d) = d"
    by (simp add: user_create_def Let_def split: option.splits if_splits)
  then show ?thesis by (simp add: player_step.stay)
next
  case True
  then obtain allow where a: "lock_duplicate_name_policy_conn d (put_game data) = Some allow"
    and free: "allow \<or> \<not> duplicate_team_name_exists_conn lower d (put_game data) (put_name data) None"
    and after: "core_of (snd (user_create lower now fresh u data d))
      = (games d, map team_core (teams d) @ [team_core (new_team fresh data)],
         members d @ [new_member now (new_team fresh data) u True])"
    by (auto simp: user_create_def Let_def core_of_def [of "_\<lparr>teams := _, members := _\<rparr>"]
        split: option.splits if_splits)
  let ?m = "new_member now (new_team fresh data) u True"
  have "duplicates_allowed (games d) (m_game ?m)
      \<or> name_free lower (map team_core (teams d)) (m_game ?m) (put_name data)"
    using free policy_allowed [OF a] not_duplicate by (auto simp: new_member_def)
  moreover have "m_team ?m \<notin> fst ` set (map team_core (teams d))"
    using assms by (simp add: new_member_def)
  ultimately have "player_step lower (core_of d) (games d, map team_core (teams d)
      @ [(m_team ?m, m_game ?m, put_name data, False)], members d @ [?m])"
    unfolding core_of_def by (intro player_step.creates)
  then show ?thesis unfolding after by (simp add: team_core_def new_member_def new_team_def)
qed

lemma delete_member_player:
  "player_step lower (core_of d) (core_of (snd (delete_member_unlocked ty t u k d)))"
proof (cases "find_team d t")
  case None
  then show ?thesis by (simp add: delete_member_unlocked_def player_step.stay)
next
  case (Some x)
  then have x: "x \<in> set (teams d)" "t_id x = t" using find_team_mem by blast+
  show ?thesis
  proof (cases "t_locked x \<or> \<not> exists_row (member_of t u) (members d)")
    case True
    with Some show ?thesis by (simp add: delete_member_unlocked_def player_step.stay)
  next
    case False
    from player_step.goes [where t = t and g = "t_game x" and n = "t_name x" and gs = "games d" and ms = "members d" and u = u]
      team_core_in [OF x(1)] x(2) False Some
    show ?thesis by (simp add: delete_member_unlocked_def core_of_def [of d])
  qed
qed

lemma leader_captain:
  assumes "is_leader_in_game d g u" and "member_team d u g = Some t"
  shows "has_captain (members d) t"
proof -
  obtain m where "find (\<lambda>m. m_game m = g \<and> m_user m = u) (members d) = Some m" "m_captain m"
    using assms(1) by (auto simp: is_leader_in_game_def split: option.splits)
  moreover have "find (\<lambda>m. m_user m = u \<and> m_game m = g) (members d)
      = find (\<lambda>m. m_game m = g \<and> m_user m = u) (members d)"
    by (rule arg_cong [where f = "\<lambda>q. find q (members d)"]) auto
  ultimately show ?thesis
    using assms(2) by (auto simp: member_team_def has_captain_def exists_row_iff dest: find_member_in)
qed

lemma core_delete_team:
  "core_of (delete_team t d) = (games d, filter (\<lambda>x. fst x \<noteq> t) (map team_core (teams d)),
     delete_rows (\<lambda>m. m_team m = t) (members d))"
  by (simp add: core_of_def delete_team_def delete_rows_def filter_map comp_def)

lemma disband_player:
  assumes "has_captain (members d) t"
  shows "player_step lower (core_of d) (core_of (snd (disband t d)))"
proof (cases "find_team d t")
  case None
  then show ?thesis by (simp add: disband_def player_step.stay)
next
  case (Some x)
  then have x: "x \<in> set (teams d)" "t_id x = t" using find_team_mem by blast+
  show ?thesis
  proof (cases "t_locked x \<or> team_members d t = []")
    case True
    with Some show ?thesis by (simp add: disband_def player_step.stay)
  next
    case False
    then have "(t, t_game x, t_name x, False) \<in> set (map team_core (teams d))"
      using team_core_in [OF x(1)] x(2) by simp
    from player_step.disbands [OF assms this, where gs = "games d"] False Some
    show ?thesis by (simp add: disband_def core_delete_team core_of_def [of d])
  qed
qed

lemma promote_player:
  assumes "has_captain (members d) t"
  shows "player_step lower (core_of d) (core_of (snd (promote_member t u d)))"
proof (cases "find (member_of t u) (members d)")
  case None
  then show ?thesis by (simp add: promote_member_def player_step.stay)
next
  case (Some m)
  with player_step.promotes [OF assms, where gs = "games d" and u = u] show ?thesis
    by (simp add: promote_member_def core_of_def [of d])
qed

lemma captain_team_game:
  assumes "roster_ok (roster d)" and "captain_team d g u = Some t"
  shows "t \<in> set (teams d) \<and> t_game t = g"
proof -
  from assms(2) obtain m where m: "m \<in> set (members d)" "m_game m = g" and f: "find_team d (m_team m) = Some t"
    by (auto simp: captain_team_def split: option.splits dest!: find_member_in)
  from find_team_mem [OF f] have t: "t \<in> set (teams d)" "t_id t = m_team m" by simp_all
  then have "(m_team m, t_game t) \<in> set (fst (roster d))" by (force simp: roster_def)
  moreover have "(m_team m, g) \<in> set (fst (roster d))" "distinct (map fst (fst (roster d)))"
    using assms(1) m by (auto simp: roster_ok_def roster_def)
  ultimately show ?thesis using distinct_fst_unique t(1) by fast
qed

lemma core_rename:
  "core_of (d\<lparr>teams := update_rows (\<lambda>t. t_id t = i) (set_profile data) (teams d)\<rparr>)
   = (games d, map (\<lambda>x. if fst x = i then (i, fst (snd x),
        (case ud_name data of None \<Rightarrow> fst (snd (snd x)) | Some n \<Rightarrow> n), snd (snd (snd x))) else x)
      (map team_core (teams d)), members d)"
  by (auto simp: core_of_def update_rows_def team_core_def set_profile_def or_keep_def split: option.split)

lemma user_update_refused: "user_update lower g u data d = (r, d') \<Longrightarrow> r \<noteq> UpdateOk \<Longrightarrow> d' = d"
  by (auto simp: user_update_def split: option.splits if_splits)

lemma user_update_okE:
  assumes "user_update lower g u data d = (UpdateOk, d')"
  obtains allow t where "lock_duplicate_name_policy_conn d g = Some allow" and "captain_team d g u = Some t"
    and "\<forall>n. ud_name data = Some n \<longrightarrow> \<not> t_locked t
      \<and> (norm_name lower (t_name t) = norm_name lower n \<or> allow
          \<or> \<not> duplicate_team_name_exists_conn lower d g n (Some (t_id t)))"
    and "d' = insert_event (team_event ''team.updated'' g (Some (t_id t)) (Some u) None)
      (d\<lparr>teams := update_rows (\<lambda>x. t_id x = t_id t) (set_profile data) (teams d)\<rparr>)"
  using assms
  by (cases "ud_name data") (auto simp: user_update_def split: option.splits if_splits)

lemma update_player:
  assumes "roster_ok (roster d)"
  shows "player_step lower (core_of d) (core_of (snd (user_update lower g u data d)))"
proof (cases "fst (user_update lower g u data d) = UpdateOk")
  case False
  then have "snd (user_update lower g u data d) = d"
    using user_update_refused by (metis prod.collapse)
  then show ?thesis by (simp add: player_step.stay)
next
  case True
  then obtain d' where d': "user_update lower g u data d = (UpdateOk, d')"
    by (metis prod.collapse)
  then obtain allow t where p: "lock_duplicate_name_policy_conn d g = Some allow"
    and t: "captain_team d g u = Some t"
    and free: "\<forall>n. ud_name data = Some n \<longrightarrow> \<not> t_locked t
      \<and> (norm_name lower (t_name t) = norm_name lower n \<or> allow
          \<or> \<not> duplicate_team_name_exists_conn lower d g n (Some (t_id t)))"
    and e: "d' = insert_event (team_event ''team.updated'' g (Some (t_id t)) (Some u) None)
      (d\<lparr>teams := update_rows (\<lambda>x. t_id x = t_id t) (set_profile data) (teams d)\<rparr>)"
    by (rule user_update_okE)
  have after: "core_of (snd (user_update lower g u data d))
      = core_of (d\<lparr>teams := update_rows (\<lambda>x. t_id x = t_id t) (set_profile data) (teams d)\<rparr>)"
    unfolding d' e by simp
  from captain_team_game [OF assms t] have t': "t \<in> set (teams d)" "t_game t = g" by simp_all
  show ?thesis
  proof (cases "ud_name data")
    case None
    then have "core_of (snd (user_update lower g u data d)) = core_of d"
      unfolding after core_rename by (auto simp: core_of_def team_core_def)
    then show ?thesis by (simp add: player_step.stay)
  next
    case (Some n)
    let ?ts = "map team_core (teams d)"
    have "(t_id t, g, t_name t, False) \<in> set ?ts"
      using team_core_in [OF t'(1)] t'(2) free Some by simp
    moreover have "duplicates_allowed (games d) g \<or> name_free lower (filter (\<lambda>x. fst x \<noteq> t_id t) ?ts) g n
        \<or> norm_name lower n = norm_name lower (t_name t)"
      using free Some policy_allowed [OF p] not_duplicate_other by metis
    ultimately have "player_step lower (games d, ?ts, members d)
      (games d, renamed (t_id t) n ?ts, members d)"
      by (rule player_step.renames)
    then show ?thesis unfolding after core_rename core_of_def [of d] Some option.case(2) renamed_def by simp
  qed
qed

lemma team_handle_player:
  assumes "fresh \<notin> t_id ` set (teams d)" and "roster_ok (roster d)"
  shows "player_step lower (core_of d) (core_of (snd (team_handle lower now fresh uid req d)))"
proof (cases req)
  case (ReqCreate g name pass bio)
  have "snd (create_self lower now fresh uid g name pass bio d)
      = (if trim name = [] \<or> length (trim name) > 40 \<or> \<not> valid_password (trim pass) then d
         else snd (user_create lower now fresh uid
           \<lparr>put_name = trim name, put_pass = trim pass, put_bio = bio, put_game = g\<rparr> d))"
    by (simp add: create_self_def split: prod.split team_create_result.split)
  with ReqCreate assms(1) show ?thesis by (simp add: create_player player_step.stay)
next
  case (ReqJoin t pw)
  then show ?thesis
    by (auto simp: join_handler_def intro: join_player player_step.stay split: sum.split)
next
  case (ReqLeave g)
  then show ?thesis
    by (simp add: leave_self_def flag_response_def leave_def delete_member_player player_step.stay
        split: option.split)
next
  case (ReqUpdate g data)
  then show ?thesis
    by (simp add: check_leader_middleware_def update_self_def Let_def case_prod_beta player_step.stay
        update_player [OF assms(2)])
next
  case (ReqDisband g)
  then show ?thesis
    by (auto simp: check_leader_middleware_def disband_self_def flag_response_def
        intro: player_step.stay disband_player leader_captain split: option.split)
next
  case (ReqKick g u)
  then show ?thesis
    by (simp add: check_leader_middleware_def kick_self_def flag_response_def kick_member_def
        delete_member_player player_step.stay split: option.split)
next
  case (ReqPromote g u)
  then show ?thesis
    by (auto simp: check_leader_middleware_def promote_self_def flag_response_def
        intro: player_step.stay promote_player leader_captain split: option.split)
qed

text \<open>Any history of requests by players.\<close>

inductive player_run :: "(ustr \<Rightarrow> ustr) \<Rightarrow> db \<Rightarrow> db \<Rightarrow> bool" for lower where
  init: "player_run lower d d"
| step: "player_run lower d d' \<Longrightarrow> fresh \<notin> t_id ` set (teams d') \<Longrightarrow>
    player_run lower d (snd (team_handle lower now fresh uid req d'))"

lemma player_run_ok: "player_run lower d d' \<Longrightarrow> roster_ok (roster d) \<Longrightarrow> roster_ok (roster d')"
  by (induction rule: player_run.induct) (auto intro: roster_steps_ok team_handle_steps)

text \<open>A property of the core every guarded step keeps holds after any history.\<close>

lemma player_run_invariant:
  assumes "player_run lower d d'" and "roster_ok (roster d)" and "P (core_of d)"
    and "\<And>C C'. player_step lower C C' \<Longrightarrow> roster_ok (map (\<lambda>(i, g, n, l). (i, g)) (fst (snd C)), snd (snd C))
      \<Longrightarrow> P C \<Longrightarrow> P C'"
  shows "P (core_of d')"
  using assms(1,2,3)
proof (induction rule: player_run.induct)
  case (step d d' fresh now uid req)
  have "roster_ok (roster d')" using player_run_ok step by blast
  moreover have "roster d' = (map (\<lambda>(i, g, n, l). (i, g)) (fst (snd (core_of d'))), snd (snd (core_of d')))"
    by (simp add: roster_def core_of_def team_core_def comp_def)
  ultimately show ?case
    using step team_handle_player [OF step.hyps(2), of lower now uid req] assms(4) by metis
qed

lemma has_captain_simps [simp]:
  "has_captain (ms @ [m]) t \<longleftrightarrow> has_captain ms t \<or> m_team m = t \<and> m_captain m"
  by (auto simp: has_captain_def exists_row_iff)

lemma has_captain_delete: "has_captain (delete_rows p ms) t \<Longrightarrow> has_captain ms t"
  by (auto simp: has_captain_def exists_row_iff)

lemma has_captain_promote:
  "t \<noteq> t' \<Longrightarrow> has_captain (update_rows (\<lambda>m. m_team m = t') (\<lambda>m. m\<lparr>m_captain := b m\<rparr>) ms) t = has_captain ms t"
  by (auto simp: has_captain_def exists_row_iff set_update_rows split: if_splits)

lemma ids_renamed [simp]: "map fst (renamed t n ts) = map fst ts"
  by (simp add: renamed_def)

definition captainless :: "nat \<Rightarrow> core \<Rightarrow> bool" where
  "captainless t C \<longleftrightarrow> t \<in> set (map fst (fst (snd C))) \<and> \<not> has_captain (snd (snd C)) t"

lemma captainless_step: "player_step lower C C' \<Longrightarrow> captainless t C \<Longrightarrow> captainless t C'"
proof (induction rule: player_step.induct)
  case (disbands ms t' g n ts gs)
  then have "t' \<noteq> t" by (auto simp: captainless_def)
  with disbands show ?case by (auto simp: captainless_def dest: has_captain_delete)
next
  case (promotes ms t' gs ts u)
  then have "t \<noteq> t'" by (auto simp: captainless_def)
  with promotes show ?case by (simp add: captainless_def has_captain_promote)
next
  case (renames t' g n ts gs n' ms)
  then show ?case by (simp only: captainless_def fst_conv snd_conv ids_renamed simp_thms)
qed (auto simp: captainless_def dest: has_captain_delete)

section \<open>Sizes, names and locks\<close>

definition sizes_ok :: "nat \<Rightarrow> int \<Rightarrow> core \<Rightarrow> bool" where
  "sizes_ok g k C \<longleftrightarrow> 1 \<le> k \<and> (\<exists>r. find (\<lambda>r. g_id r = g) (fst C) = Some r \<and> g_max_members r = Some k)
     \<and> (\<forall>x \<in> set (fst (snd C)). fst (snd x) = g \<longrightarrow> int (size_of (snd (snd C)) (fst x)) \<le> k)"

lemma size_append [simp]: "size_of (ms @ [m]) t = size_of ms t + (if m_team m = t then 1 else 0)"
  by (simp add: size_of_def)

lemma size_delete: "size_of (delete_rows p ms) t \<le> size_of ms t"
  by (simp add: size_of_def delete_rows_def filter_filter) (simp add: length_filter_conv_card card_mono Collect_mono)

lemma size_update [simp]:
  "(\<And>m. m_team (f m) = m_team m) \<Longrightarrow> size_of (update_rows p f ms) t = size_of ms t"
  by (induction ms) (auto simp: size_of_def update_rows_def)

lemma ball_renamed:
  "(\<forall>x \<in> set (renamed t n ts). P (fst x) (fst (snd x))) \<longleftrightarrow> (\<forall>x \<in> set ts. P (fst x) (fst (snd x)))"
  by (induction ts) (auto simp: renamed_def)

abbreviation core_ok :: "core \<Rightarrow> bool" where
  "core_ok C \<equiv> roster_ok (map (\<lambda>(i, g, n, l). (i, g)) (fst (snd C)), snd (snd C))"

lemma core_ok_ids:
  assumes "core_ok (gs, ts, ms)"
  shows "distinct (map fst ts)" and "m \<in> set ms \<Longrightarrow> m_team m \<in> fst ` set ts"
proof -
  have "map fst (map (\<lambda>(i, g, n, l). (i, g)) ts) = map fst ts" by (induction ts) auto
  then show "distinct (map fst ts)" using assms unfolding roster_ok_def fst_conv snd_conv by metis
  show "m_team m \<in> fst ` set ts" if "m \<in> set ms"
    using assms that by (force simp: roster_ok_def)
qed

lemma same_id: "distinct (map fst ts) \<Longrightarrow> x \<in> set ts \<Longrightarrow> y \<in> set ts \<Longrightarrow> fst x = fst y \<Longrightarrow> x = y"
  by (metis distinct_map inj_onD)

lemma sizes_shrink:
  assumes "sizes_ok g k (gs, ts, ms)" and "\<And>t. size_of ms' t \<le> size_of ms t" and "set ts' \<subseteq> set ts"
  shows "sizes_ok g k (gs, ts', ms')"
proof -
  have "int (size_of ms' (fst x)) \<le> k" if "x \<in> set ts'" "fst (snd x) = g" for x
  proof -
    have "int (size_of ms (fst x)) \<le> k" using assms(1,3) that unfolding sizes_ok_def by auto
    then show ?thesis using assms(2) [of "fst x"] by linarith
  qed
  with assms(1) show ?thesis by (simp add: sizes_ok_def)
qed

lemma sizes_step: "player_step lower C C' \<Longrightarrow> core_ok C \<Longrightarrow> sizes_ok g k C \<Longrightarrow> sizes_ok g k C'"
proof (induction rule: player_step.induct)
  case (joins m n l ts gs ms)
  have "int (size_of (ms @ [m]) (fst x)) \<le> k" if x: "x \<in> set ts" "fst (snd x) = g" for x
  proof (cases "fst x = m_team m")
    case True
    then have "x = (m_team m, m_game m, n, l)"
      using same_id [OF core_ok_ids(1) [OF joins.prems(1)] x(1) joins.hyps(1)] by simp
    with True joins x show ?thesis by (auto simp: sizes_ok_def has_room_def)
  next
    case False
    with joins.prems(2) x show ?thesis by (auto simp: sizes_ok_def)
  qed
  with joins.prems(2) show ?case by (simp add: sizes_ok_def)
next
  case (creates m ts gs n ms)
  have "size_of ms (m_team m) = 0"
    using core_ok_ids(2) [OF creates.prems(1)] creates.hyps(1)
    unfolding size_of_def length_0_conv filter_empty_conv by metis
  moreover have "fst x \<noteq> m_team m" if "x \<in> set ts" for x using creates.hyps(1) that by force
  ultimately show ?case using creates.prems(2) by (auto simp: sizes_ok_def)
next
  case (goes t g' n ts gs ms u)
  show ?case by (rule sizes_shrink [OF goes.prems(2)]) (simp_all add: size_delete)
next
  case (disbands ms t g' n ts gs)
  show ?case by (rule sizes_shrink [OF disbands.prems(2)]) (auto simp: size_delete)
next
  case (promotes ms t gs ts u)
  then show ?case by (simp add: sizes_ok_def)
next
  case (renames t g' n ts gs n' ms)
  then show ?case
    unfolding sizes_ok_def fst_conv snd_conv
    using ball_renamed [of t n' ts "\<lambda>i j. j = g \<longrightarrow> int (size_of ms i) \<le> k"] by blast
qed

definition game_names :: "(ustr \<Rightarrow> ustr) \<Rightarrow> nat \<Rightarrow> team_core list \<Rightarrow> ustr list" where
  "game_names lower g ts = map (\<lambda>x. norm_name lower (fst (snd (snd x)))) (filter (\<lambda>x. fst (snd x) = g) ts)"

lemma game_names_simps [simp]:
  "game_names lower g (xs @ ys) = game_names lower g xs @ game_names lower g ys"
  "game_names lower g ((t, g', n, l) # ys)
    = (if g' = g then [norm_name lower n] else []) @ game_names lower g ys"
  "game_names lower g [] = []"
  by (simp_all add: game_names_def)

lemma name_free_names: "name_free lower ts g n \<longleftrightarrow> norm_name lower n \<notin> set (game_names lower g ts)"
  by (force simp: name_free_def game_names_def)

definition names_ok :: "(ustr \<Rightarrow> ustr) \<Rightarrow> nat \<Rightarrow> core \<Rightarrow> bool" where
  "names_ok lower g C \<longleftrightarrow> \<not> duplicates_allowed (fst C) g \<and>
     distinct (game_names lower g (fst (snd C)))"

definition frozen :: "nat \<Rightarrow> ustr \<Rightarrow> nat set \<Rightarrow> core \<Rightarrow> bool" where
  "frozen t n us C \<longleftrightarrow> (\<exists>g. (t, g, n, True) \<in> set (fst (snd C)))
     \<and> us \<subseteq> m_user ` set (filter (\<lambda>m. m_team m = t) (snd (snd C)))"

lemma renamed_absent: "t \<notin> fst ` set xs \<Longrightarrow> renamed t n xs = xs \<and> filter (\<lambda>x. fst x \<noteq> t) xs = xs"
  by (induction xs) (auto simp: renamed_def)

lemma renamed_middle:
  assumes "distinct (map fst (xs @ (t, g, n, l) # ys))"
  shows "renamed t n' (xs @ (t, g, n, l) # ys) = xs @ (t, g, n', l) # ys"
    and "filter (\<lambda>x. fst x \<noteq> t) (xs @ (t, g, n, l) # ys) = xs @ ys"
proof -
  have "t \<notin> fst ` set xs" "t \<notin> fst ` set ys" using assms by auto
  note absent = renamed_absent [OF this(1)] renamed_absent [OF this(2)]
  have "renamed t n' (xs @ (t, g, n, l) # ys) = renamed t n' xs @ (t, g, n', l) # renamed t n' ys"
    by (simp add: renamed_def)
  with absent show "renamed t n' (xs @ (t, g, n, l) # ys) = xs @ (t, g, n', l) # ys" by metis
  show "filter (\<lambda>x. fst x \<noteq> t) (xs @ (t, g, n, l) # ys) = xs @ ys"
    using absent by (simp only: filter_append filter.simps fst_conv) simp
qed

lemma names_step: "player_step lower C C' \<Longrightarrow> core_ok C \<Longrightarrow> names_ok lower g C \<Longrightarrow> names_ok lower g C'"
proof (induction rule: player_step.induct)
  case (creates m ts gs n ms)
  then show ?case by (auto simp: names_ok_def name_free_names)
next
  case (disbands ms t g' n ts gs)
  have "filter (\<lambda>x. fst (snd x) = g) (filter (\<lambda>x. fst x \<noteq> t) ts)
      = filter (\<lambda>x. fst x \<noteq> t) (filter (\<lambda>x. fst (snd x) = g) ts)"
    by (simp add: filter_filter conj_commute)
  with disbands.prems(2) show ?case
    unfolding names_ok_def game_names_def fst_conv snd_conv by (simp only: distinct_map_filter simp_thms)
next
  case (renames t g' n ts gs n' ms)
  have d: "distinct (map fst ts)" using renames.prems(1) by (rule core_ok_ids)
  obtain xs ys where ts: "ts = xs @ (t, g', n, False) # ys"
    using renames.hyps(1) by (meson split_list)
  note mid = renamed_middle [OF d [unfolded ts]]
  with renames show ?case
    unfolding ts mid by (cases "g' = g") (auto simp: names_ok_def name_free_names)
qed (simp_all add: names_ok_def)

lemma frozen_step: "player_step lower C C' \<Longrightarrow> core_ok C \<Longrightarrow> frozen t n us C \<Longrightarrow> frozen t n us C'"
proof (induction rule: player_step.induct)
  case (joins m n' l ts gs ms)
  then show ?case by (auto simp: frozen_def)
next
  case (creates m ts gs n' ms)
  then show ?case by (auto simp: frozen_def)
next
  case (goes t' g' n' ts gs ms u)
  then have "t' \<noteq> t"
    using same_id [OF core_ok_ids(1) [OF goes.prems(1)]] by (fastforce simp: frozen_def)
  then have "filter (\<lambda>m. m_team m = t) (delete_rows (member_of t' u) ms) = filter (\<lambda>m. m_team m = t) ms"
    by (auto simp: delete_rows_def member_of_def filter_filter intro!: filter_cong)
  with goes show ?case by (simp add: frozen_def)
next
  case (disbands ms t' g' n' ts gs)
  then have "t' \<noteq> t"
    using same_id [OF core_ok_ids(1) [OF disbands.prems(1)]] by (fastforce simp: frozen_def)
  then have "filter (\<lambda>m. m_team m = t) (delete_rows (\<lambda>m. m_team m = t') ms) = filter (\<lambda>m. m_team m = t) ms"
    by (auto simp: delete_rows_def filter_filter intro!: filter_cong)
  with disbands \<open>t' \<noteq> t\<close> show ?case by (auto simp: frozen_def)
next
  case (promotes ms t' gs ts u)
  have "map m_user (filter (\<lambda>m. m_team m = t) (update_rows p (\<lambda>m. m\<lparr>m_captain := b m\<rparr>) ms))
      = map m_user (filter (\<lambda>m. m_team m = t) ms)" for p b
    by (induction ms) (simp_all add: update_rows_def)
  then have "m_user ` set (filter (\<lambda>m. m_team m = t) (update_rows p (\<lambda>m. m\<lparr>m_captain := b m\<rparr>) ms))
      = m_user ` set (filter (\<lambda>m. m_team m = t) ms)" for p b
    unfolding set_map [symmetric] by (rule arg_cong)
  with promotes.prems(2) show ?case unfolding frozen_def fst_conv snd_conv by (simp only:)
next
  case (renames t' g' n' ts gs n'' ms)
  then have "t' \<noteq> t"
    using same_id [OF core_ok_ids(1) [OF renames.prems(1)]] by (fastforce simp: frozen_def)
  with renames.prems show ?case by (force simp: frozen_def renamed_def)
qed

section \<open>Properties\<close>

lemma team_members_size: "length (team_members d t) = size_of (members d) t"
  by (simp add: team_members_def size_of_def)

text \<open>
  C11: players cannot overfill a team. With a member limit of at least one set for the game, teams
  within the limit stay within it whatever requests players send.
\<close>

theorem team_sizes_bounded:
  assumes "player_run lower d d'" and "roster_ok (roster d)"
    and "find_game d g = Some r" and "g_max_members r = Some k" and "1 \<le> k"
    and "\<forall>t \<in> set (teams d). t_game t = g \<longrightarrow> int (length (team_members d (t_id t))) \<le> k"
  shows "\<forall>t \<in> set (teams d'). t_game t = g \<longrightarrow> int (length (team_members d' (t_id t))) \<le> k"
proof -
  have "sizes_ok g k (core_of d)"
    using assms(3-6) by (auto simp: sizes_ok_def core_of_def team_core_def find_game_def team_members_size)
  then have "sizes_ok g k (core_of d')"
    by (rule player_run_invariant [OF assms(1,2)]) (rule sizes_step)
  then show ?thesis by (auto simp: sizes_ok_def core_of_def team_core_def team_members_size)
qed

text \<open>
  C12: team names stay unique. In a game that does not allow duplicate names, no sequence of player
  requests makes two teams' names equal up to outer blanks and case.
\<close>

theorem team_names_stay_unique:
  assumes "player_run lower d d'" and "roster_ok (roster d)"
    and "find_game d g = Some r" and "\<not> g_allow_duplicate_names r"
    and "distinct (map (\<lambda>t. norm_name lower (t_name t)) (filter (\<lambda>t. t_game t = g) (teams d)))"
  shows "distinct (map (\<lambda>t. norm_name lower (t_name t)) (filter (\<lambda>t. t_game t = g) (teams d')))"
proof -
  have core: "names_ok lower g (core_of e) \<longleftrightarrow> \<not> duplicates_allowed (games e) g \<and>
      distinct (map (\<lambda>t. norm_name lower (t_name t)) (filter (\<lambda>t. t_game t = g) (teams e)))" for e
    by (simp add: names_ok_def game_names_def core_of_def filter_map comp_def team_core_def)
  have "names_ok lower g (core_of d)"
    using assms(3-5) unfolding core by (auto simp: find_game_def duplicates_allowed_def)
  then have "names_ok lower g (core_of d')"
    by (rule player_run_invariant [OF assms(1,2)]) (rule names_step)
  then show ?thesis unfolding core by simp
qed

text \<open>
  C29: a locked team is frozen for players. Whatever requests players send, it keeps existing, keeps
  its name and its lock, and loses no member.
\<close>

theorem locked_teams_are_frozen:
  assumes "player_run lower d d'" and "roster_ok (roster d)"
    and "find_team d t = Some x" and "t_locked x"
  shows "(\<exists>x' \<in> set (teams d'). t_id x' = t \<and> t_name x' = t_name x \<and> t_locked x')
    \<and> m_user ` set (team_members d t) \<subseteq> m_user ` set (team_members d' t)"
proof -
  have "frozen t (t_name x) (m_user ` set (team_members d t)) (core_of d)"
    using find_team_mem [OF assms(3)] team_core_in [of x d] assms(4)
    by (auto simp: frozen_def core_of_def team_members_def)
  then have "frozen t (t_name x) (m_user ` set (team_members d t)) (core_of d')"
    by (rule player_run_invariant [OF assms(1,2)]) (rule frozen_step)
  then show ?thesis
    by (auto simp: frozen_def core_of_def team_core_def team_members_def)
qed

lemma team_core_keys:
  "map team_core ts = map team_core ts' \<Longrightarrow> map (\<lambda>t. (t_id t, t_game t)) ts = map (\<lambda>t. (t_id t, t_game t)) ts'"
proof -
  have keys: "map (\<lambda>t. (t_id t, t_game t)) ts = map (\<lambda>x. (fst x, fst (snd x))) (map team_core ts)" for ts
    by (simp add: team_core_def)
  assume "map team_core ts = map team_core ts'"
  then show ?thesis by (simp only: keys)
qed

lemma sole_member_found:
  assumes "roster_ok (roster d)" and "m \<in> set (members d)"
  shows "member_team d (m_user m) (m_game m) = Some (m_team m)"
proof -
  have "distinct (map (\<lambda>m. (m_user m, m_game m)) (members d))"
    using assms(1) by (simp add: roster_ok_def roster_def)
  then have inj: "inj_on (\<lambda>m. (m_user m, m_game m)) (set (members d))" by (simp add: distinct_map)
  obtain m' where m': "find (\<lambda>x. m_user x = m_user m \<and> m_game x = m_game m) (members d) = Some m'"
    using assms(2) by (cases "find (\<lambda>x. m_user x = m_user m \<and> m_game x = m_game m) (members d)")
      (auto simp: find_None_iff)
  have "m' = m"
    by (rule inj_onD [OF inj]) (use find_member_in [OF m'] assms(2) in simp_all)
  with m' show ?thesis by (simp add: member_team_def)
qed

text \<open>
  A captain can leave the team, and the team is then without a captain for good: leaving is not
  behind the leader check, every request that could make somebody captain is, so no later sequence
  of player requests gives the team a captain, renames it through one, or disbands it.
\<close>

theorem captain_leaves_for_good:
  assumes "roster_ok (roster d)" and "find_team d t = Some x" and "\<not> t_locked x"
    and "m \<in> set (members d)" and "m_captain m" and "m_team m = t"
    and "team_handle lower now fresh (m_user m) (ReqLeave (m_game m)) d = (r, d1)"
    and "player_run lower d1 d2"
  shows "r = Done \<and> t \<in> t_id ` set (teams d2) \<and> (\<forall>m \<in> set (members d2). m_team m = t \<longrightarrow> \<not> m_captain m)"
proof -
  have "member_team d (m_user m) (m_game m) = Some t"
    using sole_member_found [OF assms(1,4)] assms(6) by simp
  moreover have "exists_row (member_of t (m_user m)) (members d)"
    using assms(4,6) by (auto simp: exists_row_iff member_of_def)
  ultimately have r: "r = Done" and d1: "core_of d1
      = (games d, map team_core (teams d), delete_rows (member_of t (m_user m)) (members d))"
    using assms(2,3,7) by (auto simp: leave_self_def flag_response_def leave_def delete_member_unlocked_def)
  have oc: "one_captain (members d)" using assms(1) by (simp add: roster_ok_def roster_def)
  have "m_user a = m_user m" if "a \<in> set (members d)" "m_captain a" "m_team a = t" for a
    by (rule one_captainD [OF oc that(1) assms(4) that(2) assms(5)]) (simp add: that(3) assms(6))
  then have "\<not> has_captain (delete_rows (member_of t (m_user m)) (members d)) t"
    by (auto simp: has_captain_def exists_row_iff member_of_def)
  moreover have "t \<in> set (map fst (map team_core (teams d)))"
    using find_team_mem [OF assms(2)] by force
  ultimately have "captainless t (core_of d1)" unfolding captainless_def d1 by simp
  moreover have "roster d1 = (fst (roster d), delete_rows (member_of t (m_user m)) (members d))"
    using d1 by (simp add: core_of_def roster_def) (metis team_core_keys)
  then have "roster_ok (roster d1)"
    using roster_step_ok [OF quit_step assms(1)] by simp
  ultimately have "captainless t (core_of d2)"
    using player_run_invariant [OF assms(8), of "captainless t"] captainless_step by blast
  then show ?thesis
    using r by (auto simp: captainless_def core_of_def has_captain_def exists_row_iff)
qed

text \<open>A game with a limit of three members and one team: captain 7 and member 8.\<close>

definition team_sample :: "bool \<Rightarrow> db" where
  "team_sample locked = empty_db\<lparr>
     games := [\<lparr>g_id = 2, g_active = True, g_max_members = Some 3, g_allow_duplicate_names = False\<rparr>],
     teams := [\<lparr>t_id = 3, t_name = [65], t_pass = [112], t_bio = [], t_game = 2, t_banned = False,
       t_locked = locked, t_beta = False, t_dirty = False, t_start = None, t_finish = None\<rparr>],
     members := [\<lparr>m_team = 3, m_user = 7, m_game = 2, m_captain = True, m_ctime = 0\<rparr>,
                 \<lparr>m_team = 3, m_user = 8, m_game = 2, m_captain = False, m_ctime = 1\<rparr>]\<rparr>"

lemma team_sample_ok: "roster_ok (roster (team_sample b))"
  by (simp add: roster_ok_def roster_def team_sample_def one_captain_def)

lemma team_sample_game: "find_game (team_sample b) 2
    = Some \<lparr>g_id = 2, g_active = True, g_max_members = Some 3, g_allow_duplicate_names = False\<rparr>"
  by (simp add: team_sample_def find_game_def)

lemma one_request:
  "fresh \<notin> t_id ` set (teams d) \<Longrightarrow> player_run lower d (snd (team_handle lower now fresh uid req d))"
  by (intro player_run.step player_run.init)

lemma team_sizes_bounded_witness:
  "team_handle (\<lambda>s. s) 5 4 9 (ReqJoin 3 [112]) (team_sample False)
     = (Done, snd (team_handle (\<lambda>s. s) 5 4 9 (ReqJoin 3 [112]) (team_sample False)))
   \<and> length (team_members (snd (team_handle (\<lambda>s. s) 5 4 9 (ReqJoin 3 [112]) (team_sample False))) 3) \<le> 3"
proof -
  let ?d = "snd (team_handle (\<lambda>s. s) 5 4 9 (ReqJoin 3 [112]) (team_sample False))"
  have run: "player_run (\<lambda>s. s) (team_sample False) ?d"
    by (rule one_request) (simp add: team_sample_def)
  have "\<forall>t \<in> set (teams ?d). t_game t = 2 \<longrightarrow> int (length (team_members ?d (t_id t))) \<le> 3"
    by (rule team_sizes_bounded [OF run team_sample_ok team_sample_game])
      (simp_all add: team_sample_def team_members_def)
  then show ?thesis
    by (simp add: team_sample_def join_handler_def join_def find_team_def team_open_def find_feature_def
        find_game_def team_members_def in_game_def exists_row_def insert_event_def empty_db_def)
qed

lemma team_names_stay_unique_witness:
  "distinct (map t_name (teams (snd (team_handle (\<lambda>s. s) 5 4 9
      (ReqCreate 2 [65] [97, 97, 97, 97, 97, 97, 97, 97] []) (team_sample False)))))"
proof -
  let ?d = "snd (team_handle (\<lambda>s. s) 5 4 9
      (ReqCreate 2 [65] [97, 97, 97, 97, 97, 97, 97, 97] []) (team_sample False))"
  have run: "player_run (\<lambda>s. s) (team_sample False) ?d"
    by (rule one_request) (simp add: team_sample_def)
  have "distinct (map (\<lambda>t. norm_name (\<lambda>s. s) (t_name t)) (filter (\<lambda>t. t_game t = 2) (teams ?d)))"
    by (rule team_names_stay_unique [OF run team_sample_ok team_sample_game]) (simp_all add: team_sample_def)
  then show ?thesis
    by (simp add: team_sample_def create_self_def trim_def is_whitespace_def valid_password_def user_create_def
        lock_duplicate_name_policy_conn_def find_game_def team_open_def find_feature_def
        duplicate_team_name_exists_conn_def exists_row_def norm_name_def btrim_def empty_db_def)
qed

lemma locked_teams_are_frozen_witness:
  "m_user ` set (team_members (snd (team_handle (\<lambda>s. s) 5 4 7 (ReqDisband 2) (team_sample True))) 3) \<supseteq> {7, 8}"
proof -
  have run: "player_run (\<lambda>s. s) (team_sample True)
      (snd (team_handle (\<lambda>s. s) 5 4 7 (ReqDisband 2) (team_sample True)))"
    by (rule one_request) (simp add: team_sample_def)
  have "find_team (team_sample True) 3 = Some (hd (teams (team_sample True)))" "t_locked (hd (teams (team_sample True)))"
    by (simp_all add: team_sample_def find_team_def)
  from locked_teams_are_frozen [OF run team_sample_ok this] show ?thesis
    by (simp add: team_sample_def team_members_def)
qed

lemma captain_leaves_for_good_witness:
  "\<exists>d1. team_handle (\<lambda>s. s) 5 4 7 (ReqLeave 2) (team_sample False) = (Done, d1)
    \<and> \<not> has_captain (members (snd (team_handle (\<lambda>s. s) 5 4 8 (ReqPromote 2 8) d1))) 3"
proof -
  let ?m = "\<lparr>m_team = 3, m_user = 7, m_game = 2, m_captain = True, m_ctime = 0\<rparr>"
  let ?r = "team_handle (\<lambda>s. s) 5 4 (m_user ?m) (ReqLeave (m_game ?m)) (team_sample False)"
  obtain r d1 where rd: "?r = (r, d1)" by (cases ?r)
  have ids: "t_id ` set (teams d1) = {3}"
    using rd by (auto simp: team_sample_def leave_self_def member_team_def flag_response_def leave_def
        delete_member_unlocked_def find_team_def insert_event_def split: if_splits)
  have run: "player_run (\<lambda>s. s) d1 (snd (team_handle (\<lambda>s. s) 5 4 8 (ReqPromote 2 8) d1))"
    by (rule one_request) (simp add: ids)
  have f: "find_team (team_sample False) 3 = Some (hd (teams (team_sample False)))"
    "\<not> t_locked (hd (teams (team_sample False)))" "?m \<in> set (members (team_sample False))"
    by (simp_all add: team_sample_def find_team_def)
  from captain_leaves_for_good [OF team_sample_ok f _ _ rd run] rd show ?thesis
    by (auto simp: has_captain_def exists_row_iff)
qed

text \<open>
  Removal by an administrator never leaves a team without a captain. When it succeeds the team has
  a captain afterwards: the old one, or the member who joined first.
\<close>

theorem admin_removal_keeps_a_captain:
  assumes "roster_ok (roster d)" and "admin_remove_member g t u d = (MemberOk, d')"
  shows "has_captain (members d') t"
proof -
  define goes :: "member_row \<Rightarrow> bool" where "goes = (\<lambda>m. m_team m = t \<and> m_user m = u \<and> m_game m = g)"
  let ?d = "d\<lparr>members := delete_rows goes (members d)\<rparr>"
  let ?in = "filter (\<lambda>m. m_team m = t \<and> m_game m = g) (members d)"
  have many: "\<not> length ?in \<le> 1"
    and d': "d' = (if exists_row (\<lambda>m. m_team m = t \<and> m_captain m) (members ?d) then ?d else appoint_earliest t ?d)"
    using assms(2) by (auto simp: admin_remove_member_def goes_def Let_def split: if_splits)
  show ?thesis
  proof (cases "exists_row (\<lambda>m. m_team m = t \<and> m_captain m) (members ?d)")
    case True
    then show ?thesis unfolding d' has_captain_def by simp
  next
    case False
    have keys: "distinct (map (\<lambda>m. (m_user m, m_game m)) ?in)"
      using assms(1) by (intro distinct_map_filter) (simp add: roster_ok_def roster_def)
    obtain a b rest where ab: "?in = a # b # rest"
    proof (cases ?in)
      case Nil
      with many show ?thesis by simp
    next
      case (Cons a xs)
      with many that show ?thesis by (cases xs) simp_all
    qed
    have in_ab: "a \<in> set ?in" "b \<in> set ?in" unfolding ab by simp_all
    then have "m_game a = m_game b" by simp
    then have "m_user a \<noteq> m_user b" using keys unfolding ab by simp
    then have "m_user a \<noteq> u \<or> m_user b \<noteq> u" by auto
    moreover have "{a, b} \<subseteq> set ?in" using in_ab by blast
    ultimately have "team_members ?d t \<noteq> []"
      by (auto simp: team_members_def goes_def delete_rows_def filter_empty_conv)
    then obtain m where m: "earliest_member (team_members ?d t) = Some m"
      using set_sort [of m_ctime "team_members ?d t"]
      by (cases "sort_key m_ctime (team_members ?d t)") (auto simp: earliest_member_def)
    from earliest_in [OF m] have "m \<in> set (members ?d)" "m_team m = t" by (simp_all add: team_members_def)
    then have "m\<lparr>m_captain := True\<rparr> \<in> set (members d')"
      unfolding d' using False m by (auto simp: appoint_earliest_def set_update_rows member_of_def intro!: exI [of _ m])
    with \<open>m_team m = t\<close> show ?thesis
      unfolding has_captain_def exists_row_iff by (intro bexI [of _ "m\<lparr>m_captain := True\<rparr>"]) simp_all
  qed
qed

lemma admin_removal_keeps_a_captain_witness:
  "\<exists>d'. admin_remove_member 2 3 7 (team_sample False) = (MemberOk, d') \<and> has_captain (members d') 3"
proof -
  obtain r d' where rd: "admin_remove_member 2 3 7 (team_sample False) = (r, d')" by (rule prod.exhaust)
  then have "r = MemberOk"
    by (auto simp: admin_remove_member_def team_sample_def team_in_game_def exists_row_def Let_def split: if_splits)
  with rd admin_removal_keeps_a_captain [OF team_sample_ok] show ?thesis by blast
qed

text \<open>
  A team whose last member has left cannot be deleted. The administrator's request is answered as
  done, but the team is still there, because the deletion gives up on a team without members.
\<close>

theorem deserted_team_is_not_deleted:
  assumes "roster_ok (roster d)" and "find_team d t = Some x" and "\<not> t_locked x"
    and "team_members d t = [m]"
    and "team_handle lower now fresh (m_user m) (ReqLeave (t_game x)) d = (r, d1)"
  shows "r = Done \<and> team_admin_handle ux now' fresh' actor (AdminDelete (t_game x) t) d1 = (Done, d1)
    \<and> t \<in> t_id ` set (teams d1)"
proof -
  from assms(4) have "m \<in> set (team_members d t)" by simp
  then have m: "m \<in> set (members d)" "m_team m = t" by (simp_all add: team_members_def)
  from find_team_mem [OF assms(2)] have x: "x \<in> set (teams d)" "t_id x = t" by simp_all
  have "(t, m_game m) \<in> set (fst (roster d))" "distinct (map fst (fst (roster d)))"
    using assms(1) m by (auto simp: roster_ok_def roster_def)
  moreover have "(t, t_game x) \<in> set (fst (roster d))" using x by (force simp: roster_def)
  ultimately have g: "m_game m = t_game x" using distinct_fst_unique by fast
  have "member_team d (m_user m) (t_game x) = Some t"
    using sole_member_found [OF assms(1) m(1)] m(2) g by simp
  moreover have "exists_row (member_of t (m_user m)) (members d)"
    using m by (auto simp: exists_row_iff member_of_def)
  ultimately have r: "r = Done" and d1: "teams d1 = teams d"
      "members d1 = delete_rows (member_of t (m_user m)) (members d)"
    using assms(2,3,5) by (auto simp: leave_self_def flag_response_def leave_def delete_member_unlocked_def
        insert_event_def)
  have "team_members d1 t = delete_rows (member_of t (m_user m)) (team_members d t)"
    unfolding team_members_def d1(2) delete_rows_def by (simp add: filter_filter conj_commute)
  then have "team_members d1 t = []"
    unfolding assms(4) using m(2) by (simp add: delete_rows_def member_of_def)
  moreover have "team_in_game d1 (t_game x) t \<noteq> None"
    using x d1(1) by (auto simp: team_in_game_def find_None_iff)
  ultimately show ?thesis
    using r x d1(1) by (auto simp: delete_handler_def admin_delete_def split: option.split)
qed

lemma deserted_team_is_not_deleted_witness:
  "\<exists>d1. team_handle (\<lambda>s. s) 5 4 7 (ReqLeave 2) (snd (admin_remove_member 2 3 8 (team_sample False))) = (Done, d1)
    \<and> team_admin_handle (\<lambda>i. True) 6 5 1 (AdminDelete 2 3) d1 = (Done, d1)"
proof -
  let ?d = "snd (admin_remove_member 2 3 8 (team_sample False))"
  let ?x = "hd (teams (team_sample False))"
  let ?m = "\<lparr>m_team = 3, m_user = 7, m_game = 2, m_captain = True, m_ctime = 0\<rparr>"
  obtain r d1 where rd: "team_handle (\<lambda>s. s) 5 4 (m_user ?m) (ReqLeave (t_game ?x)) ?d = (r, d1)"
    by (rule prod.exhaust)
  have ok: "roster_ok (roster ?d)"
    using roster_steps_ok [OF remove_member_steps team_sample_ok] .
  have f: "find_team ?d 3 = Some ?x" "\<not> t_locked ?x" "team_members ?d 3 = [?m]"
    by (simp_all add: admin_remove_member_def team_sample_def team_in_game_def exists_row_def Let_def
        find_team_def team_members_def delete_rows_def)
  from deserted_team_is_not_deleted [OF ok f rd, of "\<lambda>i. True" 6 5 1] rd show ?thesis
    by (simp add: team_sample_def)
qed

end
