(* ===== verification/Submit.thy ===== *)
theory Submit
  imports Hints
begin

text \<open>
  Submitting an answer: \<^verbatim>\<open>submit_answer\<close> of \<^verbatim>\<open>src/db/puzzle.rs\<close>, one transaction followed by an unlock
  pass and a refresh of the hints, and what it calls. Scripts are the parameter \<open>run\<close>, which gets the
  database of the transaction. The leaderboard's update and the state read back for the answer are
  left out, and so is the rounding of intervals above 2^53 microseconds.
\<close>

section \<open>Whether an answer is taken\<close>

datatype submit_error = JudgeFailed judge_error | DbFailed db_error

definition lift_db :: "db_error + 'a \<Rightarrow> submit_error + 'a" where
  "lift_db r = (case r of Inl e \<Rightarrow> Inl (DbFailed e) | Inr x \<Rightarrow> Inr x)"

definition lift_judge :: "judge_error + 'a \<Rightarrow> submit_error + 'a" where
  "lift_judge r = (case r of Inl e \<Rightarrow> Inl (JudgeFailed e) | Inr x \<Rightarrow> Inr x)"

definition submit_access :: "time \<Rightarrow> nat \<Rightarrow> nat \<Rightarrow> db \<Rightarrow> bool option" where
  "submit_access now team_id puzzle_id d =
     (case (find_tp d team_id puzzle_id, find_team d team_id, effective_release d puzzle_id) of
        (Some tp, Some t, Some release_at) \<Rightarrow> Some (tp_state tp \<ge> 0 \<and> release_at \<le> now \<and> \<not> t_banned t)
      | _ \<Rightarrow> None)"

definition is_wrong :: "nat \<Rightarrow> nat \<Rightarrow> submission_row \<Rightarrow> bool" where
  "is_wrong team_id puzzle_id s \<longleftrightarrow>
     s_team s = team_id \<and> s_puzzle s = puzzle_id \<and> s_action s = 0 \<and> \<not> s_ignored s"

definition wrong_count :: "db \<Rightarrow> nat \<Rightarrow> nat \<Rightarrow> nat" where
  "wrong_count d team_id puzzle_id = length (filter (is_wrong team_id puzzle_id) (submissions d))"

definition submit_allowed :: "time \<Rightarrow> nat \<Rightarrow> nat \<Rightarrow> db \<Rightarrow> db_error + bool" where
  "submit_allowed now team_id puzzle_id d =
     (case (find_tp d team_id puzzle_id, find_puzzle d puzzle_id) of
        (Some tp, Some p) \<Rightarrow>
          if (case tp_cooldown_till tp of None \<Rightarrow> False | Some t \<Rightarrow> now < t) then Inr False
          else (case p_max_submit p of
              None \<Rightarrow> Inr True
            | Some k \<Rightarrow>
                if \<not> in_i32 (k + tp_max_submit tp) then Inl OutOfRange
                else Inr (int (wrong_count d team_id puzzle_id) < k + tp_max_submit tp))
      | _ \<Rightarrow> Inl RowNotFound)"

definition requirement_met :: "time \<Rightarrow> nat \<Rightarrow> nat \<Rightarrow> requirement \<Rightarrow> db \<Rightarrow> db_error + bool" where
  "requirement_met now team_id game_id req d =
     (case req of CurrencyMinimum currency_id minimum \<Rightarrow>
        if currency_id < 0 then Inr False
        else case find_currency d (nat currency_id) of
          None \<Rightarrow> Inr False
        | Some c \<Rightarrow>
            if c_game c \<noteq> game_id then Inr False
            else res_bind (lock_currency_runtime_conn now team_id (nat currency_id) d) (\<lambda>current.
              Inr (case current of None \<Rightarrow> False | Some row \<Rightarrow> minimum \<le> cr_current row)))"

fun submit_requirements_conn ::
  "time \<Rightarrow> nat \<Rightarrow> nat \<Rightarrow> requirement list \<Rightarrow> db \<Rightarrow> db_error + bool" where
  "submit_requirements_conn now team_id game_id [] d = Inr True"
| "submit_requirements_conn now team_id game_id (requirement # requirements) d =
     res_bind (requirement_met now team_id game_id requirement d) (\<lambda>ok.
       if ok then submit_requirements_conn now team_id game_id requirements d else Inr False)"

section \<open>The submission\<close>

text \<open>The unique index covers the submissions that are not ignored.\<close>

definition submission_key :: "submission_row \<Rightarrow> nat \<times> nat \<times> ustr" where
  "submission_key s = (s_team s, s_puzzle s, s_norm s)"

definition new_submission :: "time \<Rightarrow> nat \<Rightarrow> nat \<Rightarrow> nat \<Rightarrow> nat \<Rightarrow> ustr \<Rightarrow> ustr \<Rightarrow> submission_row" where
  "new_submission now fresh team_id user_id puzzle_id answer norm_answer =
     \<lparr>s_id = fresh, s_team = team_id, s_user = user_id, s_puzzle = puzzle_id, s_answer = answer,
      s_norm = norm_answer, s_action = - 1, s_result = None, s_real = None, s_ignored = False, s_ctime = now\<rparr>"

definition insert_submission :: "submission_row \<Rightarrow> db \<Rightarrow> db option" where
  "insert_submission row d =
     (if exists_row (\<lambda>s. \<not> s_ignored s \<and> submission_key s = submission_key row) (submissions d) then None
      else Some (d\<lparr>submissions := submissions d @ [row]\<rparr>))"

definition record_verdict :: "nat \<Rightarrow> judge_result \<Rightarrow> db \<Rightarrow> db" where
  "record_verdict submit_id result d =
     d\<lparr>submissions := update_rows (\<lambda>s. s_id s = submit_id)
        (\<lambda>s. s\<lparr>s_action := action_to_i16 (res_action result), s_result := res_result result,
             s_real := res_answer result,
             s_ignored := (res_ignored result \<or> res_action result = JError)\<rparr>) (submissions d)\<rparr>"

definition award_triggers :: "nat \<Rightarrow> nat \<Rightarrow> nat \<Rightarrow> judge_result \<Rightarrow> db \<Rightarrow> bool \<times> db" where
  "award_triggers team_id puzzle_id submit_id result d =
     (if \<not> res_ignored result \<and> res_action result \<noteq> JError \<and> res_triggers result \<noteq> []
      then insert_triggers team_id puzzle_id (res_triggers result) (Some submit_id) None d
      else (False, d))"

definition submission_event :: "string \<Rightarrow> nat \<Rightarrow> nat \<Rightarrow> nat \<Rightarrow> nat \<Rightarrow> nat \<Rightarrow> event_row" where
  "submission_event ty game_id team_id user_id puzzle_id submit_id =
     (blank_event ty)\<lparr>ev_game := Some game_id, ev_team := Some team_id, ev_user := Some user_id,
       ev_puzzle := Some puzzle_id, ev_submission := Some submit_id\<rparr>"

section \<open>Solving\<close>

definition mark_solved :: "time \<Rightarrow> nat \<Rightarrow> nat \<Rightarrow> db \<Rightarrow> bool \<times> db" where
  "mark_solved now team_id puzzle_id d =
     (let unsolved = (\<lambda>tp. tp_team tp = team_id \<and> tp_puzzle tp = puzzle_id \<and> tp_state tp = 0)
      in (affected unsolved (team_puzzles d) > 0,
          d\<lparr>team_puzzles := update_rows unsolved
             (\<lambda>tp. tp\<lparr>tp_state := 1, tp_solve_at := Some now\<rparr>) (team_puzzles d)\<rparr>))"

definition mark_finished :: "time \<Rightarrow> nat \<Rightarrow> db \<Rightarrow> db" where
  "mark_finished now team_id d =
     d\<lparr>teams := update_rows (\<lambda>t. t_id t = team_id \<and> t_start t \<noteq> None)
        (\<lambda>t. t\<lparr>t_finish := (case t_finish t of Some f \<Rightarrow> Some f | None \<Rightarrow> Some now)\<rparr>) (teams d)\<rparr>"

fun new_operations :: "time \<Rightarrow> ticket_action \<Rightarrow> nat \<Rightarrow> int \<Rightarrow> nat \<Rightarrow> nat list \<Rightarrow> ticket_operation_row list" where
  "new_operations now action actor_id actor_type i [] = []"
| "new_operations now action actor_id actor_type i (ticket_id # ids) =
     \<lparr>to_id = i, to_ticket = ticket_id, to_action = action, to_actor = actor_id,
       to_actor_type = actor_type, to_message = None, to_ctime = now\<rparr>
     # new_operations now action actor_id actor_type (Suc i) ids"

definition close_puzzle_tickets_on_solve_conn :: "time \<Rightarrow> nat \<Rightarrow> nat \<Rightarrow> nat \<Rightarrow> db \<Rightarrow> db" where
  "close_puzzle_tickets_on_solve_conn now team_id puzzle_id actor_id d =
     (let open_ones = (\<lambda>tk. tk_team tk = team_id \<and> tk_puzzle tk = Some puzzle_id \<and> tk_state tk \<noteq> 0)
      in d\<lparr>tickets := update_rows open_ones (\<lambda>tk. tk\<lparr>tk_state := 0\<rparr>) (tickets d),
           ticket_operations := ticket_operations d @
             new_operations now OpAutoCloseSolved actor_id 0 (next_id to_id (ticket_operations d))
               (map tk_id (filter open_ones (tickets d)))\<rparr>)"

definition apply_solve :: "time \<Rightarrow> nat \<Rightarrow> nat \<Rightarrow> puzzle_row \<Rightarrow> nat \<Rightarrow> bool \<Rightarrow> db \<Rightarrow> bool \<times> db" where
  "apply_solve now user_id team_id p submit_id finish d =
     (let (solved, d1) = mark_solved now team_id (p_id p) d;
          d2 = (if finish then mark_finished now team_id d1 else d1)
      in (solved,
          if solved
          then close_puzzle_tickets_on_solve_conn now team_id (p_id p) user_id
            (insert_event (submission_event ''puzzle.solved'' (p_game p) team_id user_id (p_id p) submit_id)
              (mark_team_dirty_conn team_id d2))
          else d2))"

section \<open>Starting the game\<close>

definition tc_key :: "team_currency_row \<Rightarrow> nat \<times> nat" where
  "tc_key tc = (tc_team tc, tc_currency tc)"

definition open_accounts :: "time \<Rightarrow> team_row \<Rightarrow> db \<Rightarrow> db" where
  "open_accounts at t d =
     d\<lparr>team_currencies := insert_new tc_key (team_currencies d)
        (map (\<lambda>c. \<lparr>tc_team = t_id t, tc_currency = c_id c, tc_amount = c_init_amount c, tc_growth = 0,
            tc_hidden = c_init_hidden c, tc_utime = at\<rparr>)
          (filter (\<lambda>c. c_game c = t_game t) (currencies d)))\<rparr>"

definition apply_start :: "time \<Rightarrow> nat \<Rightarrow> nat \<Rightarrow> puzzle_row \<Rightarrow> nat \<Rightarrow> db \<Rightarrow> db_error + bool \<times> db" where
  "apply_start now user_id team_id p submit_id d =
     (case (find_feature d (p_game p) Currency, find_team d team_id) of
        (Some gf, Some t) \<Rightarrow>
          (let at = (if f_state gf = 1 then max now (f_utime gf) else now);
               started = (t_start t = None);
               d1 = d\<lparr>teams := update_rows (\<lambda>t. t_id t = team_id)
                 (\<lambda>t. t\<lparr>t_locked := True,
                    t_start := (case t_start t of Some s \<Rightarrow> Some s | None \<Rightarrow> Some now)\<rparr>) (teams d)\<rparr>;
               d2 = (if started
                     then insert_event (submission_event ''game.started'' (p_game p) team_id user_id (p_id p) submit_id)
                       (mark_team_dirty_conn team_id d1)
                     else d1)
           in Inr (started, open_accounts at t d2))
      | _ \<Rightarrow> Inl RowNotFound)"

section \<open>Penalties\<close>

record penalties =
  pe_cooldown :: "int option"
  pe_currency :: "(nat \<times> int) list"

definition penalty_event :: "puzzle_row \<Rightarrow> nat \<Rightarrow> nat \<Rightarrow> nat \<Rightarrow> nat \<Rightarrow> int \<Rightarrow> int \<times> int \<Rightarrow> event_row" where
  "penalty_event p team_id user_id submit_id cid amount paid =
     (submission_event ''currency.penalty'' (p_game p) team_id user_id (p_id p) submit_id)
       \<lparr>ev_currency := Some cid, ev_delta := Some (wrap64 (- amount)), ev_before := Some (fst paid),
        ev_after := Some (snd paid)\<rparr>"

definition apply_penalty ::
  "time \<Rightarrow> nat \<Rightarrow> nat \<Rightarrow> puzzle_row \<Rightarrow> nat \<Rightarrow> nat \<Rightarrow> penalty_rule \<Rightarrow> penalties \<times> db
    \<Rightarrow> db_error + penalties \<times> db" where
  "apply_penalty now user_id team_id p submit_id failure_count rule st =
     (let (pe, d) = st in
      case (pn_type rule, pn_args rule) of
        (FixedTime, x # _) \<Rightarrow> Inr (pe\<lparr>pe_cooldown := Some x\<rparr>, d)
      | (LinearTime, x # _) \<Rightarrow> Inr (pe\<lparr>pe_cooldown := Some (saturate64 (x * int failure_count))\<rparr>, d)
      | (CurrencyPenalty, cid # amount # _) \<Rightarrow>
          if cid < 0 \<or> \<not> in_i32 cid then Inr st
          else res_bind (deduct now team_id (nat cid) (\<lambda>_. True) amount d) (\<lambda>(paid, d1).
            case paid of
              None \<Rightarrow> Inr (pe, d1)
            | Some row \<Rightarrow>
                Inr (pe\<lparr>pe_currency := pe_currency pe @ [(nat cid, amount)]\<rparr>,
                     insert_event (penalty_event p team_id user_id submit_id (nat cid) amount row) d1))
      | _ \<Rightarrow> Inr st)"

fun apply_penalties ::
  "time \<Rightarrow> nat \<Rightarrow> nat \<Rightarrow> puzzle_row \<Rightarrow> nat \<Rightarrow> nat \<Rightarrow> penalty_rule list \<Rightarrow> penalties \<times> db
    \<Rightarrow> db_error + penalties \<times> db" where
  "apply_penalties now user_id team_id p submit_id failure_count [] st = Inr st"
| "apply_penalties now user_id team_id p submit_id failure_count (rule # rules) st =
     res_bind (apply_penalty now user_id team_id p submit_id failure_count rule st)
       (apply_penalties now user_id team_id p submit_id failure_count rules)"

text \<open>The range of the database's time stamps.\<close>

definition timestamp_ok :: "time \<Rightarrow> bool" where
  "timestamp_ok t \<longleftrightarrow> - 210866803200000000 \<le> t \<and> t < 9224318016000000000"

definition set_cooldown :: "time \<Rightarrow> nat \<Rightarrow> nat \<Rightarrow> int \<Rightarrow> db \<Rightarrow> db_error + time option \<times> db" where
  "set_cooldown now team_id puzzle_id seconds d =
     (let till = now + seconds * 1000000; mine = (\<lambda>tp. tp_key tp = (team_id, puzzle_id)) in
      if \<not> timestamp_ok till then Inl OutOfRange
      else if \<not> exists_row mine (team_puzzles d) then Inl RowNotFound
      else Inr (Some till, d\<lparr>team_puzzles :=
        update_rows mine (\<lambda>tp. tp\<lparr>tp_cooldown_till := Some till\<rparr>) (team_puzzles d)\<rparr>))"

definition apply_fail ::
  "time \<Rightarrow> nat \<Rightarrow> nat \<Rightarrow> puzzle_row \<Rightarrow> nat \<Rightarrow> db \<Rightarrow> db_error + (time option \<times> (nat \<times> int) list) \<times> db" where
  "apply_fail now user_id team_id p submit_id d =
     (case p_penalty p of
        None \<Rightarrow> Inl (OtherError ''invalid penalty'')
      | Some rules \<Rightarrow>
          res_bind (apply_penalties now user_id team_id p submit_id (wrong_count d team_id (p_id p)) rules
              (\<lparr>pe_cooldown = None, pe_currency = []\<rparr>, d)) (\<lambda>(pe, d1).
            case pe_cooldown pe of
              None \<Rightarrow> Inr ((None, pe_currency pe), d1)
            | Some seconds \<Rightarrow>
                res_bind (set_cooldown now team_id (p_id p) seconds d1)
                  (\<lambda>(till, d2). Inr ((till, pe_currency pe), d2))))"

section \<open>The whole submission\<close>

record outcome =
  oc_solved :: bool
  oc_unlock :: bool
  oc_cooldown :: "time option"
  oc_penalty :: "(nat \<times> int) list"

definition no_outcome :: outcome where
  "no_outcome = \<lparr>oc_solved = False, oc_unlock = False, oc_cooldown = None, oc_penalty = []\<rparr>"

definition apply_action ::
  "time \<Rightarrow> nat \<Rightarrow> nat \<Rightarrow> puzzle_row \<Rightarrow> nat \<Rightarrow> judge_action \<Rightarrow> db \<Rightarrow> db_error + outcome \<times> db" where
  "apply_action now user_id team_id p submit_id action d =
     (if action = Correct \<or> action = FinishGame then
        (let (solved, d1) = apply_solve now user_id team_id p submit_id (action = FinishGame) d
         in Inr (no_outcome\<lparr>oc_solved := solved, oc_unlock := solved\<rparr>, d1))
      else if action = StartGame then
        res_bind (apply_start now user_id team_id p submit_id d)
          (\<lambda>(started, d1). Inr (no_outcome\<lparr>oc_unlock := started\<rparr>, d1))
      else if action = Fail then
        res_bind (apply_fail now user_id team_id p submit_id d)
          (\<lambda>((till, pen), d1). Inr (no_outcome\<lparr>oc_cooldown := till, oc_penalty := pen\<rparr>, d1))
      else Inr (no_outcome, d))"

definition apply_verdict ::
  "time \<Rightarrow> nat \<Rightarrow> nat \<Rightarrow> puzzle_row \<Rightarrow> nat \<Rightarrow> judge_result \<Rightarrow> db \<Rightarrow> db_error + outcome \<times> db" where
  "apply_verdict now user_id team_id p submit_id result d =
     (let (inserted, d1) = award_triggers team_id (p_id p) submit_id result (record_verdict submit_id result d);
          d2 = insert_event (submission_event ''submission.judged'' (p_game p) team_id user_id (p_id p) submit_id) d1
      in res_bind (apply_action now user_id team_id p submit_id (res_action result) d2)
           (\<lambda>(oc, d3). Inr (oc\<lparr>oc_unlock := (oc_unlock oc \<or> inserted)\<rparr>, d3)))"

datatype 'ev submit_answer_result =
    SubmitOk judge_result bool "nat list" "time option" "'ev list"
  | SubmitLocked | SubmitDuplicate | SubmitInvalid | SubmitNotFound

text \<open>What has to hold before the submission is stored: the puzzle and its rules.\<close>

datatype gate_result = Refused bool | Admitted puzzle_row "judge_rule list"

definition submit_gate ::
  "(nat \<Rightarrow> ustr) \<Rightarrow> time \<Rightarrow> nat \<Rightarrow> nat \<Rightarrow> db \<Rightarrow> submit_error + gate_result" where
  "submit_gate lower now team_id puzzle_id d =
     (case submit_access now team_id puzzle_id d of
        None \<Rightarrow> Inr (Refused True)
      | Some access \<Rightarrow>
          if \<not> access then Inr (Refused False)
          else res_bind (lift_db (submit_allowed now team_id puzzle_id d)) (\<lambda>allowed.
            if \<not> allowed then Inr (Refused False)
            else case find_puzzle d puzzle_id of
              None \<Rightarrow> Inl (DbFailed RowNotFound)
            | Some p \<Rightarrow>
                res_bind (lift_db (ok_or (OtherError ''invalid judge'') (p_judge p))) (\<lambda>judge.
                res_bind (lift_judge (value_to_judge lower judge)) (\<lambda>rules.
                  if rules = [] then Inr (Refused False)
                  else case p_requirements p of
                    None \<Rightarrow> Inr (Refused False)
                  | Some requirements \<Rightarrow>
                      res_bind (lift_db (submit_requirements_conn now team_id (p_game p) requirements d))
                        (\<lambda>ok. Inr (if ok then Admitted p rules else Refused False))))))"

text \<open>The transaction; a refusal commits nothing.\<close>

datatype 'ev submit_tx = TxRefused bool | TxDuplicate | TxDone judge_result outcome "'ev list"

definition submit_transaction ::
  "(nat \<Rightarrow> ustr) \<Rightarrow> (db, 'ev) script_runner \<Rightarrow> time \<Rightarrow> nat \<Rightarrow> nat \<Rightarrow> nat \<Rightarrow> nat \<Rightarrow> ustr \<Rightarrow> db
    \<Rightarrow> submit_error + 'ev submit_tx \<times> db" where
  "submit_transaction lower run now fresh user_id team_id puzzle_id answer d =
     res_bind (submit_gate lower now team_id puzzle_id d) (\<lambda>gate.
       case gate of
         Refused missing \<Rightarrow> Inr (TxRefused missing, d)
       | Admitted p rules \<Rightarrow>
           (case insert_submission (new_submission now fresh team_id user_id puzzle_id answer
                (normalize_answer lower answer)) d of
              None \<Rightarrow> Inr (TxDuplicate, d)
            | Some d1 \<Rightarrow>
                res_bind (lift_judge (submit_judge run rules (normalize_answer lower answer) d1))
                  (\<lambda>(result, evs, d2).
                   res_bind (lift_db (apply_verdict now user_id team_id p fresh result d2))
                     (\<lambda>(oc, d3). Inr (TxDone result oc evs, d3)))))"

definition submit_answer ::
  "(nat \<Rightarrow> ustr) \<Rightarrow> (db, 'ev) script_runner \<Rightarrow> time \<Rightarrow> nat \<Rightarrow> nat \<Rightarrow> nat \<Rightarrow> nat \<Rightarrow> ustr \<Rightarrow> db
    \<Rightarrow> submit_error + 'ev submit_answer_result \<times> db" where
  "submit_answer lower run now fresh user_id team_id puzzle_id answer d =
     (if normalize_answer lower answer = [] then Inr (SubmitInvalid, d)
      else res_bind (submit_transaction lower run now fresh user_id team_id puzzle_id answer d) (\<lambda>(tx, d1).
        case tx of
          TxRefused missing \<Rightarrow> Inr (if missing then SubmitNotFound else SubmitLocked, d1)
        | TxDuplicate \<Rightarrow> Inr (SubmitDuplicate, d1)
        | TxDone result oc evs \<Rightarrow>
            (let (unlocks, d2) = (if oc_unlock oc then unlock_new_puzzles now team_id d1 else ([], d1));
                 d3 = (if oc_unlock oc then refresh_team_hint_states now team_id None d2 else d2)
             in Inr (SubmitOk result (oc_solved oc) unlocks (oc_cooldown oc) evs, d3))))"

end
