(* ===== verification/Submissions.thy ===== *)
theory Submissions
  imports Submit
begin

text \<open>
  What a submission changes: per step of \<open>submit_answer\<close> its frame and its progress (solve marks of the
  team puzzles, solved entries of the log, verdicts of the submissions), histories of submissions, and
  the properties of the submission process.
\<close>

section \<open>Progress\<close>

definition solve_mark :: "db \<Rightarrow> nat \<times> nat \<Rightarrow> (int \<times> time option \<times> int) option" where
  "solve_mark d k = map_option (\<lambda>tp. (tp_state tp, tp_solve_at tp, tp_max_submit tp)) (find_tp d (fst k) (snd k))"

definition solved_log :: "db \<Rightarrow> nat \<times> nat \<Rightarrow> nat" where
  "solved_log d k = length (filter (\<lambda>e. ev_type e = ''puzzle.solved'' \<and> ev_team e = Some (fst k)
     \<and> ev_puzzle e = Some (snd k)) (events d))"

definition solved_mark :: "time \<Rightarrow> int \<times> time option \<times> int \<Rightarrow> int \<times> time option \<times> int" where
  "solved_mark now m = (1, Some now, snd (snd m))"

text \<open>The progress of a step: at most one puzzle \<open>w\<close> is solved, and the tables a gate reads stay.\<close>

definition progress :: "time \<Rightarrow> (nat \<times> nat) option \<Rightarrow> db \<Rightarrow> db \<Rightarrow> bool" where
  "progress now w d d' \<longleftrightarrow> map tp_key (team_puzzles d') = map tp_key (team_puzzles d)
     \<and> puzzles d' = puzzles d \<and> rounds d' = rounds d \<and> phases d' = phases d
     \<and> (\<forall>k. solve_mark d' k = (if w = Some k then map_option (solved_mark now) (solve_mark d k) else solve_mark d k))
     \<and> (\<forall>k. solved_log d' k = solved_log d k + (if w = Some k then 1 else 0))
     \<and> (\<forall>k. w = Some k \<longrightarrow> (\<exists>m. solve_mark d k = Some m \<and> fst m = 0))"

lemma progress_refl [simp]: "progress now None d d"
  by (simp add: progress_def)

lemma progress_trans:
  "progress now None d d' \<Longrightarrow> progress now w d' d'' \<Longrightarrow> progress now w d d''"
  "progress now w d d' \<Longrightarrow> progress now None d' d'' \<Longrightarrow> progress now w d d''"
  by (simp_all add: progress_def)

lemma progress_same:
  assumes "team_puzzles d' = team_puzzles d" and "events d' = events d"
    and "puzzles d' = puzzles d" and "rounds d' = rounds d" and "phases d' = phases d"
  shows "progress now None d d'"
  using assms by (simp add: progress_def solve_mark_def find_tp_def solved_log_def)

lemma progress_event:
  assumes "ev_type e \<noteq> ''puzzle.solved''"
  shows "progress now None d (insert_event e d)"
  using assms by (simp add: progress_def solve_mark_def find_tp_def solved_log_def insert_event_def)

lemma event_types [simp]:
  "ev_type (submission_event ty g t u p s) = ty" "ev_type (penalty_event q t u s c a pd) = ''currency.penalty''"
  "ev_team (submission_event ty g t u p s) = Some t" "ev_puzzle (submission_event ty g t u p s) = Some p"
  by (simp_all add: submission_event_def penalty_event_def blank_event_def)

lemma find_tp_keep:
  assumes "\<And>tp. tp_team (f tp) = tp_team tp" "\<And>tp. tp_puzzle (f tp) = tp_puzzle tp"
    and "\<And>tp. tp_state (f tp) = tp_state tp" "\<And>tp. tp_solve_at (f tp) = tp_solve_at tp"
    and "\<And>tp. tp_max_submit (f tp) = tp_max_submit tp"
  shows "map_option (\<lambda>tp. (tp_state tp, tp_solve_at tp, tp_max_submit tp))
      (find (\<lambda>tp. tp_team tp = t \<and> tp_puzzle tp = p) (update_rows q f tps))
    = map_option (\<lambda>tp. (tp_state tp, tp_solve_at tp, tp_max_submit tp))
      (find (\<lambda>tp. tp_team tp = t \<and> tp_puzzle tp = p) tps)"
  using assms by (induction tps) (auto simp: tbl_simps)

lemma progress_cooldown:
  assumes "set_cooldown now t p s d = Inr (till, d')"
  shows "progress now None d d'"
  using assms
  by (auto simp: set_cooldown_def Let_def progress_def solve_mark_def find_tp_def find_tp_keep solved_log_def
      tp_key_def split: if_splits)

lemma progress_dirty: "progress now None d (mark_team_dirty_conn t d)"
  by (rule progress_same) (simp_all add: mark_team_dirty_conn_def)

lemma progress_deduct: "deduct now t c en a d = Inr (paid, d') \<Longrightarrow> progress now None d d'"
  using deduct_cases by (force intro: progress_same simp: set_amount_def update_tc_def)

text \<open>Whatever charging, logging and setting a cooldown keep, the penalties of a wrong answer keep.\<close>

lemma apply_fail_keeps:
  assumes refl: "\<And>d. R d d" and trans: "\<And>a b c. R a b \<Longrightarrow> R b c \<Longrightarrow> R a c"
    and deduct: "\<And>c a d paid d'. deduct now t c (\<lambda>_. True) a d = Inr (paid, d') \<Longrightarrow> R d d'"
    and event: "\<And>e d. ev_type e = ''currency.penalty'' \<Longrightarrow> R d (insert_event e d)"
    and cooldown: "\<And>s d till d'. set_cooldown now t (p_id p) s d = Inr (till, d') \<Longrightarrow> R d d'"
    and fail: "apply_fail now u t p s d = Inr (x, d')"
  shows "R d d'"
proof -
  have penalty: "R d d'" if a: "apply_penalty now u t p s n rule (pe, d) = Inr (pe', d')" for n rule pe d pe' d'
  proof (cases "pn_type rule = CurrencyPenalty \<and> (\<exists>c a r. pn_args rule = c # a # r \<and> 0 \<le> c \<and> in_i32 c)")
    case True
    then obtain c a r where r: "pn_type rule = CurrencyPenalty" "pn_args rule = c # a # r" "0 \<le> c" "in_i32 c"
      by blast
    with a obtain paid d1 where d1: "deduct now t (nat c) (\<lambda>_. True) a d = Inr (paid, d1)"
      by (auto simp: apply_penalty_def res_bind_eq_Inr)
    from r a d1 have "d' = (case paid of None \<Rightarrow> d1 | Some row \<Rightarrow>
        insert_event (penalty_event p t u s (nat c) a row) d1)"
      by (auto simp: apply_penalty_def split: option.splits)
    then show ?thesis
      using trans [OF deduct [OF d1] event [of "penalty_event p t u s (nat c) a (the paid)"]] deduct [OF d1]
      by (cases paid) simp_all
  next
    case False
    then have "d' = d"
      using a by (auto simp: apply_penalty_def split: penalty_type.splits list.splits if_splits)
    then show ?thesis by (simp add: refl)
  qed
  have penalties: "apply_penalties now u t p s n rules (pe, d) = Inr (pe', d') \<Longrightarrow> R d d'" for n rules pe d pe' d'
  proof (induction rules arbitrary: pe d)
    case (Cons rule rules)
    then obtain st where st: "apply_penalty now u t p s n rule (pe, d) = Inr st"
      and rest: "apply_penalties now u t p s n rules st = Inr (pe', d')"
      by (auto simp: res_bind_eq_Inr)
    obtain pe1 d1 where "st = (pe1, d1)" by (cases st)
    with st rest show ?case using Cons.IH [of pe1 d1] penalty [of n rule pe d pe1 d1] trans by simp
  qed (simp add: refl)
  obtain rules where rules: "p_penalty p = Some rules"
    using fail by (auto simp: apply_fail_def split: option.splits)
  with fail obtain pe d1 where d1: "apply_penalties now u t p s (wrong_count d t (p_id p)) rules
      (\<lparr>pe_cooldown = None, pe_currency = []\<rparr>, d) = Inr (pe, d1)"
    by (auto simp: apply_fail_def res_bind_eq_Inr)
  have "d' = d1 \<or> (\<exists>till sec. set_cooldown now t (p_id p) sec d1 = Inr (till, d'))"
    using fail rules d1 by (auto simp: apply_fail_def res_bind_eq_Inr split: option.splits)
  with penalties [OF d1] cooldown trans show ?thesis by blast
qed

lemma progress_fail:
  assumes "apply_fail now u t p s d = Inr (x, d')"
  shows "progress now None d d'"
proof (rule apply_fail_keeps [OF _ _ _ _ _ assms])
  show "progress now None d (insert_event e d)" if "ev_type e = ''currency.penalty''" for e d
    using that by (intro progress_event) simp
qed (auto intro: progress_trans(1) progress_deduct progress_cooldown)

lemma progress_start:
  assumes "apply_start now u t p s d = Inr (x, d')"
  shows "progress now None d d'"
proof -
  obtain gf tm where f: "find_feature d (p_game p) Currency = Some gf" "find_team d t = Some tm"
    using assms by (auto simp: apply_start_def split: option.splits)
  have teams: "progress now None d (d\<lparr>teams := x\<rparr>)" "progress now None d (open_accounts at y d)" for x at y d
    by (rule progress_same; simp add: open_accounts_def)+
  have ev: "progress now None d (insert_event (submission_event ''game.started'' g t u q s) d)" for g q d
    by (rule progress_event) simp
  have started: "progress now None d (open_accounts y tm (insert_event
      (submission_event ''game.started'' g t u q s) (mark_team_dirty_conn t (d\<lparr>teams := z\<rparr>))))" for y g q z
    by (rule progress_trans(1) [OF teams(1) progress_trans(1) [OF progress_dirty progress_trans(1) [OF ev teams(2)]]])
  have again: "progress now None d (open_accounts y tm (d\<lparr>teams := z\<rparr>))" for y z
    by (rule progress_trans(1) [OF teams(1) teams(2)])
  from f assms show ?thesis
    by (auto simp: apply_start_def Let_def started again)
qed

lemma mark_solved_progress:
  assumes "mark_solved now t p d = (b, d')" and "distinct (map tp_key (team_puzzles d))"
  shows "map tp_key (team_puzzles d') = map tp_key (team_puzzles d)
    \<and> puzzles d' = puzzles d \<and> rounds d' = rounds d \<and> phases d' = phases d \<and> events d' = events d
    \<and> (\<forall>k. solve_mark d' k
        = (if b \<and> k = (t, p) then map_option (solved_mark now) (solve_mark d k) else solve_mark d k))
    \<and> (b \<longrightarrow> (\<exists>m. solve_mark d (t, p) = Some m \<and> fst m = 0))"
proof -
  let ?q = "\<lambda>tp. tp_team tp = t \<and> tp_puzzle tp = p \<and> tp_state tp = 0"
  let ?f = "\<lambda>tp. tp\<lparr>tp_state := 1, tp_solve_at := Some now\<rparr>"
  have d': "d' = d\<lparr>team_puzzles := update_rows ?q ?f (team_puzzles d)\<rparr>"
    and b: "b \<longleftrightarrow> exists_row ?q (team_puzzles d)"
    using assms(1) by (auto simp: mark_solved_def Let_def affected_pos)
  have find: "find (\<lambda>tp. tp_team tp = i \<and> tp_puzzle tp = j) (update_rows ?q ?f tps)
      = map_option (\<lambda>tp. if ?q tp then ?f tp else tp) (find (\<lambda>tp. tp_team tp = i \<and> tp_puzzle tp = j) tps)" for i j tps
    by (induction tps) (auto simp: tbl_simps)
  have first: "exists_row ?q tps \<longleftrightarrow> (\<exists>tp. find (\<lambda>tp. tp_team tp = t \<and> tp_puzzle tp = p) tps = Some tp \<and> tp_state tp = 0)"
    if "distinct (map tp_key tps)" for tps
    using that by (induction tps) (auto simp: exists_row_def tp_key_def image_iff list_ex_iff find_Some_iff)
  have found: "tp_team tp = i \<and> tp_puzzle tp = j"
    if "find (\<lambda>tp. tp_team tp = i \<and> tp_puzzle tp = j) tps = Some tp" for i j tps tp
    using that by (auto simp: find_Some_iff)
  have mark: "solve_mark d' k = (if b \<and> k = (t, p) then map_option (solved_mark now) (solve_mark d k)
      else solve_mark d k)" for k
  proof (cases "find_tp d (fst k) (snd k)")
    case None
    then show ?thesis by (cases k) (auto simp: d' solve_mark_def find_tp_def find)
  next
    case (Some tp)
    then have tp: "tp_team tp = fst k" "tp_puzzle tp = snd k"
      unfolding find_tp_def using found by blast+
    have new: "solve_mark d' k = Some (if ?q tp then (1, Some now, tp_max_submit tp)
        else (tp_state tp, tp_solve_at tp, tp_max_submit tp))"
      using Some by (simp add: d' solve_mark_def find_tp_def find)
    have "?q tp \<longleftrightarrow> b \<and> k = (t, p)"
    proof (cases "k = (t, p)")
      case True
      with Some first [OF assms(2)] b tp show ?thesis by (simp add: find_tp_def)
    next
      case False
      with tp show ?thesis by (cases k) auto
    qed
    moreover have "solve_mark d k = Some (tp_state tp, tp_solve_at tp, tp_max_submit tp)"
      using Some by (simp add: solve_mark_def)
    ultimately show ?thesis
      unfolding new by (cases "b \<and> k = (t, p)") (auto simp: solved_mark_def)
  qed
  have "\<exists>m. solve_mark d (t, p) = Some m \<and> fst m = 0" if b
    using that b first [OF assms(2)] by (auto simp: solve_mark_def find_tp_def)
  with mark show ?thesis by (simp add: d' tp_key_def)
qed

lemma progress_tail:
  "progress now None d (mark_finished now t d)"
  "progress now None d (close_puzzle_tickets_on_solve_conn now t p u d)"
  by (rule progress_same; simp add: mark_finished_def close_puzzle_tickets_on_solve_conn_def Let_def)+

lemma progress_solve:
  assumes "apply_solve now u t p s fin d = (b, d')" and "distinct (map tp_key (team_puzzles d))"
  shows "progress now (if b then Some (t, p_id p) else None) d d'"
proof -
  obtain b1 d1 where m: "mark_solved now t (p_id p) d = (b1, d1)" by (cases "mark_solved now t (p_id p) d")
  let ?d2 = "if fin then mark_finished now t d1 else d1"
  let ?d3 = "insert_event (submission_event ''puzzle.solved'' (p_game p) t u (p_id p) s) (mark_team_dirty_conn t ?d2)"
  have b: "b = b1" and d': "d' = (if b then close_puzzle_tickets_on_solve_conn now t (p_id p) u ?d3 else ?d2)"
    using assms(1) m by (simp_all add: apply_solve_def Let_def split: if_splits)
  note ms = mark_solved_progress [OF m assms(2)]
  have 2: "progress now None d1 ?d2" by (simp add: progress_tail)
  show ?thesis
  proof (cases b)
    case False
    then have "progress now None d d1" using ms b by (simp add: progress_def solved_log_def)
    from progress_trans(1) [OF this 2] show ?thesis using False d' by simp
  next
    case True
    have "team_puzzles ?d3 = team_puzzles ?d2" "solve_mark ?d3 = solve_mark ?d2" "puzzles ?d3 = puzzles ?d2" "rounds ?d3 = rounds ?d2"
      "phases ?d3 = phases ?d2" "events ?d3 = events ?d2 @ [submission_event ''puzzle.solved'' (p_game p) t u (p_id p) s]"
      by (simp_all add: insert_event_def solve_mark_def find_tp_def fun_eq_iff mark_team_dirty_conn_def)
    then have "progress now (Some (t, p_id p)) d ?d3"
      using ms 2 b True by (auto simp: progress_def solved_log_def)
    from progress_trans(2) [OF this progress_tail(2)] show ?thesis using True d' by simp
  qed
qed

lemma progress_action:
  assumes "apply_action now u t p s act d = Inr (oc, d')" and "distinct (map tp_key (team_puzzles d))"
  shows "progress now (if oc_solved oc then Some (t, p_id p) else None) d d'"
proof -
  consider "act = Correct \<or> act = FinishGame" | "act = StartGame" | "act = Fail"
    | "act \<notin> {Correct, FinishGame, StartGame, Fail}" by auto
  then show ?thesis
  proof cases
    case 1
    obtain b d1 where a: "apply_solve now u t p s (act = FinishGame) d = (b, d1)"
      by (cases "apply_solve now u t p s (act = FinishGame) d")
    with 1 assms(1) have "oc_solved oc = b" "d' = d1"
      by (auto simp: apply_action_def no_outcome_def)
    with progress_solve [OF a assms(2)] show ?thesis by simp
  next
    case 2
    with assms(1) obtain b where "apply_start now u t p s d = Inr (b, d')" "\<not> oc_solved oc"
      by (auto simp: apply_action_def no_outcome_def res_bind_eq_Inr)
    with progress_start show ?thesis by simp
  next
    case 3
    with assms(1) obtain x where "apply_fail now u t p s d = Inr (x, d')" "\<not> oc_solved oc"
      by (auto simp: apply_action_def no_outcome_def res_bind_eq_Inr)
    with progress_fail show ?thesis by simp
  next
    case 4
    with assms(1) show ?thesis by (auto simp: apply_action_def no_outcome_def)
  qed
qed

section \<open>Submissions\<close>

text \<open>The steps after the verdict leave the submissions alone.\<close>

lemma submissions_frames [simp]:
  "submissions (insert_event e d) = submissions d"
  "submissions (set_amount now t c v d) = submissions d"
  "submissions (mark_finished now t d) = submissions d"
  "submissions (close_puzzle_tickets_on_solve_conn now t p u d) = submissions d"
  "submissions (open_accounts at tm d) = submissions d"
  "submissions (snd (insert_triggers t p ks so ho d)) = submissions d"
  by (simp_all add: insert_event_def set_amount_def update_tc_def mark_finished_def
      close_puzzle_tickets_on_solve_conn_def Let_def open_accounts_def insert_triggers_def)

lemma submissions_action:
  assumes "apply_action now u t p s act d = Inr (oc, d')"
  shows "submissions d' = submissions d"
proof -
  have solve: "submissions (snd (apply_solve now u t p s fin d)) = submissions d" for fin
    by (simp add: apply_solve_def mark_solved_def Let_def)
  have start: "submissions d' = submissions d" if "apply_start now u t p s d = Inr (b, d')" for b d'
    using that by (auto simp: apply_start_def Let_def split: option.splits)
  have fail: "submissions d' = submissions d" if "apply_fail now u t p s d = Inr (x, d')" for x d'
  proof (rule apply_fail_keeps [OF _ _ _ _ _ that, where R = "\<lambda>a b. submissions b = submissions a"])
    show "submissions b = submissions a" if "deduct now t c (\<lambda>_. True) n a = Inr (paid, b)" for c n a b paid
      using deduct_cases [OF that] by auto
    show "submissions b = submissions a" if "set_cooldown now t (p_id p) n a = Inr (till, b)" for n a b till
      using that by (auto simp: set_cooldown_def Let_def split: if_splits)
  qed simp_all
  show ?thesis
    using assms solve [of "act = FinishGame"] start fail
    by (auto simp: apply_action_def res_bind_eq_Inr case_prod_beta split: if_splits)
qed

section \<open>The transaction\<close>

definition first_verdict :: "(nat \<Rightarrow> ustr) \<Rightarrow> judge_rule list \<Rightarrow> ustr \<Rightarrow> judge_result" where
  "first_verdict lower rules answer =
     (case find (decides (normalize_answer lower answer)) (map (normalize_rule lower) rules) of
        Some r \<Rightarrow> rule_result r | None \<Rightarrow> default_result)"

definition judged_submission ::
  "(nat \<Rightarrow> ustr) \<Rightarrow> time \<Rightarrow> nat \<Rightarrow> nat \<Rightarrow> nat \<Rightarrow> nat \<Rightarrow> ustr \<Rightarrow> judge_result \<Rightarrow> submission_row" where
  "judged_submission lower now fresh u t p answer result =
     (new_submission now fresh t u p answer (normalize_answer lower answer))
       \<lparr>s_action := action_to_i16 (res_action result), s_result := res_result result,
        s_real := res_answer result, s_ignored := (res_ignored result \<or> res_action result = JError)\<rparr>"

definition scriptless :: "db \<Rightarrow> nat \<Rightarrow> bool" where
  "scriptless d p \<longleftrightarrow> (\<forall>q js. find_puzzle d p = Some q \<and> p_judge q = Some js \<longrightarrow> (\<forall>r \<in> set js. \<not> is_custom r))"

text \<open>
  Judging leaves the tables of the model alone: the puzzle has no script, or scripts write only to tables
  of their own, as the functions of their host do.
\<close>

definition undisturbed :: "(db, 'ev) script_runner \<Rightarrow> db \<Rightarrow> nat \<Rightarrow> bool" where
  "undisturbed run d p \<longleftrightarrow> scriptless d p \<or> quiet run"

lemma is_custom_normalize [simp]: "is_custom (normalize_rule lower r) = is_custom r"
  by (simp add: is_custom_def normalize_rule_def)

lemma lift_Inr [simp]:
  "lift_db r = Inr x \<longleftrightarrow> r = Inr x" "lift_judge q = Inr y \<longleftrightarrow> q = Inr y"
  by (simp_all add: lift_db_def lift_judge_def split: sum.split)

lemma gate_admitted:
  assumes "submit_gate lower now t p d = Inr (Admitted q rules)"
  shows "find_puzzle d p = Some q \<and> p_id q = p \<and> submit_allowed now t p d = Inr True
    \<and> submit_access now t p d = Some True
    \<and> (\<exists>js. p_judge q = Some js \<and> value_to_judge lower js = Inr rules)"
proof -
  have "submit_access now t p d = Some True \<and> submit_allowed now t p d = Inr True \<and> find_puzzle d p = Some q
    \<and> (\<exists>js. p_judge q = Some js \<and> value_to_judge lower js = Inr rules)"
    using assms unfolding submit_gate_def
    by (auto simp: res_bind_eq_Inr ok_or_def split: option.splits if_splits)
  moreover have "find_puzzle d p = Some q \<Longrightarrow> p_id q = p"
    by (auto simp: find_puzzle_def find_Some_iff)
  ultimately show ?thesis by blast
qed

lemma progress_award:
  assumes "award_triggers t p s res d = (b, d')"
  shows "progress now None d d' \<and> submissions d' = submissions d"
proof -
  have "progress now None d (snd (insert_triggers t p ks so ho d))" for ks so ho
    unfolding insert_triggers_def Let_def
    by (auto intro!: progress_trans(1) [OF progress_same progress_dirty])
  moreover have "d' = d \<or> d' = snd (insert_triggers t p (res_triggers res) (Some s) None d)"
    using assms by (auto simp: award_triggers_def split: if_splits)
  ultimately show ?thesis by auto
qed

lemma verdict_effect:
  assumes "apply_verdict now u t q s res d = Inr (oc, d')" and "distinct (map tp_key (team_puzzles d))"
  shows "progress now (if oc_solved oc then Some (t, p_id q) else None) d d'
    \<and> submissions d' = submissions (record_verdict s res d)"
proof -
  let ?d0 = "record_verdict s res d"
  obtain ins d1 where a: "award_triggers t (p_id q) s res ?d0 = (ins, d1)"
    by (cases "award_triggers t (p_id q) s res ?d0")
  let ?d2 = "insert_event (submission_event ''submission.judged'' (p_game q) t u (p_id q) s) d1"
  obtain oc1 where act: "apply_action now u t q s (res_action res) ?d2 = Inr (oc1, d')"
    and oc: "oc_solved oc = oc_solved oc1"
    using assms(1) a by (auto simp: apply_verdict_def res_bind_eq_Inr)
  have p0: "progress now None d ?d0" by (rule progress_same) (simp_all add: record_verdict_def)
  note p1 = progress_trans(1) [OF p0 conjunct1 [OF progress_award [OF a]]]
  have p2: "progress now None d ?d2"
    by (rule progress_trans(1) [OF p1 progress_event]) simp
  have "team_puzzles ?d2 = team_puzzles d"
    using a by (auto simp: award_triggers_def record_verdict_def insert_triggers_def insert_event_def Let_def
        split: if_splits)
  then have "progress now (if oc_solved oc then Some (t, p_id q) else None) ?d2 d'"
    using progress_action [OF act] assms(2) oc by simp
  from progress_trans(1) [OF p2 this] show ?thesis
    using submissions_action [OF act] progress_award [OF a] by simp
qed

lemma transaction_steps:
  assumes "submit_transaction lower run now fresh u t p ans d = Inr (TxDone res oc evs, d')"
    and "undisturbed run d p"
  obtains q js where "find_puzzle d p = Some q" "p_id q = p" "p_judge q = Some js"
    "scriptless d p \<longrightarrow> res = first_verdict lower js ans \<and> evs = []" "submit_allowed now t p d = Inr True"
    "submit_access now t p d = Some True"
    "\<forall>s \<in> set (submissions d). \<not> s_ignored s \<longrightarrow> submission_key s \<noteq> (t, p, normalize_answer lower ans)"
    "apply_verdict now u t q fresh res (d\<lparr>submissions := submissions d @
       [new_submission now fresh t u p ans (normalize_answer lower ans)]\<rparr>) = Inr (oc, d')"
proof -
  let ?row = "new_submission now fresh t u p ans (normalize_answer lower ans)"
  obtain gate where gate: "submit_gate lower now t p d = Inr gate"
    using assms(1) by (auto simp: submit_transaction_def res_bind_eq_Inr)
  then obtain q rules where g: "gate = Admitted q rules"
    using assms(1) by (cases gate) (auto simp: submit_transaction_def)
  obtain d1 where d1: "insert_submission ?row d = Some d1"
    using assms(1) gate g by (auto simp: submit_transaction_def split: option.splits)
  obtain evs1 d2 oc1 res1 where j: "submit_judge run rules (normalize_answer lower ans) d1 = Inr (res1, evs1, d2)"
    and v: "apply_verdict now u t q fresh res1 d2 = Inr (oc1, d')" and eq: "res = res1" "oc = oc1" "evs = evs1"
    using assms(1) gate g d1 by (auto simp: submit_transaction_def res_bind_eq_Inr)
  from gate_admitted [OF gate [unfolded g]] obtain js where q: "find_puzzle d p = Some q" "p_id q = p"
    "submit_allowed now t p d = Inr True" "submit_access now t p d = Some True"
    "p_judge q = Some js" "value_to_judge lower js = Inr rules" by blast
  then have rules: "rules = map (normalize_rule lower) js"
    by (simp add: value_to_judge_def split: if_splits)
  have sj: "res1 = first_verdict lower js ans \<and> evs1 = [] \<and> d2 = d1" if "scriptless d p"
  proof -
    have "\<forall>r \<in> set rules. \<not> is_custom r"
      using that q(1,5) unfolding rules scriptless_def by auto
    from submit_judge_scriptless [OF this j] show ?thesis by (simp add: rules first_verdict_def)
  qed
  have same: "d2 = d1" using sj submit_judge_quiet [OF _ j] assms(2) by (auto simp: undisturbed_def)
  have new: "d1 = d\<lparr>submissions := submissions d @ [?row]\<rparr>"
    and keys: "\<forall>s \<in> set (submissions d). \<not> s_ignored s \<longrightarrow> submission_key s \<noteq> submission_key ?row"
    using d1 by (auto simp: insert_submission_def exists_row_iff split: if_splits)
  have "submission_key ?row = (t, p, normalize_answer lower ans)"
    by (simp add: submission_key_def new_submission_def)
  with that q sj same keys v eq new show thesis by simp
qed

lemma transaction_done:
  assumes "submit_transaction lower run now fresh u t p ans d = Inr (TxDone res oc evs, d')"
    and "undisturbed run d p" and "fresh \<notin> s_id ` set (submissions d)"
    and "distinct (map tp_key (team_puzzles d))"
  obtains q js where "find_puzzle d p = Some q" "p_id q = p" "p_judge q = Some js"
    "scriptless d p \<longrightarrow> res = first_verdict lower js ans \<and> evs = []" "submit_allowed now t p d = Inr True"
    "submit_access now t p d = Some True"
    "\<forall>s \<in> set (submissions d). \<not> s_ignored s \<longrightarrow> submission_key s \<noteq> (t, p, normalize_answer lower ans)"
    "submissions d' = submissions d @ [judged_submission lower now fresh u t p ans res]"
    "progress now (if oc_solved oc then Some (t, p) else None) d d'"
  using assms(1,2)
proof (rule transaction_steps)
  let ?row = "new_submission now fresh t u p ans (normalize_answer lower ans)"
  let ?d = "d\<lparr>submissions := submissions d @ [?row]\<rparr>"
  fix q js
  assume q: "find_puzzle d p = Some q" "p_id q = p" "p_judge q = Some js"
    "scriptless d p \<longrightarrow> res = first_verdict lower js ans \<and> evs = []" "submit_allowed now t p d = Inr True"
    "submit_access now t p d = Some True"
    "\<forall>s \<in> set (submissions d). \<not> s_ignored s \<longrightarrow> submission_key s \<noteq> (t, p, normalize_answer lower ans)"
    and v: "apply_verdict now u t q fresh res ?d = Inr (oc, d')"
  have tps: "distinct (map tp_key (team_puzzles ?d))" using assms(4) by simp
  have "progress now None d ?d" by (rule progress_same) simp_all
  then have prog: "progress now (if oc_solved oc then Some (t, p) else None) d d'"
    using verdict_effect [OF v tps] q(2) progress_trans(1) by metis
  have "update_rows (\<lambda>s. s_id s = fresh) f (submissions d) = submissions d" for f
    using assms(3) by (intro update_rows_ident) auto
  then have "submissions d' = submissions d @ [judged_submission lower now fresh u t p ans res]"
    using verdict_effect [OF v tps]
    by (simp add: record_verdict_def judged_submission_def new_submission_def update_rows_def)
  with that q prog show thesis by blast
qed

section \<open>After the commit\<close>

definition advance :: "time \<Rightarrow> (nat \<times> nat) option \<Rightarrow> db \<Rightarrow> db \<Rightarrow> bool" where
  "advance now w d d' \<longleftrightarrow> puzzles d' = puzzles d
     \<and> (distinct (map tp_key (team_puzzles d)) \<longrightarrow> distinct (map tp_key (team_puzzles d')))
     \<and> (\<forall>k m. solve_mark d k = Some m \<longrightarrow> solve_mark d' k = Some (if w = Some k then solved_mark now m else m))
     \<and> (\<forall>k. solved_log d' k = solved_log d k + (if w = Some k then 1 else 0))
     \<and> (\<forall>k. w = Some k \<longrightarrow> (\<exists>m. solve_mark d k = Some m \<and> fst m = 0))"

lemma progress_advance: "progress now w d d' \<Longrightarrow> advance now w d d'"
  by (auto simp: progress_def advance_def)

lemma advance_mark:
  "advance now w d d' \<Longrightarrow> solve_mark d k = Some m \<Longrightarrow>
    solve_mark d' k = Some (if w = Some k then solved_mark now m else m)"
  by (unfold advance_def) blast

lemma advance_log: "advance now w d d' \<Longrightarrow> solved_log d' k = solved_log d k + (if w = Some k then 1 else 0)"
  by (unfold advance_def) blast

lemma advance_trans:
  assumes "advance now w d d'" and "advance now None d' d''"
  shows "advance now w d d''"
proof -
  have "solve_mark d'' k = Some (if w = Some k then solved_mark now m else m)" if "solve_mark d k = Some m" for k m
    using advance_mark [OF assms(2) advance_mark [OF assms(1) that]] by simp
  moreover have "solved_log d'' k = solved_log d k + (if w = Some k then 1 else 0)" for k
    using advance_log [OF assms(1), of k] advance_log [OF assms(2), of k] by simp
  moreover have "puzzles d'' = puzzles d"
    "distinct (map tp_key (team_puzzles d)) \<longrightarrow> distinct (map tp_key (team_puzzles d''))"
    using assms unfolding advance_def by simp_all
  moreover have "\<forall>k. w = Some k \<longrightarrow> (\<exists>m. solve_mark d k = Some m \<and> fst m = 0)"
    using assms(1) unfolding advance_def by blast
  ultimately show ?thesis unfolding advance_def by blast
qed

lemma advance_refresh: "advance now None d (refresh_team_hint_states now t only d)"
  by (rule progress_advance, rule progress_same) simp_all

lemma advance_unlock: "advance now None d (snd (unlock_new_puzzles now t d))"
proof (cases "find_team d t")
  case None
  then show ?thesis by (simp add: unlock_new_puzzles_def progress_advance)
next
  case (Some team)
  let ?d = "snd (unlock_new_puzzles now t d)"
  have tps: "team_puzzles ?d = insert_new tp_key (team_puzzles d) (map (fresh_tp now t) (unlockable d t team))"
    by (rule unlock_rows [OF Some])
  have "solve_mark ?d k = Some m" if "solve_mark d k = Some m" for k m
    using that find_insert_new_kept unfolding solve_mark_def find_tp_def tps by fastforce
  moreover have "solved_log ?d k = solved_log d k" for k
    using Some by (simp add: solved_log_def unlock_new_puzzles_def Let_def filter_map comp_def
        unlocked_event_def blank_event_def)
  ultimately show ?thesis
    unfolding advance_def tps by (simp add: insert_new_distinct)
qed

lemma transaction_refused:
  assumes "submit_transaction lower run now fresh u t p ans d = Inr (tx, d')"
    and "\<forall>res oc evs. tx \<noteq> TxDone res oc evs"
  shows "d' = d"
proof -
  obtain gate where gate: "submit_gate lower now t p d = Inr gate"
    using assms(1) by (auto simp: submit_transaction_def res_bind_eq_Inr)
  show ?thesis
  proof (cases gate)
    case (Refused x)
    with assms(1) gate show ?thesis by (simp add: submit_transaction_def)
  next
    case (Admitted q rules)
    then show ?thesis
      using assms gate
      by (cases "insert_submission (new_submission now fresh t u p ans (normalize_answer lower ans)) d")
        (auto simp: submit_transaction_def res_bind_eq_Inr)
  qed
qed

definition settled :: "time \<Rightarrow> nat \<Rightarrow> outcome \<Rightarrow> db \<Rightarrow> db" where
  "settled now t oc d =
     (if oc_unlock oc then refresh_team_hint_states now t None (snd (unlock_new_puzzles now t d)) else d)"

lemma advance_settled: "advance now None d (settled now t oc d)"
  unfolding settled_def
  using advance_trans [OF advance_unlock advance_refresh] progress_advance [OF progress_refl] by simp

lemma submissions_settled [simp]: "submissions (settled now t oc d) = submissions d"
  by (simp add: settled_def)

lemma answer_cases:
  assumes "submit_answer lower run now fresh u t p ans d = Inr (r, d')"
  obtains (refused) "d' = d" "\<forall>res b us till evs. r \<noteq> SubmitOk res b us till evs"
    | (judged) res oc evs d1 where "submit_transaction lower run now fresh u t p ans d = Inr (TxDone res oc evs, d1)"
      "d' = settled now t oc d1" "r = SubmitOk res (oc_solved oc)
        (if oc_unlock oc then fst (unlock_new_puzzles now t d1) else []) (oc_cooldown oc) evs"
proof (cases "normalize_answer lower ans = []")
  case True
  with assms refused show thesis by (auto simp: submit_answer_def)
next
  case False
  with assms obtain tx d1 where tx: "submit_transaction lower run now fresh u t p ans d = Inr (tx, d1)"
    by (auto simp: submit_answer_def res_bind_eq_Inr)
  show thesis
  proof (cases tx)
    case (TxDone res oc evs)
    with False assms tx have "d' = settled now t oc d1 \<and> r = SubmitOk res (oc_solved oc)
        (if oc_unlock oc then fst (unlock_new_puzzles now t d1) else []) (oc_cooldown oc) evs"
      by (auto simp: submit_answer_def Let_def case_prod_beta settled_def)
    with tx TxDone judged show thesis by blast
  qed (use False assms tx refused transaction_refused [OF tx] in \<open>auto simp: submit_answer_def\<close>)
qed

section \<open>Histories\<close>

text \<open>Any users of any teams submit anything at any time; a submission gets a fresh identifier.\<close>

inductive submit_run :: "(nat \<Rightarrow> ustr) \<Rightarrow> (db, 'ev) script_runner \<Rightarrow> db \<Rightarrow> db \<Rightarrow> bool" for lower run where
  init: "submit_run lower run d d"
| step: "submit_run lower run d d' \<Longrightarrow> fresh \<notin> s_id ` set (submissions d') \<Longrightarrow>
    submit_answer lower run now fresh u t p ans d' = Inr (r, d'') \<Longrightarrow> submit_run lower run d d''"

text \<open>What one answered request does to a database.\<close>

lemma answer_effect:
  assumes "submit_answer lower run now fresh u t p ans d = Inr (r, d')"
    and "undisturbed run d p" and "fresh \<notin> s_id ` set (submissions d)"
    and "distinct (map tp_key (team_puzzles d))"
  obtains (nothing) "d' = d"
    | (judged) q res w where "find_puzzle d p = Some q" "submit_allowed now t p d = Inr True"
      "\<forall>s \<in> set (submissions d). \<not> s_ignored s \<longrightarrow> submission_key s \<noteq> (t, p, normalize_answer lower ans)"
      "submissions d' = submissions d @ [judged_submission lower now fresh u t p ans res]"
      "advance now w d d'"
  using assms(1)
proof (cases rule: answer_cases)
  case refused
  with that(1) show thesis by blast
next
  case (judged res oc evs d1)
  from transaction_done [OF judged(1) assms(2-4)] obtain q where q:
    "find_puzzle d p = Some q" "submit_allowed now t p d = Inr True"
    "\<forall>s \<in> set (submissions d). \<not> s_ignored s \<longrightarrow> submission_key s \<noteq> (t, p, normalize_answer lower ans)"
    "submissions d1 = submissions d @ [judged_submission lower now fresh u t p ans res]"
    "progress now (if oc_solved oc then Some (t, p) else None) d d1" by metis
  have "advance now (if oc_solved oc then Some (t, p) else None) d d'"
    unfolding judged(2) by (rule advance_trans [OF progress_advance [OF q(5)] advance_settled])
  with that(2) [of q res] judged(2) q show thesis by simp
qed

lemma undisturbed_cong:
  assumes "puzzles d' = puzzles d"
  shows "undisturbed run d' = undisturbed run d"
proof -
  have "find_puzzle d' = find_puzzle d" using assms by (simp add: find_puzzle_def fun_eq_iff)
  then show ?thesis by (simp add: undisturbed_def scriptless_def fun_eq_iff)
qed

text \<open>An invariant of the judged submissions and the progress they make.\<close>

lemma submit_run_invariant:
  assumes "submit_run lower run d d'" and "\<And>q. undisturbed run d q" and "distinct (map tp_key (team_puzzles d))"
    and "P d"
    and "\<And>d d' now fresh u t p ans q res w. puzzles d' = puzzles d \<Longrightarrow> P d \<Longrightarrow>
      fresh \<notin> s_id ` set (submissions d) \<Longrightarrow> submit_allowed now t p d = Inr True \<Longrightarrow>
      find_puzzle d p = Some q \<Longrightarrow>
      \<forall>s \<in> set (submissions d). \<not> s_ignored s \<longrightarrow> submission_key s \<noteq> (t, p, normalize_answer lower ans) \<Longrightarrow>
      submissions d' = submissions d @ [judged_submission lower now fresh u t p ans res] \<Longrightarrow>
      advance now w d d' \<Longrightarrow> P d'"
  shows "P d' \<and> puzzles d' = puzzles d \<and> distinct (map tp_key (team_puzzles d'))"
  using assms(1-4)
proof (induction rule: submit_run.induct)
  case (step d d' fresh now u t p ans r d'')
  have P: "P d'" and p: "puzzles d' = puzzles d" and tps: "distinct (map tp_key (team_puzzles d'))"
    using step.IH step.prems by blast+
  have "undisturbed run d' p" unfolding undisturbed_cong [OF p] by (rule step.prems(1))
  from step.hyps(3) this step.hyps(2) tps show ?case
  proof (cases rule: answer_effect)
    case nothing
    with P p tps show ?thesis by simp
  next
    case (judged q res w)
    have "puzzles d'' = puzzles d'" "distinct (map tp_key (team_puzzles d''))"
      using judged(5) tps by (simp_all add: advance_def)
    with assms(5) [OF _ P step.hyps(2) judged(2,1,3,4,5)] p show ?thesis by simp
  qed
qed simp

end
