(* ===== verification/Submission_Laws.thy ===== *)
theory Submission_Laws
  imports Submissions
begin

text \<open>The properties of submitting answers, with a small database on which they apply.\<close>

section \<open>One submission\<close>

lemma apply_verdict_solved:
  assumes "apply_verdict now u t q s res d = Inr (oc, d')" and "distinct (map tp_key (team_puzzles d))"
  shows "oc_solved oc \<longleftrightarrow> (res_action res = Correct \<or> res_action res = FinishGame)
    \<and> (\<exists>m. solve_mark d (t, p_id q) = Some m \<and> fst m = 0)"
proof -
  let ?d0 = "record_verdict s res d"
  obtain ins d1 where a: "award_triggers t (p_id q) s res ?d0 = (ins, d1)"
    by (cases "award_triggers t (p_id q) s res ?d0")
  let ?d2 = "insert_event (submission_event ''submission.judged'' (p_game q) t u (p_id q) s) d1"
  obtain oc1 where act: "apply_action now u t q s (res_action res) ?d2 = Inr (oc1, d')"
    and oc: "oc_solved oc = oc_solved oc1"
    using assms(1) a by (auto simp: apply_verdict_def res_bind_eq_Inr)
  have tps: "team_puzzles ?d2 = team_puzzles d"
    using a by (auto simp: award_triggers_def record_verdict_def insert_triggers_def insert_event_def Let_def
        split: if_splits)
  have mark: "solve_mark ?d2 k = solve_mark d k" for k
    using tps by (simp add: solve_mark_def find_tp_def)
  have dist: "distinct (map tp_key (team_puzzles ?d2))" using assms(2) tps by simp
  have unsolved: "fst (mark_solved now t (p_id q) ?d2) \<longleftrightarrow> (\<exists>m. solve_mark d (t, p_id q) = Some m \<and> fst m = 0)"
  proof
    assume l: "fst (mark_solved now t (p_id q) ?d2)"
    obtain b d3 where m: "mark_solved now t (p_id q) ?d2 = (b, d3)" by (cases "mark_solved now t (p_id q) ?d2")
    with l mark_solved_progress [OF m dist] mark show "\<exists>m. solve_mark d (t, p_id q) = Some m \<and> fst m = 0" by simp
  next
    assume "\<exists>m. solve_mark d (t, p_id q) = Some m \<and> fst m = 0"
    then obtain tp where "find_tp ?d2 t (p_id q) = Some tp" "tp_state tp = 0"
      using mark [of "(t, p_id q)"] by (auto simp: solve_mark_def)
    then have "tp \<in> set (team_puzzles ?d2)" "tp_team tp = t \<and> tp_puzzle tp = p_id q \<and> tp_state tp = 0"
      by (auto simp: find_tp_def find_Some_iff)
    then have "\<exists>r \<in> set (team_puzzles ?d2). tp_team r = t \<and> tp_puzzle r = p_id q \<and> tp_state r = 0" by blast
    then show "fst (mark_solved now t (p_id q) ?d2)"
      by (simp add: mark_solved_def Let_def affected_def filter_empty_conv)
  qed
  have "oc_solved oc1 \<longleftrightarrow> (res_action res = Correct \<or> res_action res = FinishGame)
      \<and> fst (mark_solved now t (p_id q) ?d2)"
    using act by (auto simp: apply_action_def no_outcome_def apply_solve_def Let_def case_prod_beta res_bind_eq_Inr
        split: if_splits)
  with oc unsolved show ?thesis by blast
qed

lemma transaction_solved:
  assumes "submit_transaction lower run now fresh u t p ans d = Inr (TxDone res oc evs, d')"
    and "undisturbed run d p" and "distinct (map tp_key (team_puzzles d))"
  shows "oc_solved oc \<longleftrightarrow> (res_action res = Correct \<or> res_action res = FinishGame)
    \<and> (\<exists>m. solve_mark d (t, p) = Some m \<and> fst m = 0)"
  using assms(1,2)
proof (rule transaction_steps)
  let ?d = "d\<lparr>submissions := submissions d @ [new_submission now fresh t u p ans (normalize_answer lower ans)]\<rparr>"
  fix q
  assume v: "apply_verdict now u t q fresh res ?d = Inr (oc, d')" and q: "p_id q = p"
  have "solve_mark ?d = solve_mark d" by (simp add: solve_mark_def find_tp_def fun_eq_iff)
  then show ?thesis
    using apply_verdict_solved [OF v] assms(3) q by simp
qed

text \<open>An answer a rule accepts is admitted all the way: nothing after the gate can refuse it.\<close>

lemma answer_accepted:
  assumes "submit_gate lower now t p d = Inr (Admitted q rules)" and "p_judge q = Some js"
    and "scriptless d p" and "normalize_answer lower ans \<noteq> []"
    and "\<forall>s \<in> set (submissions d). \<not> s_ignored s \<longrightarrow> submission_key s \<noteq> (t, p, normalize_answer lower ans)"
    and "res_action (first_verdict lower js ans) = Correct \<or> res_action (first_verdict lower js ans) = FinishGame"
  obtains oc d1 where "submit_transaction lower run now fresh u t p ans d
      = Inr (TxDone (first_verdict lower js ans) oc [], d1)" "oc_cooldown oc = None"
proof -
  let ?norm = "normalize_answer lower ans" and ?res = "first_verdict lower js ans"
  let ?row = "new_submission now fresh t u p ans ?norm"
  let ?d = "d\<lparr>submissions := submissions d @ [?row]\<rparr>"
  have q: "find_puzzle d p = Some q" "value_to_judge lower js = Inr rules"
    using gate_admitted [OF assms(1)] assms(2) by auto
  then have rules: "rules = map (normalize_rule lower) js" and keys: "\<forall>r \<in> set js. list_all valid_trigger_key (jr_triggers r)"
    by (auto simp: value_to_judge_def list_all_iff split: if_splits)
  have "\<forall>r \<in> set rules. \<not> is_custom r"
    using assms(2,3) q(1) unfolding rules scriptless_def by auto
  from judge_by_rules_find [OF this, of "exec_of run" ?norm "(?d, [])"]
  have judged: "judge_by_rules (exec_of run) rules ?norm (?d, []) = Inr (?res, ?d, [])"
    by (simp add: first_verdict_def rules)
  have "list_all valid_trigger_key (res_triggers ?res)"
  proof (cases "find (decides ?norm) (map (normalize_rule lower) js)")
    case (Some r)
    then have "r \<in> set (map (normalize_rule lower) js)" unfolding find_Some_iff by (metis nth_mem)
    then have "list_all valid_trigger_key (jr_triggers r)"
      using keys by (auto simp: normalize_rule_def)
    with Some show ?thesis by (simp add: first_verdict_def rule_result_def)
  qed (simp add: first_verdict_def default_result_def)
  with judged have j: "submit_judge run rules ?norm ?d = Inr (?res, [], ?d)"
    by (simp add: submit_judge_eq)
  have row: "insert_submission ?row d = Some ?d"
    using assms(5) by (auto simp: insert_submission_def exists_row_iff new_submission_def submission_key_def)
  obtain oc d1 where v: "apply_verdict now u t q fresh ?res ?d = Inr (oc, d1)" "oc_cooldown oc = None"
    using assms(6) by (cases "award_triggers t (p_id q) fresh ?res (record_verdict fresh ?res ?d)")
      (auto simp: apply_verdict_def apply_action_def res_bind_eq_Inr no_outcome_def case_prod_beta Let_def)
  have "submit_transaction lower run now fresh u t p ans d = Inr (TxDone ?res oc [], d1)"
    using assms(1) row j v(1) by (simp add: submit_transaction_def lift_db_def lift_judge_def)
  with v(2) that show thesis by blast
qed

text \<open>Team 3 may try puzzle 6 twice; the answer is \<open>a\<close>, a wrong one costs 30 seconds.\<close>

definition submit_rules :: "judge_rule list" where
  "submit_rules = [blank_rule\<lparr>jr_type := Some (lit ''exact''), jr_text := Some [97],
     jr_action := Some (lit ''correct'')\<rparr>]"

definition submit_db :: db where
  "submit_db = empty_db\<lparr>
     teams := [\<lparr>t_id = 3, t_name = [], t_pass = [], t_bio = [], t_game = 2, t_banned = False,
       t_locked = True, t_beta = False, t_dirty = False, t_start = Some 0, t_finish = None\<rparr>],
     puzzles := [\<lparr>p_id = 6, p_game = 2, p_round = 4, p_slug = None, p_sort = 0,
       p_unlock_cond = None, p_release_phase = None, p_immediate_release = Some 0,
       p_max_submit = Some 2, p_judge = Some submit_rules,
       p_penalty = Some [\<lparr>pn_type = FixedTime, pn_args = [30]\<rparr>], p_requirements = Some [],
       p_title = [], p_ptype = 0, p_ticket_enabled = True, p_ticket_cooldown = 0\<rparr>],
     team_puzzles := [fresh_tp 7 3 6]\<rparr>"

definition no_script :: "(db, unit) script_runner" where
  "no_script name d = Inl MissingFunction"

lemma submit_db_gate: "submit_gate ascii_lower 9 3 6 submit_db
    = Inr (Admitted (hd (puzzles submit_db)) (map (normalize_rule ascii_lower) submit_rules))"
  by (simp add: submit_gate_def submit_access_def submit_db_def empty_db_def find_tp_def find_team_def
      fresh_tp_def effective_release_def find_puzzle_def submit_allowed_def in_i32_def i32_min_def i32_max_def wrong_count_def
      value_to_judge_def submit_rules_def blank_rule_def lift_db_def lift_judge_def ok_or_def)

lemma submit_db_rows:
  "submissions submit_db = []" "map tp_key (team_puzzles submit_db) = [(3, 6)]" "scriptless submit_db q"
  "find_puzzle submit_db 6 = Some (hd (puzzles submit_db))" "solve_mark submit_db (3, 6) = Some (0, None, 0)"
  "p_judge (hd (puzzles submit_db)) = Some submit_rules" "p_max_submit (hd (puzzles submit_db)) = Some 2"
  "solved_log submit_db k = 0" "wrong_count submit_db 3 6 = 0"
  by (auto simp: submit_db_def empty_db_def tp_key_def fresh_tp_def scriptless_def find_puzzle_def submit_rules_def
      solve_mark_def find_tp_def is_custom_def blank_rule_def solved_log_def wrong_count_def split: if_splits)

lemma submit_db_undisturbed: "undisturbed run submit_db q"
  using submit_db_rows(3) by (simp add: undisturbed_def)

lemma submit_db_verdict:
  "first_verdict ascii_lower submit_rules [65] = default_result\<lparr>res_action := Correct, res_answer := Some [97]\<rparr>"
  "normalize_answer ascii_lower [65] = [97]"
  by (simp_all add: first_verdict_def submit_rules_def blank_rule_def normalize_rule_def decides_def
      normalize_answer_def ascii_lower_def is_whitespace_def rule_result_def action_of_opt_def action_of_str_def
      default_result_def)

lemma submit_db_answer:
  obtains oc d1 where
    "submit_transaction ascii_lower run 9 1 8 3 6 [65] submit_db
      = Inr (TxDone (default_result\<lparr>res_action := Correct, res_answer := Some [97]\<rparr>) oc [], d1)"
    "oc_cooldown oc = None"
proof (rule answer_accepted [OF submit_db_gate submit_db_rows(6,3), of "[65]" run 1 8])
qed (use that in \<open>simp_all add: submit_db_verdict submit_db_rows\<close>)

text \<open>
  C3: the verdict is exact. A submission that is answered with a verdict, for a puzzle without scripts,
  got the verdict of the first rule of the puzzle that decides its normalised answer; it is stored
  once, with that verdict; it is reported as solving exactly if the verdict is \<open>Correct\<close> or
  \<open>FinishGame\<close> and the puzzle was unsolved, and then the puzzle is marked solved at this time and the
  log gets one entry; no other puzzle of any team changes its mark.
\<close>

theorem submission_verdict_exact:
  assumes "submit_answer lower run now fresh u t p ans d = Inr (SubmitOk res won us till evs, d')"
    and "scriptless d p" and "fresh \<notin> s_id ` set (submissions d)"
    and "distinct (map tp_key (team_puzzles d))"
  shows "\<exists>q js m. find_puzzle d p = Some q \<and> p_judge q = Some js \<and> solve_mark d (t, p) = Some m
    \<and> res = first_verdict lower js ans
    \<and> submissions d' = submissions d @ [judged_submission lower now fresh u t p ans res]
    \<and> won = ((res_action res = Correct \<or> res_action res = FinishGame) \<and> fst m = 0)
    \<and> solve_mark d' (t, p) = Some (if won then solved_mark now m else m)
    \<and> (\<forall>k. solved_log d' k = solved_log d k + (if won \<and> k = (t, p) then 1 else 0))
    \<and> (\<forall>k n. k \<noteq> (t, p) \<and> solve_mark d k = Some n \<longrightarrow> solve_mark d' k = Some n)"
  using assms(1-4)
proof (cases rule: answer_cases)
  case refused
  then show ?thesis by blast
next
  case (judged res' oc evs' d1)
  have r: "res' = res" "oc_solved oc = won" using judged(3) by simp_all
  have und: "undisturbed run d p" using assms(2) by (simp add: undisturbed_def)
  from transaction_done [OF judged(1) und assms(3,4)] assms(2) obtain q js where q:
    "find_puzzle d p = Some q" "p_judge q = Some js" "res' = first_verdict lower js ans"
    "submit_access now t p d = Some True"
    "submissions d1 = submissions d @ [judged_submission lower now fresh u t p ans res']"
    "progress now (if oc_solved oc then Some (t, p) else None) d d1" by metis
  have adv: "advance now (if won then Some (t, p) else None) d d'"
    using advance_trans [OF progress_advance [OF q(6)] advance_settled] unfolding judged(2) r by simp
  obtain m where m: "solve_mark d (t, p) = Some m"
    using q(4) by (auto simp: submit_access_def solve_mark_def split: option.splits)
  have won: "won = ((res_action res = Correct \<or> res_action res = FinishGame) \<and> fst m = 0)"
    using transaction_solved [OF judged(1) und assms(4)] m r by simp
  have log: "solved_log d' k = solved_log d k + (if won \<and> k = (t, p) then 1 else 0)" for k
    using advance_log [OF adv, of k] by auto
  have other: "solve_mark d' k = Some n" if "k \<noteq> (t, p)" "solve_mark d k = Some n" for k n
    using advance_mark [OF adv that(2)] that(1) by (auto split: if_splits)
  have mine: "solve_mark d' (t, p) = Some (if won then solved_mark now m else m)"
    using advance_mark [OF adv m] by simp
  have subs: "submissions d' = submissions d @ [judged_submission lower now fresh u t p ans res]"
    using q(5) r unfolding judged(2) by simp
  show ?thesis
    using q(1-3) m won log other mine subs r by blast
qed

lemma submission_verdict_exact_witness:
  "\<exists>us d'. submit_answer ascii_lower no_script 9 1 8 3 6 [65] submit_db
      = Inr (SubmitOk (default_result\<lparr>res_action := Correct, res_answer := Some [97]\<rparr>) True us None [], d')
    \<and> solve_mark d' (3, 6) = Some (1, Some 9, 0) \<and> solved_log d' (3, 6) = 1"
proof -
  let ?run = no_script
  obtain oc d1 where tx: "submit_transaction ascii_lower ?run 9 1 8 3 6 [65] submit_db
      = Inr (TxDone (default_result\<lparr>res_action := Correct, res_answer := Some [97]\<rparr>) oc [], d1)"
    "oc_cooldown oc = None"
    by (rule submit_db_answer)
  obtain us d' where a: "submit_answer ascii_lower ?run 9 1 8 3 6 [65] submit_db
      = Inr (SubmitOk (default_result\<lparr>res_action := Correct, res_answer := Some [97]\<rparr>) (oc_solved oc) us None [], d')"
    using tx by (auto simp: submit_answer_def submit_db_verdict case_prod_beta Let_def)
  have "distinct (map tp_key (team_puzzles submit_db))" "1 \<notin> s_id ` set (submissions submit_db)"
    by (simp_all add: submit_db_rows)
  from submission_verdict_exact [OF a submit_db_rows(3) this(2,1)]
  have "oc_solved oc \<and> solve_mark d' (3, 6) = Some (1, Some 9, 0) \<and> solved_log d' (3, 6) = 1"
    by (auto simp: submit_db_rows solved_mark_def)
  with a show ?thesis by (intro exI [of _ us] exI [of _ d']) simp
qed

text \<open>
  C13: a right answer gets through. When a team may submit to a puzzle without scripts (the gate admits
  the puzzle), the answer is not blank and not one of its stored answers, and the first rule that decides
  it says \<open>Correct\<close> or \<open>FinishGame\<close>, then the request succeeds: it is answered with that verdict and
  without a cooldown, reported as solving exactly if the puzzle was unsolved, and then the puzzle is
  marked solved at this time; a puzzle in another state keeps its mark.
\<close>

theorem right_answer_gets_through:
  assumes "submit_gate lower now t p d = Inr (Admitted q rules)" and "p_judge q = Some js"
    and "scriptless d p" and "normalize_answer lower ans \<noteq> []"
    and "\<forall>s \<in> set (submissions d). \<not> s_ignored s \<longrightarrow> submission_key s \<noteq> (t, p, normalize_answer lower ans)"
    and "res_action (first_verdict lower js ans) = Correct \<or> res_action (first_verdict lower js ans) = FinishGame"
    and "fresh \<notin> s_id ` set (submissions d)" and "distinct (map tp_key (team_puzzles d))"
    and "solve_mark d (t, p) = Some (s, at, k)"
  shows "\<exists>us d'. submit_answer lower run now fresh u t p ans d
      = Inr (SubmitOk (first_verdict lower js ans) (s = 0) us None [], d')
    \<and> solve_mark d' (t, p) = Some (if s = 0 then (1, Some now, k) else (s, at, k))"
proof -
  obtain oc d1 where tx: "submit_transaction lower run now fresh u t p ans d
      = Inr (TxDone (first_verdict lower js ans) oc [], d1)" "oc_cooldown oc = None"
    by (rule answer_accepted [OF assms(1-6)])
  have und: "undisturbed run d p" using assms(3) by (simp add: undisturbed_def)
  have won: "oc_solved oc \<longleftrightarrow> s = 0"
    using transaction_solved [OF tx(1) und assms(8)] assms(6,9) by simp
  obtain us where a: "submit_answer lower run now fresh u t p ans d
      = Inr (SubmitOk (first_verdict lower js ans) (oc_solved oc) us None [], settled now t oc d1)"
    using tx assms(4) by (auto simp: submit_answer_def settled_def case_prod_beta Let_def)
  have "progress now (if s = 0 then Some (t, p) else None) d d1"
    by (rule transaction_done [OF tx(1) und assms(7,8)]) (simp only: won)
  from advance_mark [OF advance_trans [OF progress_advance [OF this] advance_settled] assms(9)]
  have "solve_mark (settled now t oc d1) (t, p) = Some (if s = 0 then (1, Some now, k) else (s, at, k))"
    by (cases "s = 0") (simp_all add: solved_mark_def)
  with a show ?thesis unfolding won by blast
qed

lemma right_answer_gets_through_witness:
  "\<exists>us d'. submit_answer ascii_lower no_script 9 1 8 3 6 [65] submit_db
      = Inr (SubmitOk (first_verdict ascii_lower submit_rules [65]) True us None [], d')
    \<and> solve_mark d' (3, 6) = Some (1, Some 9, 0)"
proof -
  have "\<exists>us d'. submit_answer ascii_lower no_script 9 1 8 3 6 [65] submit_db
      = Inr (SubmitOk (first_verdict ascii_lower submit_rules [65]) ((0 :: int) = 0) us None [], d')
    \<and> solve_mark d' (3, 6) = Some (if (0 :: int) = 0 then (1, Some 9, 0) else (0, None, 0))"
    by (rule right_answer_gets_through [OF submit_db_gate submit_db_rows(6,3)])
      (simp_all add: submit_db_verdict submit_db_rows)
  then show ?thesis by simp
qed

section \<open>Histories of submissions\<close>

text \<open>One submission after another from the sample.\<close>

lemma submit_db_run:
  "\<exists>d'. submit_run ascii_lower no_script submit_db d' \<and> solve_mark d' (3, 6) = Some (1, Some 9, 0)
    \<and> submissions d' \<noteq> []"
proof -
  obtain oc d1 where tx: "submit_transaction ascii_lower no_script 9 1 8 3 6 [65] submit_db
      = Inr (TxDone (default_result\<lparr>res_action := Correct, res_answer := Some [97]\<rparr>) oc [], d1)"
    by (rule submit_db_answer)
  have fresh: "1 \<notin> s_id ` set (submissions submit_db)" and keys: "distinct (map tp_key (team_puzzles submit_db))"
    by (simp_all add: submit_db_rows)
  have won: "oc_solved oc"
    using transaction_solved [OF tx submit_db_undisturbed keys] by (simp add: submit_db_rows)
  obtain r where a: "submit_answer ascii_lower no_script 9 1 8 3 6 [65] submit_db = Inr (r, settled 9 3 oc d1)"
    using tx by (auto simp: submit_answer_def settled_def submit_db_verdict case_prod_beta Let_def)
  have "progress 9 (Some (3, 6)) submit_db d1"
    using transaction_done [OF tx submit_db_undisturbed fresh keys] won by auto
  from advance_mark [OF advance_trans [OF progress_advance [OF this] advance_settled] submit_db_rows(5)]
  have "solve_mark (settled 9 3 oc d1) (3, 6) = Some (1, Some 9, 0)" by (simp add: solved_mark_def)
  moreover have "submissions (settled 9 3 oc d1) \<noteq> []"
    by (rule transaction_done [OF tx submit_db_undisturbed fresh keys]) simp
  ultimately show ?thesis
    using submit_run.step [OF submit_run.init fresh a] by blast
qed

text \<open>
  C4: a puzzle is solved once. Along any history of submissions (where no puzzle has scripts, or scripts
  write only to their own tables) a team puzzle either keeps its state, its time of solving and its
  number of solved entries in the log, or it was unsolved, is solved with a time, and has exactly one
  entry more; so a solved puzzle stays solved, with its first time, and is never logged twice.
\<close>

theorem solved_once:
  assumes "submit_run lower run d d'" and "\<And>q. undisturbed run d q" and "distinct (map tp_key (team_puzzles d))"
    and "solve_mark d k = Some (s, at, m)"
  shows "(solve_mark d' k = Some (s, at, m) \<and> solved_log d' k = solved_log d k)
    \<or> (s = 0 \<and> (\<exists>now. solve_mark d' k = Some (1, Some now, m)) \<and> solved_log d' k = solved_log d k + 1)"
    (is "?P d'")
proof -
  have "?P d" using assms(4) by simp
  moreover have "?P d''" if "?P d'" "advance now w d' d''" for d' d'' now w
  proof -
    have log: "solved_log d'' k = solved_log d' k + (if w = Some k then 1 else 0)" by (rule advance_log [OF that(2)])
    have won: "w = Some k \<Longrightarrow> \<exists>n. solve_mark d' k = Some n \<and> fst n = 0"
      using that(2) unfolding advance_def by blast
    have "solve_mark d' k \<noteq> None" using that(1) by auto
    then obtain n where n: "solve_mark d' k = Some n" by blast
    have mark: "solve_mark d'' k = Some (if w = Some k then solved_mark now n else n)"
      by (rule advance_mark [OF that(2) n])
    show ?thesis
      using that(1) log won mark n by (cases "w = Some k") (simp_all add: solved_mark_def, fastforce)
  qed
  ultimately show ?thesis
    using submit_run_invariant [OF assms(1-3), where P = ?P] by blast
qed

lemma solved_once_witness:
  "\<exists>d' now. solve_mark d' (3, 6) = Some (1, Some now, 0) \<and> solved_log d' (3, 6) = 1"
proof -
  obtain d' where run: "submit_run ascii_lower no_script submit_db d'" "solve_mark d' (3, 6) = Some (1, Some 9, 0)"
    using submit_db_run by blast
  from solved_once [OF run(1) submit_db_undisturbed _ submit_db_rows(5)] run(2)
  have "solved_log d' (3, 6) = 1" by (simp add: submit_db_rows)
  with run(2) show ?thesis by blast
qed

text \<open>
  C5: nobody gets more wrong attempts than granted. If the wrong answers of a team to a puzzle do not
  exceed the limit of the puzzle plus the team's extra attempts, they do not after any history of
  submissions of any teams either, where no puzzle has scripts or scripts write only to their own tables.
\<close>

theorem wrong_attempts_bounded:
  assumes "submit_run lower run d d'" and "\<And>q. undisturbed run d q" and "distinct (map tp_key (team_puzzles d))"
    and "find_puzzle d p = Some q" and "p_max_submit q = Some k" and "solve_mark d (t, p) = Some (s, at, m)"
    and "int (wrong_count d t p) \<le> k + m"
  shows "int (wrong_count d' t p) \<le> k + m"
proof -
  let ?P = "\<lambda>d'. int (wrong_count d' t p) \<le> k + m \<and> find_puzzle d' p = Some q
    \<and> (\<exists>s at. solve_mark d' (t, p) = Some (s, at, m))"
  have "?P d" using assms(4,6,7) by simp
  moreover have "?P d''" if puzzles: "puzzles d'' = puzzles d'" and P: "?P d'"
    and allowed: "submit_allowed now t1 p1 d' = Inr True"
    and new: "submissions d'' = submissions d' @ [judged_submission lower now fresh u t1 p1 ans res]"
    and adv: "advance now w d' d''" for d' d'' now fresh u t1 p1 ans res w
  proof -
    obtain s at where mark: "solve_mark d' (t, p) = Some (s, at, m)" using P by blast
    then obtain tp where tp: "find_tp d' t p = Some tp" "tp_max_submit tp = m" by (auto simp: solve_mark_def)
    have count: "wrong_count d'' t p = wrong_count d' t p
        + (if is_wrong t p (judged_submission lower now fresh u t1 p1 ans res) then 1 else 0)"
      by (simp add: wrong_count_def new)
    have "int (wrong_count d'' t p) \<le> k + m"
    proof (cases "t1 = t \<and> p1 = p")
      case True
      then have "int (wrong_count d' t p) < k + m"
        using allowed tp P assms(5) by (auto simp: submit_allowed_def split: if_splits)
      then show ?thesis using count by simp
    next
      case False
      then show ?thesis using count P by (auto simp: is_wrong_def judged_submission_def new_submission_def)
    qed
    moreover have "find_puzzle d'' p = Some q" using puzzles P by (simp add: find_puzzle_def)
    moreover have "\<exists>s at. solve_mark d'' (t, p) = Some (s, at, m)"
      using advance_mark [OF adv mark] by (cases "w = Some (t, p)") (simp_all add: solved_mark_def)
    ultimately show ?thesis by blast
  qed
  ultimately show ?thesis
    using submit_run_invariant [OF assms(1-3), where P = ?P] by blast
qed

lemma wrong_attempts_bounded_witness:
  "\<exists>d'. submit_run ascii_lower no_script submit_db d' \<and> submissions d' \<noteq> [] \<and> int (wrong_count d' 3 6) \<le> 2 + 0"
proof -
  obtain d' where run: "submit_run ascii_lower no_script submit_db d'" "submissions d' \<noteq> []"
    using submit_db_run by blast
  with wrong_attempts_bounded [OF run(1) submit_db_undisturbed _ submit_db_rows(4,7,5)] show ?thesis
    by (auto simp: submit_db_rows)
qed

text \<open>
  C14: no answer counts twice. Among the submissions that are not ignored, team, puzzle and normalised
  answer stay unique along every history of submissions, where no puzzle has scripts or scripts write
  only to their own tables.
\<close>

theorem answers_stay_unique:
  assumes "submit_run lower run d d'" and "\<And>q. undisturbed run d q" and "distinct (map tp_key (team_puzzles d))"
    and "distinct (map submission_key (filter (\<lambda>s. \<not> s_ignored s) (submissions d)))"
  shows "distinct (map submission_key (filter (\<lambda>s. \<not> s_ignored s) (submissions d')))"
    (is "?P d'")
proof -
  have "?P d''" if "?P d'"
    and "\<forall>s \<in> set (submissions d'). \<not> s_ignored s \<longrightarrow> submission_key s \<noteq> (t, p, normalize_answer lower ans)"
    and "submissions d'' = submissions d' @ [judged_submission lower now fresh u t p ans res]"
    for d' d'' now fresh u t p ans res
    using that by (auto simp: judged_submission_def new_submission_def submission_key_def)
  then show ?thesis
    using submit_run_invariant [OF assms(1-3), where P = ?P] assms(4) by blast
qed

lemma answers_stay_unique_witness:
  "\<exists>d'. submit_run ascii_lower no_script submit_db d' \<and> solve_mark d' (3, 6) = Some (1, Some 9, 0)
    \<and> distinct (map submission_key (filter (\<lambda>s. \<not> s_ignored s) (submissions d')))"
proof -
  obtain d' where run: "submit_run ascii_lower no_script submit_db d'" "solve_mark d' (3, 6) = Some (1, Some 9, 0)"
    using submit_db_run by blast
  with answers_stay_unique [OF run(1) submit_db_undisturbed] show ?thesis
    by (auto simp: submit_db_rows)
qed

end
