(* ===== verification/Board.thy ===== *)
theory Board
  imports Feature
begin

text \<open>
  \<^verbatim>\<open>src/db/board.rs\<close> and \<^verbatim>\<open>src/module/leaderboard.rs\<close>: the leaderboard of a game. It is computed from
  the teams, or from the rows written when it was locked; published as a numbered snapshot in the
  key-value store; read page by page; and rebuilt by a scheduler that works off marks of dirty teams
  and games. The statements of a refresh commit one by one, so an operation that fails still returns
  the state it has reached. A user's nickname is the parameter \<open>nick\<close>. Not modelled: a key-value store
  that fails between the two writes of one publication, and version numbers beyond 64 bits.
\<close>

section \<open>The board of a game\<close>

record board_team =
  bt_rank :: nat
  bt_id :: nat
  bt_name :: ustr
  bt_bio :: ustr
  bt_finish :: "time option"
  bt_last :: "time option"
  bt_solves :: nat
  bt_members :: "ustr list"

record board_snapshot =
  sn_order :: "nat list"
  sn_teams :: "nat \<Rightarrow> board_team option"
  sn_locked :: "time option"
  sn_version :: int

definition board_enabled :: "db \<Rightarrow> nat \<Rightarrow> bool" where
  "board_enabled d team_id =
     (case find (\<lambda>r. tf_team r = team_id \<and> tf_type r = feature_value Leaderboard) (team_features d) of
        None \<Rightarrow> True | Some r \<Rightarrow> tf_enabled r)"

text \<open>Rows of the same key keep the order of the table.\<close>

definition team_nicknames :: "(nat \<Rightarrow> ustr) \<Rightarrow> db \<Rightarrow> nat \<Rightarrow> nat \<Rightarrow> ustr list" where
  "team_nicknames nick d game_id team_id =
     map (\<lambda>m. nick (m_user m)) (filter (\<lambda>m. m_team m = team_id)
       (sort_key (\<lambda>m. (\<not> m_captain m, m_ctime m)) (filter (\<lambda>m. m_game m = game_id) (members d))))"

definition board_team_of ::
  "(nat \<Rightarrow> ustr) \<Rightarrow> db \<Rightarrow> nat \<Rightarrow> team_row \<Rightarrow> time option \<Rightarrow> time option \<Rightarrow> nat \<Rightarrow> board_team" where
  "board_team_of nick d game_id t finish latest solves =
     \<lparr>bt_rank = 0, bt_id = t_id t, bt_name = t_name t, bt_bio = t_bio t, bt_finish = finish,
      bt_last = latest, bt_solves = solves, bt_members = team_nicknames nick d game_id (t_id t)\<rparr>"

definition live_board :: "(nat \<Rightarrow> ustr) \<Rightarrow> db \<Rightarrow> nat \<Rightarrow> board_team list" where
  "live_board nick d game_id =
     map (\<lambda>t. board_team_of nick d game_id t (t_finish t) (last_solved d (t_id t)) (solve_count d (t_id t)))
       (sort_key (rank_key d) (filter (\<lambda>t. t_game t = game_id \<and> t_start t \<noteq> None \<and> \<not> t_banned t
          \<and> board_enabled d (t_id t)) (teams d)))"

definition frozen_rows :: "db \<Rightarrow> nat \<Rightarrow> (lock_team_row \<times> team_row) list" where
  "frozen_rows d game_id =
     concat (map (\<lambda>s. map (\<lambda>t. (s, t)) (filter (\<lambda>t. t_id t = lt_team s \<and> \<not> t_banned t \<and> board_enabled d (t_id t)) (teams d)))
       (filter (\<lambda>s. lt_game s = game_id) (lock_teams d)))"

definition frozen_board :: "(nat \<Rightarrow> ustr) \<Rightarrow> db \<Rightarrow> nat \<Rightarrow> board_team list" where
  "frozen_board nick d game_id =
     map (\<lambda>(s, t). board_team_of nick d game_id t (lt_finish s) (lt_last s) (lt_solves s))
       (sort_key (\<lambda>(s, t). (lt_rank s, t_id t)) (frozen_rows d game_id))"

definition fetch_teams :: "(nat \<Rightarrow> ustr) \<Rightarrow> db \<Rightarrow> nat \<Rightarrow> board_team list" where
  "fetch_teams nick d game_id =
     (if exists_row (\<lambda>l. ll_game l = game_id) (locks d) then frozen_board nick d game_id
      else live_board nick d game_id)"

text \<open>Collecting into a map: a later entry of the same key replaces an earlier one.\<close>

definition build_snapshot :: "(nat \<Rightarrow> ustr) \<Rightarrow> nat \<Rightarrow> int \<Rightarrow> db \<Rightarrow> board_snapshot" where
  "build_snapshot nick game_id version d =
     (let board = fetch_teams nick d game_id
      in \<lparr>sn_order = map bt_id board, sn_teams = map_of (rev (map (\<lambda>x. (bt_id x, x)) board)),
          sn_locked = map_option ll_at (find (\<lambda>l. ll_game l = game_id) (locks d)), sn_version = version\<rparr>)"

section \<open>Where boards and marks are kept\<close>

record refresh_row =
  rs_game :: nat
  rs_version :: int
  rs_full :: bool

record dirty_row =
  dt_game :: nat
  dt_team :: nat
  dt_revision :: nat
  dt_order :: bool

text \<open>
  The database with the two tables of marks and the sequence of revisions, the key-value store (the
  latest board of a game, and the numbered boards with their expiry), and the cache of the process.
\<close>

record board_world =
  bw_db :: db
  bw_refresh :: "refresh_row list"
  bw_dirty :: "dirty_row list"
  bw_revision :: nat
  bw_kv_up :: bool
  bw_latest :: "nat \<Rightarrow> board_snapshot option"
  bw_kept :: "nat \<times> int \<Rightarrow> (board_snapshot \<times> time) option"
  bw_cache :: "nat \<Rightarrow> board_snapshot option"

datatype board_error = KvDown

definition snapshot_ttl :: time where
  "snapshot_ttl = 120 * 1000000"

definition publish_snapshot ::
  "time \<Rightarrow> nat \<Rightarrow> board_snapshot \<Rightarrow> board_world \<Rightarrow> board_error + board_world" where
  "publish_snapshot now game_id s w =
     (if \<not> bw_kv_up w then Inl KvDown
      else Inr (w\<lparr>bw_kept := (bw_kept w)((game_id, sn_version s) \<mapsto> (s, now + snapshot_ttl)),
                  bw_latest := (bw_latest w)(game_id \<mapsto> s), bw_cache := (bw_cache w)(game_id \<mapsto> s)\<rparr>))"

definition load_snapshot ::
  "time \<Rightarrow> nat \<Rightarrow> int option \<Rightarrow> board_world \<Rightarrow> board_error + board_snapshot option \<times> board_world" where
  "load_snapshot now game_id version w =
     (if \<not> bw_kv_up w then Inl KvDown
      else case version of
        Some v \<Rightarrow> Inr (case bw_kept w (game_id, v) of
            Some (s, expires) \<Rightarrow> if now < expires then Some s else None | None \<Rightarrow> None, w)
      | None \<Rightarrow>
          (case bw_latest w game_id of
             None \<Rightarrow> Inr (None, w)
           | Some s \<Rightarrow> Inr (Some s, w\<lparr>bw_cache := (bw_cache w)(game_id \<mapsto> s)\<rparr>)))"

definition next_version :: "nat \<Rightarrow> board_world \<Rightarrow> int \<times> board_world" where
  "next_version game_id w =
     (case find (\<lambda>r. rs_game r = game_id) (bw_refresh w) of
        None \<Rightarrow> (1, w\<lparr>bw_refresh := bw_refresh w @ [\<lparr>rs_game = game_id, rs_version = 1, rs_full = True\<rparr>]\<rparr>)
      | Some r \<Rightarrow> (rs_version r + 1, w\<lparr>bw_refresh := update_rows (\<lambda>r. rs_game r = game_id)
          (\<lambda>r. r\<lparr>rs_version := rs_version r + 1, rs_full := False\<rparr>) (bw_refresh w)\<rparr>))"

section \<open>Marks\<close>

definition refresh_key :: "refresh_row \<Rightarrow> nat" where
  "refresh_key = rs_game"

definition dirty_key :: "dirty_row \<Rightarrow> nat \<times> nat" where
  "dirty_key r = (dt_game r, dt_team r)"

text \<open>A mark of a team takes the next revision, whether it is a new row or renews an old one.\<close>

definition mark_team_dirty :: "nat \<Rightarrow> bool \<Rightarrow> board_world \<Rightarrow> board_world" where
  "mark_team_dirty team_id affects_order w =
     (case find (\<lambda>t. t_id t = team_id) (teams (bw_db w)) of
        None \<Rightarrow> w
      | Some t \<Rightarrow>
          (let game_id = t_game t; rev = bw_revision w + 1; mine = (\<lambda>r. dirty_key r = (game_id, team_id))
           in w\<lparr>bw_refresh := insert_new refresh_key (bw_refresh w)
                  [\<lparr>rs_game = game_id, rs_version = 0, rs_full = True\<rparr>],
                bw_revision := rev,
                bw_dirty :=
                  (if exists_row mine (bw_dirty w)
                   then update_rows mine (\<lambda>r. r\<lparr>dt_revision := rev, dt_order := (dt_order r \<or> affects_order)\<rparr>)
                     (bw_dirty w)
                   else bw_dirty w @ [\<lparr>dt_game = game_id, dt_team = team_id, dt_revision = rev,
                     dt_order = affects_order\<rparr>])\<rparr>))"

definition mark_game_dirty :: "nat \<Rightarrow> board_world \<Rightarrow> board_world" where
  "mark_game_dirty game_id w =
     w\<lparr>bw_refresh :=
         (if exists_row (\<lambda>r. rs_game r = game_id) (bw_refresh w)
          then update_rows (\<lambda>r. rs_game r = game_id) (\<lambda>r. r\<lparr>rs_full := True\<rparr>) (bw_refresh w)
          else bw_refresh w @ [\<lparr>rs_game = game_id, rs_version = 0, rs_full = True\<rparr>]),
       bw_cache := (bw_cache w)(game_id := None)\<rparr>"

definition update_team :: "nat \<Rightarrow> bool \<Rightarrow> board_world \<Rightarrow> board_world" where
  "update_team team_id affects_order w = mark_team_dirty team_id affects_order w"

definition remove_team :: "nat \<Rightarrow> board_world \<Rightarrow> board_world" where
  "remove_team game_id w = mark_game_dirty game_id w"

definition invalidate_game :: "nat \<Rightarrow> board_world \<Rightarrow> board_world" where
  "invalidate_game game_id w = mark_game_dirty game_id w"

definition dirty_games :: "board_world \<Rightarrow> nat list" where
  "dirty_games w = sort (remdups (map dt_game (bw_dirty w) @ map rs_game (filter rs_full (bw_refresh w))))"

section \<open>Refreshing\<close>

definition max_revision :: "nat \<Rightarrow> board_world \<Rightarrow> nat option" where
  "max_revision game_id w =
     (case filter (\<lambda>r. dt_game r = game_id) (bw_dirty w) of
        [] \<Rightarrow> None | r # rs \<Rightarrow> Some (fold max (map dt_revision rs) (dt_revision r)))"

definition sweep_marks :: "nat \<Rightarrow> nat option \<Rightarrow> board_world \<Rightarrow> board_world" where
  "sweep_marks game_id bound w =
     (case bound of
        None \<Rightarrow> w
      | Some m \<Rightarrow> w\<lparr>bw_dirty := delete_rows (\<lambda>r. dt_game r = game_id \<and> dt_revision r \<le> m) (bw_dirty w)\<rparr>)"

definition clear_full :: "nat \<Rightarrow> board_world \<Rightarrow> board_world" where
  "clear_full game_id w =
     w\<lparr>bw_refresh := update_rows (\<lambda>r. rs_game r = game_id) (\<lambda>r. r\<lparr>rs_full := False\<rparr>) (bw_refresh w)\<rparr>"

text \<open>
  A refresh, statement by statement: where the refresher is, with what it has read so far. A build runs
  several queries; the flag of \<open>Building\<close> says that the board changed between them.
\<close>

datatype refresher = Resting | Begun "nat option" | Numbered "nat option" int | Building "nat option" int bool
  | Built "nat option" board_snapshot | Published "nat option" | Swept

fun refresh_step ::
  "(nat \<Rightarrow> ustr) \<Rightarrow> time \<Rightarrow> nat \<Rightarrow> refresher \<Rightarrow> board_world \<Rightarrow> board_error option \<times> refresher \<times> board_world" where
  "refresh_step nick now game_id Resting w = (None, Begun (max_revision game_id w), w)"
| "refresh_step nick now game_id (Begun m) w =
     (let (version, w1) = next_version game_id w in (None, Numbered m version, w1))"
| "refresh_step nick now game_id (Numbered m version) w = (None, Building m version False, w)"
| "refresh_step nick now game_id (Building m version torn) w =
     (None, Built m (build_snapshot nick game_id version (bw_db w)), w)"
| "refresh_step nick now game_id (Built m snapshot) w =
     (case publish_snapshot now game_id snapshot w of
        Inl e \<Rightarrow> (Some e, Resting, w) | Inr w1 \<Rightarrow> (None, Published m, w1))"
| "refresh_step nick now game_id (Published m) w = (None, Swept, sweep_marks game_id m w)"
| "refresh_step nick now game_id Swept w = (None, Resting, clear_full game_id w)"

fun run_refresh ::
  "(nat \<Rightarrow> ustr) \<Rightarrow> time \<Rightarrow> nat \<Rightarrow> nat \<Rightarrow> refresher \<Rightarrow> board_world \<Rightarrow> board_error option \<times> board_world" where
  "run_refresh nick now game_id 0 pc w = (None, w)"
| "run_refresh nick now game_id (Suc n) pc w =
     (case refresh_step nick now game_id pc w of
        (Some e, pc', w') \<Rightarrow> (Some e, w')
      | (None, pc', w') \<Rightarrow> run_refresh nick now game_id n pc' w')"

text \<open>The seven steps of one refresh; \<open>lock_free\<close>: whether the advisory lock of the game could be taken.\<close>

definition refresh_game ::
  "(nat \<Rightarrow> ustr) \<Rightarrow> time \<Rightarrow> bool \<Rightarrow> nat \<Rightarrow> board_world \<Rightarrow> board_error option \<times> board_world" where
  "refresh_game nick now lock_free game_id w =
     (if \<not> lock_free then (None, w) else run_refresh nick now game_id 7 Resting w)"

lemma refresh_game_eq:
  "refresh_game nick now lock_free game_id w =
     (if \<not> lock_free then (None, w)
      else (let m = max_revision game_id w; (version, w1) = next_version game_id w
            in case publish_snapshot now game_id (build_snapshot nick game_id version (bw_db w1)) w1 of
                 Inl e \<Rightarrow> (Some e, w1)
               | Inr w2 \<Rightarrow> (None, clear_full game_id (sweep_marks game_id m w2))))"
  by (simp add: refresh_game_def eval_nat_numeral Let_def split: prod.split sum.split)

text \<open>The scheduler's pass: a game whose refresh fails does not keep the others from being refreshed.\<close>

definition process_dirty_leaderboards ::
  "(nat \<Rightarrow> ustr) \<Rightarrow> time \<Rightarrow> (nat \<Rightarrow> bool) \<Rightarrow> board_world \<Rightarrow> board_world" where
  "process_dirty_leaderboards nick now lock_free w =
     fold (\<lambda>game_id w. snd (refresh_game nick now (lock_free game_id) game_id w)) (dirty_games w) w"

definition normalize_refresh_interval :: "int \<Rightarrow> int" where
  "normalize_refresh_interval seconds = max 1 (min 86400 seconds)"

section \<open>Reading\<close>

text \<open>
  Without the lock, the latest board is polled five times; \<open>polls\<close> are the boards those polls find
  (\<open>None\<close> also when a poll fails).
\<close>

datatype lock_outcome = Taken | Busy "board_snapshot option list"

definition rebuild_and_publish ::
  "(nat \<Rightarrow> ustr) \<Rightarrow> time \<Rightarrow> lock_outcome \<Rightarrow> nat \<Rightarrow> board_world \<Rightarrow> board_snapshot option \<times> board_world" where
  "rebuild_and_publish nick now lock game_id w =
     (case lock of
        Busy polls \<Rightarrow>
          (case find (\<lambda>p. p \<noteq> None) (take 5 polls) of
             Some found \<Rightarrow> (found, w\<lparr>bw_cache := (bw_cache w)(game_id := found)\<rparr>)
           | None \<Rightarrow> (bw_cache w game_id, w))
      | Taken \<Rightarrow>
          (let (version, w1) = next_version game_id w; s = build_snapshot nick game_id version (bw_db w1)
           in case publish_snapshot now game_id s w1 of
                Inr w2 \<Rightarrow> (Some s, w2)
              | Inl e \<Rightarrow> (Some s, w1\<lparr>bw_cache := (bw_cache w1)(game_id \<mapsto> s)\<rparr>)))"

record board_info =
  bi_data :: "board_team list"
  bi_version :: int
  bi_total :: nat
  bi_more :: bool
  bi_reset :: bool
  bi_locked :: "time option"

text \<open>A failed load is logged and counts as no board.\<close>

definition try_load ::
  "time \<Rightarrow> nat \<Rightarrow> int option \<Rightarrow> board_world \<Rightarrow> board_snapshot option \<times> board_world" where
  "try_load now game_id version w = (case load_snapshot now game_id version w of Inl e \<Rightarrow> (None, w) | Inr r \<Rightarrow> r)"

definition board_page :: "board_snapshot \<Rightarrow> nat \<Rightarrow> nat \<Rightarrow> board_team list" where
  "board_page s offset limit =
     List.map_filter (\<lambda>(index, id). map_option (\<lambda>team. team\<lparr>bt_rank := index + 1\<rparr>) (sn_teams s id))
       (take limit (drop offset (enumerate 0 (sn_order s))))"

definition get_info ::
  "(nat \<Rightarrow> ustr) \<Rightarrow> time \<Rightarrow> lock_outcome \<Rightarrow> nat \<Rightarrow> int option \<Rightarrow> nat \<Rightarrow> nat \<Rightarrow> board_world
    \<Rightarrow> board_info option \<times> board_world" where
  "get_info nick now lock game_id prev_version offset limit w =
     (let (first, w1) = (if offset > 0 \<and> prev_version \<noteq> None then try_load now game_id prev_version w else (None, w));
          reset = (first = None \<and> offset > 0);
          (second, w2) = (if first = None then try_load now game_id None w1 else (first, w1));
          (third, w3) = (if second = None then rebuild_and_publish nick now lock game_id w2 else (second, w2))
      in case (case third of Some s \<Rightarrow> Some s | None \<Rightarrow> bw_cache w3 game_id) of
           None \<Rightarrow> (None, w3)
         | Some s \<Rightarrow>
             if offset = 0 \<and> prev_version = Some (sn_version s) then (None, w3)
             else (let start = (if reset then 0 else offset); total = length (sn_order s)
                   in (Some \<lparr>bi_data = board_page s start limit, bi_version = sn_version s, bi_total = total,
                         bi_more = (min usize_max (start + limit) < total), bi_reset = reset,
                         bi_locked = sn_locked s\<rparr>, w3)))"

text \<open>The route: 50 teams by default, between 1 and 100.\<close>

definition get_leaderboard ::
  "(nat \<Rightarrow> ustr) \<Rightarrow> time \<Rightarrow> lock_outcome \<Rightarrow> nat \<Rightarrow> int option \<Rightarrow> nat option \<Rightarrow> nat option \<Rightarrow> board_world
    \<Rightarrow> board_info option \<times> board_world" where
  "get_leaderboard nick now lock game_id version offset limit w =
     get_info nick now lock game_id version (case offset of None \<Rightarrow> 0 | Some n \<Rightarrow> n)
       (max 1 (min 100 (case limit of None \<Rightarrow> 50 | Some n \<Rightarrow> n))) w"

end
