(* ===== verification/Release.thy ===== *)
theory Release
  imports Board Gates
begin

text \<open>
  \<^verbatim>\<open>src/db/release.rs\<close>, \<^verbatim>\<open>src/module/release.rs\<close>, \<^verbatim>\<open>src/api/admin/release.rs\<close>: release phases, the
  events that record what was released, the process that works them off, its schedule, and what
  players are sent. Statements outside a transaction commit one by one, so the process returns the
  state it has reached also when it fails. Not modelled: messages to the web sockets.
\<close>

section \<open>Tables\<close>

text \<open>
  A row of the phase table is split: the database of the other theories keeps game and time, the rest
  is a \<open>phase_info\<close> of the same phase.
\<close>

record phase_info =
  pi_phase :: nat
  pi_title :: ustr
  pi_description :: ustr
  pi_content :: int
  pi_visibility :: int

record release_event =
  re_id :: nat
  re_phase :: "nat option"
  re_game :: nat
  re_type :: int
  re_at :: time
  re_notified :: "time option"

record release_world =
  rw_board :: board_world
  rw_infos :: "phase_info list"
  rw_events :: "release_event list"
  rw_next :: nat
  rw_event_puzzles :: "(nat \<times> nat) list"
  rw_event_teams :: "(nat \<times> nat \<times> nat) list"
  rw_woken :: bool

definition rw_db :: "release_world \<Rightarrow> db" where
  "rw_db w = bw_db (rw_board w)"

definition with_db :: "(db \<Rightarrow> db) \<Rightarrow> release_world \<Rightarrow> release_world" where
  "with_db f w = w\<lparr>rw_board := (rw_board w)\<lparr>bw_db := f (rw_db w)\<rparr>\<rparr>"

definition visibility_hidden :: int where "visibility_hidden = 0"
definition visibility_public :: int where "visibility_public = 1"
definition event_phase :: int where "event_phase = 0"
definition event_immediate :: int where "event_immediate = 1"

section \<open>Phases\<close>

definition find_info :: "release_world \<Rightarrow> nat \<Rightarrow> phase_info option" where
  "find_info w phase_id = find (\<lambda>i. pi_phase i = phase_id) (rw_infos w)"

definition phase_released :: "release_world \<Rightarrow> nat \<Rightarrow> bool" where
  "phase_released w phase_id = exists_row (\<lambda>e. re_phase e = Some phase_id) (rw_events w)"

record phase_admin =
  pa_id :: nat
  pa_game :: nat
  pa_info :: phase_info
  pa_release_at :: time
  pa_changes :: "feature_change list"
  pa_puzzles :: nat
  pa_released :: bool

definition load_changes :: "db \<Rightarrow> nat \<Rightarrow> db_error + feature_change list" where
  "load_changes d phase_id =
     collect_res (\<lambda>r.
       res_bind (ok_or (OtherError ''Invalid game feature'') (feature_from_value (pc_type r)))
         (\<lambda>f. res_bind (ok_or (OtherError ''Invalid game feature state'') (decode_state f (pc_target r)))
           (\<lambda>s. Inr \<lparr>fc_feature = f, fc_state = s\<rparr>)))
       (sort_key pc_type (filter (\<lambda>r. pc_phase r = phase_id) (phase_changes d)))"

definition admin_phase :: "release_world \<Rightarrow> phase_row \<Rightarrow> db_error + phase_admin" where
  "admin_phase w ph =
     res_bind (load_changes (rw_db w) (ph_id ph)) (\<lambda>changes.
     res_bind (ok_or RowNotFound (find_info w (ph_id ph))) (\<lambda>info.
       Inr \<lparr>pa_id = ph_id ph, pa_game = ph_game ph, pa_info = info, pa_release_at = ph_release_at ph,
            pa_changes = changes,
            pa_puzzles = length (filter (\<lambda>p. p_release_phase p = Some (ph_id ph)) (puzzles (rw_db w))),
            pa_released = phase_released w (ph_id ph)\<rparr>))"

definition list_admin :: "release_world \<Rightarrow> nat \<Rightarrow> db_error + phase_admin list" where
  "list_admin w game_id =
     collect_res (admin_phase w)
       (sort_key (\<lambda>ph. (ph_release_at ph, ph_id ph)) (filter (\<lambda>ph. ph_game ph = game_id) (phases (rw_db w))))"

definition get_admin :: "release_world \<Rightarrow> nat \<Rightarrow> nat \<Rightarrow> db_error + phase_admin option" where
  "get_admin w game_id phase_id =
     res_bind (list_admin w game_id) (\<lambda>ps. Inr (find (\<lambda>p. pa_id p = phase_id) ps))"

fun insert_changes :: "nat \<Rightarrow> nat \<Rightarrow> feature_change list \<Rightarrow> db \<Rightarrow> db_error + db" where
  "insert_changes game_id phase_id [] d = Inr d"
| "insert_changes game_id phase_id (c # cs) d =
     res_bind (ok_or (OtherError ''Invalid game feature state'') (encode_state (fc_feature c) (fc_state c))) (\<lambda>st.
       if exists_row (\<lambda>r. pc_phase r = phase_id \<and> pc_type r = feature_value (fc_feature c)) (phase_changes d)
       then Inl UniqueViolation
       else insert_changes game_id phase_id cs (d\<lparr>phase_changes := phase_changes d @
         [\<lparr>pc_phase = phase_id, pc_game = game_id, pc_type = feature_value (fc_feature c), pc_target = st\<rparr>]\<rparr>))"

definition replace_changes_conn :: "nat \<Rightarrow> nat \<Rightarrow> feature_change list \<Rightarrow> db \<Rightarrow> db_error + db" where
  "replace_changes_conn game_id phase_id changes d =
     insert_changes game_id phase_id changes
       (d\<lparr>phase_changes := delete_rows (\<lambda>r. pc_phase r = phase_id) (phase_changes d)\<rparr>)"

record phase_create =
  pc_title :: ustr
  pc_description :: ustr
  pc_content :: int
  pc_release_at :: time
  pc_visibility :: int
  pc_changes :: "feature_change list"

record phase_update =
  pu_title :: "ustr option"
  pu_description :: "ustr option"
  pu_content :: "int option"
  pu_release_at :: "time option"
  pu_visibility :: "int option"
  pu_changes :: "feature_change list option"

text \<open>
  No two phases of a game at the same time. Both operations commit before they read the phase back, so
  they return the changed state also when reading fails.
\<close>

definition time_taken :: "db \<Rightarrow> nat \<Rightarrow> nat \<Rightarrow> time \<Rightarrow> bool" where
  "time_taken d game_id phase_id at =
     exists_row (\<lambda>ph. ph_game ph = game_id \<and> ph_id ph \<noteq> phase_id \<and> ph_release_at ph = at) (phases d)"

definition create_admin ::
  "nat \<Rightarrow> nat \<Rightarrow> phase_create \<Rightarrow> release_world \<Rightarrow> (db_error + phase_admin option) \<times> release_world" where
  "create_admin fresh game_id data w =
     (let d = rw_db w in
      if \<not> exists_row (\<lambda>g. g_id g = game_id) (games d) then (Inr None, w)
      else if time_taken d game_id fresh (pc_release_at data) then (Inl UniqueViolation, w)
      else case replace_changes_conn game_id fresh (pc_changes data)
          (d\<lparr>phases := phases d @ [\<lparr>ph_id = fresh, ph_game = game_id, ph_release_at = pc_release_at data\<rparr>]\<rparr>) of
        Inl e \<Rightarrow> (Inl e, w)
      | Inr d2 \<Rightarrow>
        (let w' = with_db (\<lambda>_. d2) w\<lparr>rw_infos := rw_infos w @ [\<lparr>pi_phase = fresh, pi_title = trim (pc_title data),
               pi_description = trim (pc_description data), pi_content = pc_content data,
               pi_visibility = pc_visibility data\<rparr>]\<rparr>
         in (get_admin w' game_id fresh, w')))"

definition patch :: "'a option \<Rightarrow> 'a \<Rightarrow> 'a" where
  "patch new old = (case new of Some x \<Rightarrow> x | None \<Rightarrow> old)"

definition update_info :: "phase_update \<Rightarrow> phase_info \<Rightarrow> phase_info" where
  "update_info data i = i\<lparr>pi_title := patch (map_option trim (pu_title data)) (pi_title i),
     pi_description := patch (map_option trim (pu_description data)) (pi_description i),
     pi_content := patch (pu_content data) (pi_content i),
     pi_visibility := patch (pu_visibility data) (pi_visibility i)\<rparr>"

definition update_admin ::
  "nat \<Rightarrow> nat \<Rightarrow> phase_update \<Rightarrow> release_world \<Rightarrow> (db_error + phase_admin option) \<times> release_world" where
  "update_admin game_id phase_id data w =
     (let d = rw_db w; mine = (\<lambda>ph. ph_game ph = game_id \<and> ph_id ph = phase_id) in
      if \<not> exists_row mine (phases d) then (Inr None, w)
      else if (case pu_release_at data of None \<Rightarrow> False | Some at \<Rightarrow> time_taken d game_id phase_id at)
      then (Inl UniqueViolation, w)
      else (let d1 = d\<lparr>phases := update_rows mine
              (\<lambda>ph. ph\<lparr>ph_release_at := patch (pu_release_at data) (ph_release_at ph)\<rparr>) (phases d)\<rparr>
        in case (case pu_changes data of None \<Rightarrow> Inr d1 | Some cs \<Rightarrow> replace_changes_conn game_id phase_id cs d1) of
          Inl e \<Rightarrow> (Inl e, w)
        | Inr d2 \<Rightarrow> (let w' = with_db (\<lambda>_. d2) w\<lparr>rw_infos :=
                 update_rows (\<lambda>i. pi_phase i = phase_id) (update_info data) (rw_infos w)\<rparr>
             in (get_admin w' game_id phase_id, w'))))"

text \<open>
  Deleting a phase takes its feature changes and its release event with it; locks, features and their
  history forget it.
\<close>

definition forget_phase :: "nat \<Rightarrow> db \<Rightarrow> db" where
  "forget_phase phase_id d =
     d\<lparr>phases := delete_rows (\<lambda>ph. ph_id ph = phase_id) (phases d),
       phase_changes := delete_rows (\<lambda>r. pc_phase r = phase_id) (phase_changes d),
       locks := update_rows (\<lambda>l. ll_phase l = Some phase_id) (\<lambda>l. l\<lparr>ll_phase := None\<rparr>) (locks d),
       features := update_rows (\<lambda>r. f_phase r = Some phase_id) (\<lambda>r. r\<lparr>f_phase := None\<rparr>) (features d),
       feature_history := update_rows (\<lambda>h. fh_phase h = Some phase_id) (\<lambda>h. h\<lparr>fh_phase := None\<rparr>) (feature_history d)\<rparr>"

definition delete_admin :: "nat \<Rightarrow> nat \<Rightarrow> release_world \<Rightarrow> bool \<times> release_world" where
  "delete_admin game_id phase_id w =
     (if exists_row (\<lambda>ph. ph_game ph = game_id \<and> ph_id ph = phase_id) (phases (rw_db w))
         \<and> \<not> exists_row (\<lambda>p. p_release_phase p = Some phase_id) (puzzles (rw_db w))
      then (True, (with_db (forget_phase phase_id) w)\<lparr>
              rw_infos := delete_rows (\<lambda>i. pi_phase i = phase_id) (rw_infos w),
              rw_events := delete_rows (\<lambda>e. re_phase e = Some phase_id) (rw_events w)\<rparr>)
      else (False, w))"

section \<open>Routes\<close>

definition valid_visibility :: "int \<Rightarrow> bool" where
  "valid_visibility v \<longleftrightarrow> v = visibility_hidden \<or> v = visibility_public"

definition valid_title :: "ustr \<Rightarrow> bool" where
  "valid_title s \<longleftrightarrow> trim s \<noteq> [] \<and> length s \<le> 120"

definition valid_description :: "ustr \<Rightarrow> bool" where
  "valid_description s \<longleftrightarrow> length s \<le> 20000"

datatype release_reply = PhaseOk phase_admin | PhaseDeleted | PhaseInvalid | PhaseConflict | PhaseNotFound
  | PhaseError db_error

definition wake_scheduler :: "release_world \<Rightarrow> release_world" where
  "wake_scheduler w = w\<lparr>rw_woken := True\<rparr>"

definition append_phase ::
  "time \<Rightarrow> nat \<Rightarrow> nat \<Rightarrow> phase_create \<Rightarrow> release_world \<Rightarrow> release_reply \<times> release_world" where
  "append_phase now fresh game_id body w =
     (if \<not> valid_title (pc_title body) \<or> \<not> valid_description (pc_description body)
         \<or> \<not> valid_visibility (pc_visibility body) \<or> \<not> valid_changes (pc_changes body) \<or> pc_release_at body \<le> now
      then (PhaseInvalid, w)
      else case create_admin fresh game_id body w of
        (Inr (Some p), w') \<Rightarrow> (PhaseOk p, wake_scheduler w')
      | (Inr None, w') \<Rightarrow> (PhaseNotFound, w')
      | (Inl e, w') \<Rightarrow> (if e = UniqueViolation then PhaseConflict else PhaseError e, w'))"

definition given :: "'a option \<Rightarrow> ('a \<Rightarrow> bool) \<Rightarrow> bool" where
  "given x P = (case x of None \<Rightarrow> False | Some y \<Rightarrow> P y)"

definition edit_phase ::
  "time \<Rightarrow> nat \<Rightarrow> nat \<Rightarrow> phase_update \<Rightarrow> release_world \<Rightarrow> release_reply \<times> release_world" where
  "edit_phase now game_id phase_id body w =
     (case get_admin w game_id phase_id of
        Inl e \<Rightarrow> (PhaseError e, w)
      | Inr None \<Rightarrow> (PhaseNotFound, w)
      | Inr (Some current) \<Rightarrow>
          if (pa_released current \<and> (pu_content body \<noteq> None \<or> pu_release_at body \<noteq> None
                \<or> pu_visibility body \<noteq> None \<or> pu_changes body \<noteq> None))
             \<or> given (pu_title body) (\<lambda>x. \<not> valid_title x)
             \<or> given (pu_description body) (\<lambda>x. \<not> valid_description x)
             \<or> given (pu_visibility body) (\<lambda>x. \<not> valid_visibility x)
             \<or> given (pu_release_at body) (\<lambda>at. at \<le> now)
             \<or> given (pu_changes body) (\<lambda>x. \<not> valid_changes x)
          then (PhaseInvalid, w)
          else case update_admin game_id phase_id body w of
            (Inr (Some p), w') \<Rightarrow> (PhaseOk p, wake_scheduler w')
          | (Inr None, w') \<Rightarrow> (PhaseNotFound, w')
          | (Inl e, w') \<Rightarrow> (if e = UniqueViolation then PhaseConflict else PhaseError e, w'))"

definition delete_phase :: "nat \<Rightarrow> nat \<Rightarrow> release_world \<Rightarrow> release_reply \<times> release_world" where
  "delete_phase game_id phase_id w =
     (let (deleted, w') = delete_admin game_id phase_id w
      in if deleted then (PhaseDeleted, wake_scheduler w') else (PhaseInvalid, w'))"

section \<open>Releasing\<close>

text \<open>Every row the query selects takes an identifier, also one that is skipped as a conflict.\<close>

fun insert_due :: "phase_row list \<Rightarrow> release_event list \<times> nat \<Rightarrow> release_event list \<times> nat" where
  "insert_due [] st = st"
| "insert_due (ph # phs) (es, n) =
     insert_due phs
       (if exists_row (\<lambda>e. re_phase e = Some (ph_id ph)) es then es
        else es @ [\<lparr>re_id = n, re_phase = Some (ph_id ph), re_game = ph_game ph, re_type = event_phase,
               re_at = ph_release_at ph, re_notified = None\<rparr>], n + 1)"

definition due_phases :: "time \<Rightarrow> db \<Rightarrow> phase_row list" where
  "due_phases now d = sort_key (\<lambda>ph. (ph_release_at ph, ph_id ph)) (filter (\<lambda>ph. ph_release_at ph \<le> now) (phases d))"

definition materialize_due :: "time \<Rightarrow> release_world \<Rightarrow> release_world" where
  "materialize_due now w =
     (let (es, n) = insert_due (due_phases now (rw_db w)) (rw_events w, rw_next w)
      in w\<lparr>rw_events := es, rw_next := n\<rparr>)"

definition pending_notifications :: "release_world \<Rightarrow> release_event list" where
  "pending_notifications w = sort_key re_id (filter (\<lambda>e. re_notified e = None) (rw_events w))"

definition mark_notified :: "time \<Rightarrow> nat \<Rightarrow> release_world \<Rightarrow> release_world" where
  "mark_notified now event_id w =
     w\<lparr>rw_events := update_rows (\<lambda>e. re_id e = event_id \<and> re_notified e = None)
         (\<lambda>e. e\<lparr>re_notified := Some now\<rparr>) (rw_events w)\<rparr>"

text \<open>Whether an event releases a puzzle of the team.\<close>

definition releases :: "release_world \<Rightarrow> nat \<Rightarrow> nat option \<Rightarrow> team_puzzle_row \<Rightarrow> bool" where
  "releases w event_id phase_id tp \<longleftrightarrow> tp_state tp \<ge> 0 \<and>
     (case find_puzzle (rw_db w) (tp_puzzle tp) of
        None \<Rightarrow> False
      | Some p \<Rightarrow> (phase_id \<noteq> None \<and> p_release_phase p = phase_id)
          \<or> (event_id, tp_puzzle tp, tp_team tp) \<in> set (rw_event_teams w))"

definition mark_content_blocks_dirty :: "nat \<Rightarrow> nat option \<Rightarrow> release_world \<Rightarrow> release_world" where
  "mark_content_blocks_dirty event_id phase_id w =
     with_db (\<lambda>d. d\<lparr>teams := update_rows
       (\<lambda>t. exists_row (\<lambda>tp. tp_team tp = t_id t \<and> releases w event_id phase_id tp) (team_puzzles d))
       (\<lambda>t. t\<lparr>t_dirty := True\<rparr>) (teams d)\<rparr>) w"

definition released_team_ids :: "release_world \<Rightarrow> nat \<Rightarrow> nat option \<Rightarrow> nat list" where
  "released_team_ids w event_id phase_id =
     sort (remdups (map tp_team (filter (releases w event_id phase_id) (team_puzzles (rw_db w)))))"

definition apply_phase :: "release_event \<Rightarrow> release_world \<Rightarrow> db_error + bool \<times> release_world" where
  "apply_phase ev w =
     (case re_phase ev of
        None \<Rightarrow> Inr (False, w)
      | Some ph \<Rightarrow> res_bind (apply_phase_changes (re_game ev) ph (re_at ev) (rw_db w))
          (\<lambda>(changed, d). Inr (changed, with_db (\<lambda>_. d) w)))"

definition invalidate_board :: "nat \<Rightarrow> release_world \<Rightarrow> release_world" where
  "invalidate_board game_id w = w\<lparr>rw_board := invalidate_game game_id (rw_board w)\<rparr>"

definition refresh_released :: "time \<Rightarrow> release_event \<Rightarrow> release_world \<Rightarrow> release_world" where
  "refresh_released now ev w =
     fold (\<lambda>t. with_db (refresh_team_hint_enablements now t None)) (released_team_ids w (re_id ev) (re_phase ev)) w"

definition process_event :: "time \<Rightarrow> release_event \<Rightarrow> release_world \<Rightarrow> db_error option \<times> release_world" where
  "process_event now ev w =
     (case apply_phase ev w of
        Inl e \<Rightarrow> (Some e, w)
      | Inr (changed, w1) \<Rightarrow>
          (let w2 = (if changed then invalidate_board (re_game ev) w1 else w1);
               w3 = mark_content_blocks_dirty (re_id ev) (re_phase ev) w2;
               w4 = refresh_released now ev w3
           in (None, mark_notified now (re_id ev) w4)))"

fun process_events :: "time \<Rightarrow> release_event list \<Rightarrow> release_world \<Rightarrow> db_error option \<times> release_world" where
  "process_events now [] w = (None, w)"
| "process_events now (ev # evs) w =
     (case process_event now ev w of
        (Some e, w') \<Rightarrow> (Some e, w')
      | (None, w') \<Rightarrow> process_events now evs w')"

definition process_due_releases_locked :: "time \<Rightarrow> release_world \<Rightarrow> db_error option \<times> release_world" where
  "process_due_releases_locked now w =
     (let w1 = materialize_due now w in process_events now (pending_notifications w1) w1)"

text \<open>\<open>lock_free\<close>: whether the advisory lock could be taken; a caller that waits always gets it.\<close>

definition process_due_releases_with_lock ::
  "time \<Rightarrow> bool \<Rightarrow> bool \<Rightarrow> release_world \<Rightarrow> db_error option \<times> release_world" where
  "process_due_releases_with_lock now lock_free wait_for_lock w =
     (if wait_for_lock \<or> lock_free then process_due_releases_locked now w else (None, w))"

section \<open>The schedule\<close>

text \<open>\<open>CEIL\<close> of the seconds to the next release that has no event yet.\<close>

definition next_delay_seconds :: "time \<Rightarrow> release_world \<Rightarrow> nat option" where
  "next_delay_seconds now w =
     (case filter (\<lambda>ph. \<not> phase_released w (ph_id ph)) (phases (rw_db w)) of
        [] \<Rightarrow> None
      | ph # phs \<Rightarrow>
          Some (nat (max 0 (- ((now - fold min (map ph_release_at phs) (ph_release_at ph)) div 1000000)))))"

definition scheduler_delay :: "time \<Rightarrow> release_world \<Rightarrow> nat" where
  "scheduler_delay now w = (case next_delay_seconds now w of Some s \<Rightarrow> min s 60 | None \<Rightarrow> 60)"

section \<open>What players are sent\<close>

definition release_cursor :: "release_world \<Rightarrow> nat \<Rightarrow> nat" where
  "release_cursor w game_id =
     fold max (map re_id (filter (\<lambda>e. re_game e = game_id) (rw_events w))) 0"

definition list_player :: "time \<Rightarrow> release_world \<Rightarrow> nat \<Rightarrow> (phase_row \<times> phase_info) list" where
  "list_player now w game_id =
     List.map_filter (\<lambda>ph. map_option (Pair ph) (find_info w (ph_id ph)))
       (sort_key (\<lambda>ph. (ph_release_at ph, ph_id ph))
         (filter (\<lambda>ph. ph_game ph = game_id
            \<and> (given (find_info w (ph_id ph)) (\<lambda>i. pi_visibility i = visibility_public)
               \<or> phase_released w (ph_id ph) \<or> ph_release_at ph \<le> now)) (phases (rw_db w))))"

definition get_player_phase :: "release_world \<Rightarrow> nat \<Rightarrow> (phase_row \<times> phase_info) option" where
  "get_player_phase w phase_id =
     (case find (\<lambda>ph. ph_id ph = phase_id) (phases (rw_db w)) of
        None \<Rightarrow> None | Some ph \<Rightarrow> map_option (Pair ph) (find_info w phase_id))"

definition released_puzzle :: "release_world \<Rightarrow> nat \<Rightarrow> release_event \<Rightarrow> puzzle_row \<Rightarrow> bool" where
  "released_puzzle w team_id ev p \<longleftrightarrow>
     (case find_tp (rw_db w) team_id (p_id p) of
        None \<Rightarrow> False
      | Some tp \<Rightarrow> tp_state tp \<ge> 0 \<and>
          ((re_type ev = event_phase \<and> re_phase ev \<noteq> None \<and> p_release_phase p = re_phase ev)
           \<or> (re_type ev = event_immediate \<and> (re_id ev, p_id p) \<in> set (rw_event_puzzles w)
              \<and> (re_id ev, p_id p, team_id) \<in> set (rw_event_teams w) \<and> p_immediate_release p \<noteq> None)))"

definition released_puzzles :: "release_world \<Rightarrow> nat option \<Rightarrow> release_event \<Rightarrow> nat list" where
  "released_puzzles w team_id ev =
     (case team_id of
        None \<Rightarrow> []
      | Some t \<Rightarrow> map (\<lambda>(p, r). p_id p) (joined_puzzles (\<lambda>p r. released_puzzle w t ev p) (rw_db w)))"

datatype sync_event = PhaseReleased nat time "phase_row \<times> phase_info" "nat list" | PuzzlesReleased nat time "nat list"

definition sync_event_of :: "release_world \<Rightarrow> nat option \<Rightarrow> release_event \<Rightarrow> db_error + sync_event list" where
  "sync_event_of w team_id ev =
     (let ps = released_puzzles w team_id ev in
      if re_type ev = event_phase then
        res_bind (ok_or (OtherError ''Release phase event has no phase'') (re_phase ev)) (\<lambda>ph.
        res_bind (ok_or (OtherError ''Release phase not found'') (get_player_phase w ph)) (\<lambda>phase.
          Inr [PhaseReleased (re_id ev) (re_at ev) phase ps]))
      else if re_type ev = event_immediate then Inr (if ps = [] then [] else [PuzzlesReleased (re_id ev) (re_at ev) ps])
      else Inl (OtherError ''Invalid release event type''))"

definition sync_rows :: "release_world \<Rightarrow> nat \<Rightarrow> nat \<Rightarrow> release_event list" where
  "sync_rows w game_id after = take 100 (sort_key re_id (filter (\<lambda>e. re_game e = game_id \<and> re_id e > after) (rw_events w)))"

definition sync_events ::
  "release_world \<Rightarrow> nat \<Rightarrow> nat option \<Rightarrow> int \<Rightarrow> db_error + nat \<times> sync_event list" where
  "sync_events w game_id team_id after =
     (let rows = sync_rows w game_id (nat (max after 0));
          cursor = (if rows = [] then nat (max after 0) else re_id (last rows))
      in res_bind (collect_res (sync_event_of w team_id) rows) (\<lambda>evs. Inr (cursor, concat evs)))"

end
