(* ===== verification/Board_Laws.thy ===== *)
theory Board_Laws
  imports Board
begin

text \<open>
  Properties of the leaderboard: locking, refreshing (alone and interleaved with changes, marks and
  failures) and paging.
\<close>

section \<open>Locking\<close>

lemma filter_find_unique:
  assumes "distinct (map key xs)" and "x \<in> set xs"
  shows "filter (\<lambda>y. key y = key x \<and> P y) xs = (if P x then [x] else [])"
  using assms
proof (induction xs)
  case (Cons y ys)
  have none: "filter (\<lambda>z. key z = key x \<and> P z) ys = []" if "x = y"
    using Cons.prems(1) that by (auto simp: filter_empty_conv image_iff)
  have "key y \<noteq> key x" if "x \<noteq> y"
    using Cons.prems that by (auto simp: image_iff)
  with Cons none show ?case by auto
qed simp

lemma number_rows_frozen:
  assumes "set ts \<subseteq> set (teams d)" and "distinct (map t_id (teams d))" and "\<forall>t \<in> set ts. \<not> t_banned t"
  shows "concat (map (\<lambda>s. map (\<lambda>t. (s, t))
      (filter (\<lambda>t. t_id t = lt_team s \<and> \<not> t_banned t \<and> board_enabled d (t_id t)) (teams d))) (number_rows d g n ts))
    = filter (\<lambda>(s, t). board_enabled d (t_id t)) (zip (number_rows d g n ts) ts)"
  using assms(1,3)
proof (induction ts arbitrary: n)
  case (Cons t ts)
  have "filter (\<lambda>u. t_id u = t_id t \<and> \<not> t_banned u \<and> board_enabled d (t_id u)) (teams d)
      = (if board_enabled d (t_id t) then [t] else [])"
    using filter_find_unique [OF assms(2), of t "\<lambda>u. \<not> t_banned u \<and> board_enabled d (t_id u)"] Cons.prems by simp
  with Cons show ?case by simp
qed simp

lemma number_rows_ranks: "s \<in> set (number_rows d g n ts) \<Longrightarrow> n \<le> lt_rank s"
  by (induction ts arbitrary: n) fastforce+

lemma number_rows_sorted:
  "sorted (map (\<lambda>(s, t). (lt_rank s, t_id t)) (filter P (zip (number_rows d g n ts) ts)))"
proof (induction ts arbitrary: n)
  case (Cons t ts)
  have "(n, t_id t) \<le> (lt_rank s, t_id u)" if "(s, u) \<in> set (zip (number_rows d g (n + 1) ts) ts)" for s u
    using number_rows_ranks [of s d g "n + 1" ts] set_zip_leftD [OF that] by (simp add: less_eq_prod_def)
  with Cons [of "n + 1"] show ?case by (auto simp: less_eq_prod_def)
qed simp

lemma number_rows_values:
  "map (\<lambda>(s, t). board_team_of nick e g t (lt_finish s) (lt_last s) (lt_solves s))
      (filter (\<lambda>(s, t). Q t) (zip (number_rows d g n ts) ts))
    = map (\<lambda>t. board_team_of nick e g t (t_finish t) (last_solved d (t_id t)) (solve_count d (t_id t))) (filter Q ts)"
  by (induction ts arbitrary: n) simp_all

lemma number_rows_game: "filter (\<lambda>s. lt_game s = g) (number_rows d g n ts) = number_rows d g n ts"
  by (induction ts arbitrary: n) simp_all

lemma locking_keeps_the_board:
  assumes "\<not> exists_row (\<lambda>l. ll_game l = g) (locks d)" and "\<forall>s \<in> set (lock_teams d). lt_game s \<noteq> g"
    and "distinct (map t_id (teams d))"
  shows "fetch_teams nick (lock_leaderboard_conn g ph at d) g = fetch_teams nick d g"
proof -
  let ?d = "lock_leaderboard_conn g ph at d" and ?ts = "ranked_teams d g"
  have d: "?d = d\<lparr>locks := locks d @ [\<lparr>ll_game = g, ll_phase = ph, ll_at = at\<rparr>],
      lock_teams := lock_teams d @ number_rows d g 1 ?ts\<rparr>"
    using assms(1) by (simp add: lock_leaderboard_conn_def)
  have rows: "filter (\<lambda>s. lt_game s = g) (lock_teams ?d) = number_rows d g 1 ?ts"
    using assms(2) by (simp add: d number_rows_game)
  have enabled: "board_enabled ?d = board_enabled d" "teams ?d = teams d" "members ?d = members d"
    by (simp_all add: d board_enabled_def fun_eq_iff)
  have frozen: "frozen_rows ?d g = filter (\<lambda>(s, t). board_enabled d (t_id t)) (zip (number_rows d g 1 ?ts) ?ts)"
    unfolding frozen_rows_def rows enabled
    by (rule number_rows_frozen) (use assms(3) in \<open>auto simp: ranked_teams_def\<close>)
  have "frozen_board nick ?d g
      = map (\<lambda>(s, t). board_team_of nick ?d g t (lt_finish s) (lt_last s) (lt_solves s)) (frozen_rows ?d g)"
    unfolding frozen_board_def frozen by (subst sort_key_id_if_sorted [OF number_rows_sorted]) simp
  also have "\<dots> = map (\<lambda>t. board_team_of nick ?d g t (t_finish t) (last_solved d (t_id t)) (solve_count d (t_id t)))
      (filter (\<lambda>t. board_enabled d (t_id t)) ?ts)"
    unfolding frozen by (rule number_rows_values)
  also have "\<dots> = live_board nick d g"
    by (simp add: live_board_def ranked_teams_def filter_sort board_team_of_def team_nicknames_def enabled(3)
        conj_ac cong: filter_cong)
  finally show ?thesis
    using assms(1) by (simp add: fetch_teams_def d exists_row_iff)
qed

text \<open>A team of the locked board as it is shown later: the results of the lock, its present name and members.\<close>

definition shown_frozen :: "(nat \<Rightarrow> ustr) \<Rightarrow> db \<Rightarrow> db \<Rightarrow> nat \<Rightarrow> team_row \<Rightarrow> board_team option" where
  "shown_frozen nick d d' g t =
     (case find (\<lambda>u. t_id u = t_id t) (teams d') of
        None \<Rightarrow> None
      | Some u \<Rightarrow> if t_banned u \<or> \<not> board_enabled d' (t_id u) then None
          else Some (board_team_of nick d' g u (t_finish t) (last_solved d (t_id t)) (solve_count d (t_id t))))"

lemma filter_by_key:
  assumes "distinct (map key xs)"
  shows "filter (\<lambda>u. key u = k \<and> P u) xs
    = (case find (\<lambda>u. key u = k) xs of None \<Rightarrow> [] | Some u \<Rightarrow> if P u then [u] else [])"
proof (cases "find (\<lambda>u. key u = k) xs")
  case None
  then have "filter (\<lambda>u. key u = k \<and> P u) xs = []" by (auto simp: find_None_iff filter_empty_conv)
  with None show ?thesis by simp
next
  case (Some u)
  then have "u \<in> set xs" "key u = k" by (auto simp: find_Some_iff)
  with filter_find_unique [OF assms, of u P] Some show ?thesis by simp
qed

lemma frozen_later:
  fixes d d' :: db and g :: nat
  assumes "distinct (map t_id (teams d'))"
  defines "rows \<equiv> \<lambda>ss. concat (map (\<lambda>s. map (\<lambda>u. (s, u)) (filter (\<lambda>u. t_id u = lt_team s \<and> \<not> t_banned u
      \<and> board_enabled d' (t_id u)) (teams d'))) ss)"
  shows "map (\<lambda>(s, u). board_team_of nick d' g u (lt_finish s) (lt_last s) (lt_solves s)) (rows (number_rows d g n ts))
      = List.map_filter (shown_frozen nick d d' g) ts"
    and "\<forall>(s, u) \<in> set (rows (number_rows d g n ts)). n \<le> lt_rank s"
    and "sorted (map (\<lambda>(s, u). (lt_rank s, t_id u)) (rows (number_rows d g n ts)))"
proof (induction ts arbitrary: n)
  case (Cons t ts)
  have one: "filter (\<lambda>u. t_id u = t_id t \<and> \<not> t_banned u \<and> board_enabled d' (t_id u)) (teams d')
      = (case find (\<lambda>u. t_id u = t_id t) (teams d') of None \<Rightarrow> []
         | Some u \<Rightarrow> if \<not> t_banned u \<and> board_enabled d' (t_id u) then [u] else [])"
    by (rule filter_by_key [OF assms(1)])
  { case 1 show ?case
      using Cons.IH(1) [of "n + 1"] by (auto simp: rows_def one shown_frozen_def List.map_filter_simps split: option.split) }
  { case 2 show ?case
      using Cons.IH(2) [of "n + 1"] by (auto simp: rows_def one split: option.split) }
  { case 3 show ?case
      using Cons.IH(2,3) [of "n + 1"]
      by (auto simp: rows_def one less_eq_prod_def split: option.split) }
qed (simp_all add: rows_def List.map_filter_simps)

text \<open>
  C18: locking freezes the board. Right after the lock the board shows exactly what the live board
  showed. As long as the lock and its rows stay, whatever is solved, started or finished, renamed,
  joined, left, banned or hidden: the board shows the teams that were ranked when it was locked, in the
  order of the lock and with the solve counts and times of the lock, under their present names,
  biographies and members, without those that are banned, hidden or gone by now.
\<close>

theorem locked_board_is_frozen:
  assumes "\<not> exists_row (\<lambda>l. ll_game l = g) (locks d)" and "\<forall>s \<in> set (lock_teams d). lt_game s \<noteq> g"
    and "distinct (map t_id (teams d))"
    and "locks d' = locks (lock_leaderboard_conn g ph at d)"
    and "lock_teams d' = lock_teams (lock_leaderboard_conn g ph at d)"
    and "distinct (map t_id (teams d'))"
  shows "fetch_teams nick (lock_leaderboard_conn g ph at d) g = live_board nick d g
    \<and> fetch_teams nick d' g = List.map_filter (shown_frozen nick d d' g) (ranked_teams d g)"
proof
  have locked: "exists_row (\<lambda>l. ll_game l = g) (locks d')"
    unfolding assms(4) by (auto simp: lock_leaderboard_conn_def exists_row_iff)
  have rows: "filter (\<lambda>s. lt_game s = g) (lock_teams d') = number_rows d g 1 (ranked_teams d g)"
    using assms(1,2) by (simp add: assms(5) lock_leaderboard_conn_def number_rows_game)
  have "frozen_board nick d' g = List.map_filter (shown_frozen nick d d' g) (ranked_teams d g)"
    unfolding frozen_board_def frozen_rows_def rows
    by (subst sort_key_id_if_sorted [OF frozen_later(3) [OF assms(6)]]) (rule frozen_later(1) [OF assms(6)])
  then show "fetch_teams nick d' g = List.map_filter (shown_frozen nick d d' g) (ranked_teams d g)"
    using locked by (simp add: fetch_teams_def)
  show "fetch_teams nick (lock_leaderboard_conn g ph at d) g = live_board nick d g"
    using locking_keeps_the_board [OF assms(1-3)] assms(1) by (simp add: fetch_teams_def)
qed

text \<open>Game 2 with team 3, which has solved puzzle 6, and team 4, which has solved nothing.\<close>

definition board_db :: db where
  "board_db = empty_db\<lparr>
     teams := [\<lparr>t_id = 4, t_name = [98], t_pass = [], t_bio = [], t_game = 2, t_banned = False,
         t_locked = True, t_beta = False, t_dirty = False, t_start = Some 0, t_finish = None\<rparr>,
       \<lparr>t_id = 3, t_name = [97], t_pass = [], t_bio = [], t_game = 2, t_banned = False,
         t_locked = True, t_beta = False, t_dirty = False, t_start = Some 0, t_finish = None\<rparr>],
     team_puzzles := [\<lparr>tp_team = 3, tp_puzzle = 6, tp_state = 1, tp_max_submit = 0, tp_ctime = 0,
       tp_solve_at = Some 5, tp_cooldown_till = None\<rparr>]\<rparr>"

definition blank_nick :: "nat \<Rightarrow> ustr" where
  "blank_nick user_id = []"

lemma board_db_board:
  "map (\<lambda>x. (bt_id x, bt_solves x)) (live_board nick board_db 2) = [(3, 1), (4, 0)]"
  by (simp add: live_board_def board_db_def empty_db_def board_enabled_def rank_key_def solve_count_def
      solved_rows_def last_solved_def max_time_def nulls_last_def board_team_of_def less_prod_def less_eq_prod_def)

lemma locked_board_is_frozen_witness:
  "map (\<lambda>x. (bt_id x, bt_name x, bt_solves x)) (fetch_teams blank_nick
     ((lock_leaderboard_conn 2 None 7 board_db)\<lparr>team_puzzles := [],
        teams := map (\<lambda>t. t\<lparr>t_name := [99]\<rparr>) (teams board_db)\<rparr>) 2) = [(3, [99], 1), (4, [99], 0)]"
proof -
  let ?d = "(lock_leaderboard_conn 2 None 7 board_db)\<lparr>team_puzzles := [],
        teams := map (\<lambda>t. t\<lparr>t_name := [99]\<rparr>) (teams board_db)\<rparr>"
  have "fetch_teams blank_nick (lock_leaderboard_conn 2 None 7 board_db) 2 = live_board blank_nick board_db 2
      \<and> fetch_teams blank_nick ?d 2 = List.map_filter (shown_frozen blank_nick board_db ?d 2) (ranked_teams board_db 2)"
    by (rule locked_board_is_frozen) (simp_all add: board_db_def empty_db_def exists_row_def)
  moreover have "map (\<lambda>x. (bt_id x, bt_name x, bt_solves x))
      (List.map_filter (shown_frozen blank_nick board_db ?d 2) (ranked_teams board_db 2)) = [(3, [99], 1), (4, [99], 0)]"
    by code_simp
  ultimately show ?thesis by simp
qed

section \<open>One refresh\<close>

definition shows_board :: "(nat \<Rightarrow> ustr) \<Rightarrow> nat \<Rightarrow> db \<Rightarrow> board_snapshot \<Rightarrow> bool" where
  "shows_board nick g d s \<longleftrightarrow> s = build_snapshot nick g (sn_version s) d"

lemma build_snapshot_shows [simp]: "shows_board nick g d (build_snapshot nick g v d)"
  by (simp add: shows_board_def build_snapshot_def Let_def)

lemma build_snapshot_version: "sn_version (build_snapshot nick g v d) = v"
  by (simp add: build_snapshot_def Let_def)

definition full_games :: "board_world \<Rightarrow> nat set" where
  "full_games w = rs_game ` set (filter rs_full (bw_refresh w))"

lemma dirty_games_set: "set (dirty_games w) = dt_game ` set (bw_dirty w) \<union> full_games w"
  by (auto simp: dirty_games_def full_games_def)

lemma full_games_iff: "x \<in> full_games w \<longleftrightarrow> (\<exists>r \<in> set (bw_refresh w). rs_game r = x \<and> rs_full r)"
  by (auto simp: full_games_def)

lemma full_games_cleared:
  assumes "bw_refresh w' = update_rows (\<lambda>r. rs_game r = g) (\<lambda>r. h r\<lparr>rs_full := False\<rparr>) (bw_refresh w)"
    and "\<And>r. rs_game (h r) = rs_game r"
  shows "full_games w' = full_games w - {g}"
proof (rule set_eqI)
  fix x
  have "rs_game (if rs_game r = g then h r\<lparr>rs_full := False\<rparr> else r) = x
      \<and> rs_full (if rs_game r = g then h r\<lparr>rs_full := False\<rparr> else r)
    \<longleftrightarrow> (rs_game r = x \<and> rs_full r) \<and> x \<noteq> g" for r
    using assms(2) by auto
  then show "x \<in> full_games w' \<longleftrightarrow> x \<in> full_games w - {g}"
    unfolding full_games_iff Diff_iff assms(1) update_rows_def
    by (simp only: set_map bex_simps singleton_iff)
qed

lemma max_revision_bound:
  assumes "max_revision g w = Some m" and "r \<in> set (bw_dirty w)" and "dt_game r = g"
  shows "dt_revision r \<le> m"
proof -
  have ge: "n \<le> fold max ns n \<and> (\<forall>k \<in> set ns. k \<le> fold max ns n)" for n :: nat and ns
  proof (induction ns arbitrary: n)
    case (Cons k ns)
    show ?case using Cons [of "max k n"] by auto
  qed simp
  have "r \<in> set (filter (\<lambda>r. dt_game r = g) (bw_dirty w))" using assms(2,3) by simp
  with assms(1) ge show ?thesis
    by (cases "filter (\<lambda>r. dt_game r = g) (bw_dirty w)") (auto simp: max_revision_def)
qed

lemma max_revision_None: "max_revision g w = None \<longleftrightarrow> (\<forall>r \<in> set (bw_dirty w). dt_game r \<noteq> g)"
proof -
  have "max_revision g w = None \<longleftrightarrow> filter (\<lambda>r. dt_game r = g) (bw_dirty w) = []"
    by (simp add: max_revision_def split: list.split)
  then show ?thesis by (simp add: filter_empty_conv)
qed

lemma next_version_frame [simp]:
  "bw_db (snd (next_version g w)) = bw_db w" "bw_dirty (snd (next_version g w)) = bw_dirty w"
  "bw_kv_up (snd (next_version g w)) = bw_kv_up w" "bw_latest (snd (next_version g w)) = bw_latest w"
  "bw_revision (snd (next_version g w)) = bw_revision w" "bw_kept (snd (next_version g w)) = bw_kept w"
  by (simp_all add: next_version_def split: option.split)

lemma next_version_full:
  "full_games (snd (next_version g w)) =
    (if \<exists>r \<in> set (bw_refresh w). rs_game r = g then full_games w - {g} else insert g (full_games w))"
proof (cases "find (\<lambda>r. rs_game r = g) (bw_refresh w)")
  case None
  then have "bw_refresh (snd (next_version g w))
      = bw_refresh w @ [\<lparr>rs_game = g, rs_version = 1, rs_full = True\<rparr>]"
    by (simp add: next_version_def)
  with None show ?thesis by (auto simp: full_games_def find_None_iff)
next
  case (Some r)
  have "full_games (snd (next_version g w)) = full_games w - {g}"
    by (rule full_games_cleared [where h = "\<lambda>r. r\<lparr>rs_version := rs_version r + 1\<rparr>"])
      (simp_all add: next_version_def Some)
  moreover have "\<exists>r \<in> set (bw_refresh w). rs_game r = g"
    using Some by (auto simp: find_Some_iff)
  ultimately show ?thesis by simp
qed

lemma clear_full_games: "full_games (clear_full g w) = full_games w - {g}"
  by (rule full_games_cleared [where h = id]) (simp_all add: clear_full_def)

text \<open>A refresh that is not disturbed publishes the present board and clears the marks of its game.\<close>

lemma refresh_effect:
  assumes "bw_kv_up w" and "refresh_game nick now True g w = (e, w')"
  obtains s where "e = None" "shows_board nick g (bw_db w) s" "bw_latest w' = (bw_latest w)(g \<mapsto> s)"
    "set (dirty_games w') = set (dirty_games w) - {g}" "bw_db w' = bw_db w" "bw_kv_up w'"
proof -
  obtain v w1 where v: "next_version g w = (v, w1)" by (cases "next_version g w")
  then have w1: "w1 = snd (next_version g w)" by simp
  then have db: "bw_db w1 = bw_db w" by simp
  let ?s = "build_snapshot nick g v (bw_db w)"
  let ?m = "max_revision g w"
  obtain w2 where w2: "publish_snapshot now g ?s w1 = Inr w2" "bw_latest w2 = (bw_latest w)(g \<mapsto> ?s)"
    "bw_dirty w2 = bw_dirty w" "bw_db w2 = bw_db w" "bw_kv_up w2" "bw_refresh w2 = bw_refresh w1"
    using assms(1) by (simp add: publish_snapshot_def w1)
  have e: "e = None" and w': "w' = clear_full g (sweep_marks g ?m w2)"
    using assms(2) v w2(1) by (simp_all add: refresh_game_eq db)
  have keep: "bw_db w' = bw_db w" "bw_kv_up w'" "bw_latest w' = (bw_latest w)(g \<mapsto> ?s)"
    using w2 by (simp_all add: w' clear_full_def sweep_marks_def split: option.split)
  have "dt_game ` set (bw_dirty w') = dt_game ` set (bw_dirty w) - {g}"
  proof (cases ?m)
    case None
    then have "bw_dirty w' = bw_dirty w" using w2(3) by (simp add: w' clear_full_def sweep_marks_def)
    with None show ?thesis unfolding max_revision_None by auto
  next
    case (Some m)
    then show ?thesis using w2(3) max_revision_bound [OF Some]
      by (auto simp: w' clear_full_def sweep_marks_def delete_rows_def image_iff)
  qed
  moreover have "full_games w' = full_games w - {g}"
  proof -
    have "full_games (sweep_marks g ?m w2) = full_games w1"
      using w2(6) by (simp add: full_games_def sweep_marks_def split: option.split)
    then show ?thesis by (auto simp: w' clear_full_games w1 next_version_full)
  qed
  ultimately have "set (dirty_games w') = set (dirty_games w) - {g}"
    by (auto simp: dirty_games_set)
  with that [of ?s] e keep show thesis by simp
qed

lemma refresh_pass:
  assumes "bw_kv_up w" and "distinct gs"
    and "w' = fold (\<lambda>g w. snd (refresh_game nick now True g w)) gs w"
  shows "set (dirty_games w') = set (dirty_games w) - set gs \<and> bw_db w' = bw_db w
    \<and> (\<forall>g. g \<notin> set gs \<longrightarrow> bw_latest w' g = bw_latest w g)
    \<and> (\<forall>g \<in> set gs. \<exists>s. bw_latest w' g = Some s \<and> shows_board nick g (bw_db w) s)"
  using assms
proof (induction gs arbitrary: w)
  case (Cons g gs)
  obtain e w1 where r: "refresh_game nick now True g w = (e, w1)" by (cases "refresh_game nick now True g w")
  obtain s where s: "shows_board nick g (bw_db w) s" "bw_latest w1 = (bw_latest w)(g \<mapsto> s)"
    "set (dirty_games w1) = set (dirty_games w) - {g}" "bw_db w1 = bw_db w" "bw_kv_up w1"
    using refresh_effect [OF Cons.prems(1) r] by metis
  have IH: "set (dirty_games w') = set (dirty_games w1) - set gs \<and> bw_db w' = bw_db w1
    \<and> (\<forall>g. g \<notin> set gs \<longrightarrow> bw_latest w' g = bw_latest w1 g)
    \<and> (\<forall>g \<in> set gs. \<exists>s. bw_latest w' g = Some s \<and> shows_board nick g (bw_db w1) s)"
    by (rule Cons.IH [OF s(5)]) (use Cons.prems r in simp_all)
  with s Cons.prems(2) show ?case by auto
qed simp

text \<open>
  C16: the boards converge. Whatever marks there are, one undisturbed pass of the scheduler with the
  key-value store up leaves no game dirty, changes nothing in the database, publishes for every game
  that was dirty the board its teams have at that moment, and leaves the other games' boards alone.
\<close>

theorem dirty_boards_converge:
  assumes "bw_kv_up w"
  shows "dirty_games (process_dirty_leaderboards nick now (\<lambda>_. True) w) = []
    \<and> bw_db (process_dirty_leaderboards nick now (\<lambda>_. True) w) = bw_db w
    \<and> (\<forall>g. if g \<in> set (dirty_games w)
          then \<exists>s. bw_latest (process_dirty_leaderboards nick now (\<lambda>_. True) w) g = Some s
            \<and> shows_board nick g (bw_db w) s
          else bw_latest (process_dirty_leaderboards nick now (\<lambda>_. True) w) g = bw_latest w g)"
proof -
  have "distinct (dirty_games w)" by (simp add: dirty_games_def)
  from refresh_pass [OF assms this] show ?thesis by (auto simp: process_dirty_leaderboards_def)
qed

definition board_sample :: board_world where
  "board_sample = \<lparr>bw_db = board_db, bw_refresh = [\<lparr>rs_game = 2, rs_version = 4, rs_full = True\<rparr>], bw_dirty = [],
     bw_revision = 7, bw_kv_up = True, bw_latest = (\<lambda>_. None), bw_kept = (\<lambda>_. None), bw_cache = (\<lambda>_. None)\<rparr>"

lemma board_sample_dirty: "dirty_games board_sample = [2]"
  by (simp add: dirty_games_def board_sample_def)

lemma dirty_boards_converge_witness:
  "\<exists>s. bw_latest (process_dirty_leaderboards blank_nick 9 (\<lambda>_. True) board_sample) 2 = Some s \<and> sn_order s = [3, 4]"
proof -
  have up: "bw_kv_up board_sample" and db: "bw_db board_sample = board_db" by (simp_all add: board_sample_def)
  obtain s where s: "bw_latest (process_dirty_leaderboards blank_nick 9 (\<lambda>_. True) board_sample) 2 = Some s"
    "shows_board blank_nick 2 board_db s"
    using dirty_boards_converge [OF up, of blank_nick 9] unfolding db board_sample_dirty by (metis list.set_intros(1))
  have "map bt_id (fetch_teams blank_nick board_db 2) = map fst (map (\<lambda>x. (bt_id x, bt_solves x)) (live_board blank_nick board_db 2))"
    by (simp add: fetch_teams_def board_db_def empty_db_def exists_row_def)
  then have "sn_order (build_snapshot blank_nick 2 v board_db) = [3, 4]" for v
    unfolding board_db_board by (simp add: build_snapshot_def Let_def)
  with s show ?thesis unfolding shows_board_def by metis
qed

text \<open>
  C19: a request to rebuild can get lost. The mark of a game is cleared by \<open>next_version\<close>, in a
  statement of its own, before the board is published: when the key-value store is down the refresh
  fails, the game is not dirty any more, and its old board stays although the database may show
  another. And a game marked while its refresh runs, after the board was computed, is cleared by that
  refresh as well: afterwards the published board is the one from before the change.
\<close>

theorem rebuild_requests_get_lost:
  assumes "\<exists>r \<in> set (bw_refresh w). rs_game r = g" and "\<forall>r \<in> set (bw_dirty w). dt_game r \<noteq> g"
  shows "(\<not> bw_kv_up w \<longrightarrow> (\<exists>w'. refresh_game nick now True g w = (Some KvDown, w')
        \<and> g \<notin> set (dirty_games w') \<and> bw_latest w' = bw_latest w \<and> bw_db w' = bw_db w))
    \<and> (\<forall>version w1 s w2. next_version g w = (version, w1) \<and> s = build_snapshot nick g version (bw_db w1)
        \<and> publish_snapshot now g s (mark_game_dirty g (w1\<lparr>bw_db := d\<rparr>)) = Inr w2
        \<longrightarrow> g \<notin> set (dirty_games (clear_full g (sweep_marks g (max_revision g w) w2)))
          \<and> bw_latest (clear_full g (sweep_marks g (max_revision g w) w2)) g = Some s)"
proof -
  have none: "max_revision g w = None" unfolding max_revision_None using assms(2) by blast
  have "\<exists>w'. refresh_game nick now True g w = (Some KvDown, w') \<and> g \<notin> set (dirty_games w')
      \<and> bw_latest w' = bw_latest w \<and> bw_db w' = bw_db w" if "\<not> bw_kv_up w"
  proof -
    let ?w = "snd (next_version g w)"
    have "refresh_game nick now True g w = (Some KvDown, ?w)"
      using that by (simp add: refresh_game_eq Let_def case_prod_beta publish_snapshot_def)
    moreover have "g \<notin> set (dirty_games ?w)"
      using assms by (auto simp: dirty_games_set next_version_full)
    ultimately show ?thesis by simp
  qed
  moreover have "g \<notin> set (dirty_games (clear_full g w2)) \<and> bw_latest (clear_full g w2) g = Some s"
    if v: "next_version g w = (v, w1)"
      and p: "publish_snapshot now g s (mark_game_dirty g (w1\<lparr>bw_db := d\<rparr>)) = Inr w2" for v w1 s w2
  proof -
    have "bw_dirty w1 = bw_dirty w" using next_version_frame(2) [of g w] v by simp
    then have "bw_dirty w2 = bw_dirty w" "bw_latest w2 g = Some s"
      using p by (auto simp: publish_snapshot_def mark_game_dirty_def split: if_splits)
    with assms(2) show ?thesis by (auto simp: dirty_games_set clear_full_games) (auto simp: clear_full_def)
  qed
  ultimately show ?thesis by (auto simp: none sweep_marks_def)
qed

lemma rebuild_requests_get_lost_witness:
  "\<exists>w'. refresh_game blank_nick 9 True 2 (board_sample\<lparr>bw_kv_up := False\<rparr>) = (Some KvDown, w')
    \<and> dirty_games w' = [] \<and> bw_latest w' 2 = None"
proof -
  let ?w = "board_sample\<lparr>bw_kv_up := False\<rparr>"
  have w: "\<exists>r \<in> set (bw_refresh ?w). rs_game r = 2" "\<forall>r \<in> set (bw_dirty ?w). dt_game r \<noteq> 2" "\<not> bw_kv_up ?w"
    by (simp_all add: board_sample_def)
  obtain w' where w': "refresh_game blank_nick 9 True 2 ?w = (Some KvDown, w')" "bw_latest w' = bw_latest ?w"
    using rebuild_requests_get_lost [OF w(1,2), of blank_nick 9] w(3) by blast
  moreover have "dirty_games w' = []"
    using w'(1) by (auto simp: refresh_game_eq board_sample_def next_version_def publish_snapshot_def
        dirty_games_def update_rows_def)
  ultimately show ?thesis by (auto simp: board_sample_def)
qed

section \<open>Refreshing among changes, marks and failures\<close>

text \<open>
  A machine for one game: where the refresher is, the teams whose change is committed but not yet
  marked, and the world. The refresher takes the steps of \<^verbatim>\<open>refresh_game\<close> one by one, may stop
  anywhere, by an error or with its process, and its queries may read a board that changes between
  them: what it has built then is arbitrary. A change of what the board reads goes with a team of the
  game to be marked; it may create teams, but it does not delete any. Changes that are announced by a
  mark of the game instead (a deleted team, a feature, a release) are left out: those marks can be lost,
  as shown above. Anybody may mark anything and read the board (rebuilding it in one step when the lock
  is free), and the key-value store may go up and down.
\<close>

type_synonym board_state = "refresher \<times> nat list \<times> board_world"

definition team_games :: "db \<Rightarrow> (nat \<times> nat) list" where
  "team_games d = map (\<lambda>t. (t_id t, t_game t)) (teams d)"

text \<open>What the queries of a build read; the flag of a build that goes on is set by a change.\<close>

definition board_reads :: "(nat \<Rightarrow> ustr) \<Rightarrow> nat \<Rightarrow> db \<Rightarrow> lock_row option \<times> board_team list \<times> board_team list" where
  "board_reads nick g d = (find (\<lambda>l. ll_game l = g) (locks d), frozen_board nick d g, live_board nick d g)"

fun tear :: "nat list \<Rightarrow> refresher \<Rightarrow> refresher" where
  "tear new (Building m v torn) = Building m v (torn \<or> new \<noteq> [])"
| "tear new pc = pc"

inductive board_step :: "(nat \<Rightarrow> ustr) \<Rightarrow> nat \<Rightarrow> board_state \<Rightarrow> board_state \<Rightarrow> bool" for nick g where
  refresher: "refresh_step nick now g pc w = (e, pc', w') \<Longrightarrow> \<forall>m v. pc \<noteq> Building m v True \<Longrightarrow>
    board_step nick g (pc, ts, w) (pc', ts, w')"
| build_torn: "board_step nick g (Building m v True, ts, w) (Built m s, ts, w)"
| stop_it: "board_step nick g (pc, ts, w) (Resting, ts, w)"
| change: "team_games d = team_games (bw_db w) @ created \<Longrightarrow> distinct (map fst (team_games d)) \<Longrightarrow>
    \<forall>t \<in> set new. (t, g) \<in> set (team_games d) \<Longrightarrow>
    new \<noteq> [] \<or> board_reads nick g d = board_reads nick g (bw_db w) \<Longrightarrow>
    board_step nick g (pc, ts, w) (tear new pc, new @ ts, w\<lparr>bw_db := d\<rparr>)"
| mark: "board_step nick g (pc, ts, w) (pc, remove1 t ts, mark_team_dirty t affects w)"
| mark_game: "board_step nick g (pc, ts, w) (pc, ts, mark_game_dirty h w)"
| connection: "board_step nick g (pc, ts, w) (pc, ts, w\<lparr>bw_kv_up := b\<rparr>)"
| read_it: "get_info nick now lock g ver offset limit w = (i, w') \<Longrightarrow> lock \<noteq> Taken \<or> pc = Resting \<Longrightarrow>
    board_step nick g (pc, ts, w) (pc, ts, w')"

definition above :: "nat option \<Rightarrow> nat \<Rightarrow> bool" where
  "above lim n = (case lim of None \<Rightarrow> True | Some m \<Rightarrow> m < n)"

definition covered :: "(nat \<Rightarrow> ustr) \<Rightarrow> nat \<Rightarrow> board_snapshot option \<Rightarrow> nat option \<Rightarrow> nat list \<Rightarrow> board_world \<Rightarrow> bool" where
  "covered nick g so lim ts w \<longleftrightarrow> ts \<noteq> [] \<or> (\<exists>r \<in> set (bw_dirty w). dt_game r = g \<and> above lim (dt_revision r))
     \<or> (\<exists>s. so = Some s \<and> shows_board nick g (bw_db w) s)"

definition orderly :: "nat \<Rightarrow> nat list \<Rightarrow> board_world \<Rightarrow> bool" where
  "orderly g ts w \<longleftrightarrow> distinct (map fst (team_games (bw_db w))) \<and> (\<forall>t \<in> set ts. (t, g) \<in> set (team_games (bw_db w)))
     \<and> (\<forall>r \<in> set (bw_dirty w). dt_revision r \<le> bw_revision w)"

definition within :: "nat option \<Rightarrow> board_world \<Rightarrow> bool" where
  "within lim w = (case lim of None \<Rightarrow> True | Some m \<Rightarrow> m \<le> bw_revision w)"

fun refresher_ok :: "(nat \<Rightarrow> ustr) \<Rightarrow> nat \<Rightarrow> board_state \<Rightarrow> bool" where
  "refresher_ok nick g (Begun m, ts, w) = within m w"
| "refresher_ok nick g (Numbered m v, ts, w) = within m w"
| "refresher_ok nick g (Building m v torn, ts, w) = (within m w \<and> (torn \<longrightarrow> covered nick g None m ts w))"
| "refresher_ok nick g (Built m s, ts, w) = (within m w \<and> covered nick g (Some s) m ts w)"
| "refresher_ok nick g (Published m, ts, w) = (within m w \<and> covered nick g (bw_latest w g) m ts w)"
| "refresher_ok nick g (pc, ts, w) = True"

definition board_ok :: "(nat \<Rightarrow> ustr) \<Rightarrow> nat \<Rightarrow> board_state \<Rightarrow> bool" where
  "board_ok nick g st \<longleftrightarrow> (case st of (pc, ts, w) \<Rightarrow>
     orderly g ts w \<and> covered nick g (bw_latest w g) None ts w \<and> refresher_ok nick g (pc, ts, w))"

lemma covered_same:
  assumes "covered nick g so lim ts w" and "bw_db w' = bw_db w" and "bw_dirty w' = bw_dirty w"
  shows "covered nick g so lim ts w'"
  using assms by (simp add: covered_def)

lemma covered_weaken: "covered nick g so lim ts w \<Longrightarrow> covered nick g so None ts w"
  by (auto simp: covered_def above_def)

lemma covered_none: "covered nick g None m ts w \<Longrightarrow> covered nick g so m ts w"
  by (auto simp: covered_def)

lemma reads_snapshot:
  assumes "board_reads nick g d = board_reads nick g d'"
  shows "build_snapshot nick g v d = build_snapshot nick g v d'"
proof -
  have "exists_row (\<lambda>l. ll_game l = g) (locks d) \<longleftrightarrow> find (\<lambda>l. ll_game l = g) (locks d) \<noteq> None" for d :: db
    by (auto simp: exists_row_iff find_None_iff)
  then show ?thesis using assms by (simp add: build_snapshot_def fetch_teams_def board_reads_def)
qed

lemma covered_change:
  assumes "covered nick g so lim ts w"
    and "new \<noteq> [] \<or> board_reads nick g d = board_reads nick g (bw_db w)"
  shows "covered nick g so lim (new @ ts) (w\<lparr>bw_db := d\<rparr>)"
proof -
  have "new = [] \<Longrightarrow> shows_board nick g d s = shows_board nick g (bw_db w) s" for s
    using assms(2) reads_snapshot unfolding shows_board_def by metis
  then show ?thesis using assms(1) by (cases "new = []") (auto simp: covered_def)
qed

lemma find_team_game:
  assumes "distinct (map fst (team_games d))" and "(t, g) \<in> set (team_games d)"
  obtains row where "find (\<lambda>r. t_id r = t) (teams d) = Some row" "t_game row = g"
proof -
  obtain row where row: "row \<in> set (teams d)" "t_id row = t" "t_game row = g"
    using assms(2) by (auto simp: team_games_def)
  then obtain row' where f: "find (\<lambda>r. t_id r = t) (teams d) = Some row'"
    by (cases "find (\<lambda>r. t_id r = t) (teams d)") (auto simp: find_None_iff)
  then have "row' \<in> set (teams d)" "t_id row' = t" by (auto simp: find_Some_iff)
  moreover have "inj_on t_id (set (teams d))"
    using assms(1) by (simp add: team_games_def comp_def distinct_map)
  ultimately have "row' = row" using row by (auto dest: inj_onD)
  with f row that show thesis by blast
qed

lemma mark_team_frame [simp]:
  "bw_db (mark_team_dirty t a w) = bw_db w" "bw_latest (mark_team_dirty t a w) = bw_latest w"
  by (simp_all add: mark_team_dirty_def Let_def split: option.split)

text \<open>A mark only raises revisions; the mark of a team of the game lies above every earlier revision.\<close>

lemma mark_team_rows:
  assumes "\<forall>r \<in> set (bw_dirty w). dt_revision r \<le> bw_revision w"
  shows "bw_revision w \<le> bw_revision (mark_team_dirty t a w)"
    and "\<forall>r \<in> set (bw_dirty (mark_team_dirty t a w)). dt_revision r \<le> bw_revision (mark_team_dirty t a w)"
    and "\<forall>r \<in> set (bw_dirty w). \<exists>r' \<in> set (bw_dirty (mark_team_dirty t a w)). dt_game r' = dt_game r
      \<and> dt_revision r \<le> dt_revision r'"
    and "find (\<lambda>r. t_id r = t) (teams (bw_db w)) = Some row \<Longrightarrow>
      \<exists>r \<in> set (bw_dirty (mark_team_dirty t a w)). dt_game r = t_game row \<and> bw_revision w < dt_revision r"
proof -
  show "bw_revision w \<le> bw_revision (mark_team_dirty t a w)"
    by (simp add: mark_team_dirty_def Let_def split: option.split)
  show "\<forall>r \<in> set (bw_dirty (mark_team_dirty t a w)). dt_revision r \<le> bw_revision (mark_team_dirty t a w)"
    using assms by (auto simp: mark_team_dirty_def Let_def set_update_rows intro: le_SucI split: option.splits if_splits)
  show "\<forall>r \<in> set (bw_dirty w). \<exists>r' \<in> set (bw_dirty (mark_team_dirty t a w)). dt_game r' = dt_game r
      \<and> dt_revision r \<le> dt_revision r'"
  proof
    fix r assume r: "r \<in> set (bw_dirty w)"
    then have le: "dt_revision r \<le> bw_revision w" using assms by blast
    show "\<exists>r' \<in> set (bw_dirty (mark_team_dirty t a w)). dt_game r' = dt_game r \<and> dt_revision r \<le> dt_revision r'"
    proof (cases "find (\<lambda>r. t_id r = t) (teams (bw_db w))")
      case None
      with r show ?thesis by (auto simp: mark_team_dirty_def)
    next
      case (Some row)
      let ?mine = "\<lambda>r. dirty_key r = (t_game row, t)"
      let ?new = "\<lambda>r. r\<lparr>dt_revision := bw_revision w + 1, dt_order := (dt_order r \<or> a)\<rparr>"
      have "(if ?mine r then ?new r else r) \<in> set (update_rows ?mine ?new (bw_dirty w))"
        using r by (simp add: update_rows_def)
      then have "(if exists_row ?mine (bw_dirty w) \<and> ?mine r then ?new r else r) \<in> set (bw_dirty (mark_team_dirty t a w))"
        using r Some by (auto simp: mark_team_dirty_def Let_def exists_row_iff)
      then show ?thesis by (rule bexI [rotated]) (use le in simp)
    qed
  qed
  show "\<exists>r \<in> set (bw_dirty (mark_team_dirty t a w)). dt_game r = t_game row \<and> bw_revision w < dt_revision r"
    if "find (\<lambda>r. t_id r = t) (teams (bw_db w)) = Some row"
  proof (cases "\<exists>r \<in> set (bw_dirty w). dirty_key r = (t_game row, t)")
    case True
    then obtain r where r: "r \<in> set (bw_dirty w)" "dirty_key r = (t_game row, t)" by blast
    let ?mine = "\<lambda>r. dirty_key r = (t_game row, t)"
    let ?new = "\<lambda>r. r\<lparr>dt_revision := bw_revision w + 1, dt_order := (dt_order r \<or> a)\<rparr>"
    have "(if ?mine r then ?new r else r) \<in> set (update_rows ?mine ?new (bw_dirty w))"
      using r by (simp add: update_rows_def)
    then have "?new r \<in> set (bw_dirty (mark_team_dirty t a w))"
      using r that by (auto simp: mark_team_dirty_def Let_def exists_row_iff)
    then show ?thesis by (rule bexI [rotated]) (use r(2) in \<open>simp add: dirty_key_def\<close>)
  next
    case False
    with that show ?thesis by (auto simp: mark_team_dirty_def Let_def exists_row_iff)
  qed
qed

lemma covered_mark:
  assumes "covered nick g so lim ts w" and "orderly g ts w" and "within lim w"
  shows "covered nick g so lim (remove1 t ts) (mark_team_dirty t a w)"
proof -
  have rev: "\<forall>r \<in> set (bw_dirty w). dt_revision r \<le> bw_revision w" using assms(2) by (simp add: orderly_def)
  consider "t \<in> set ts" | "t \<notin> set ts" "ts \<noteq> []"
    | r where "r \<in> set (bw_dirty w)" "dt_game r = g" "above lim (dt_revision r)"
    | s where "so = Some s" "shows_board nick g (bw_db w) s"
    using assms(1) by (auto simp: covered_def)
  then show ?thesis
  proof cases
    case 1
    then obtain row where "find (\<lambda>r. t_id r = t) (teams (bw_db w)) = Some row" "t_game row = g"
      using assms(2) find_team_game [of "bw_db w" t g] by (auto simp: orderly_def)
    from mark_team_rows(4) [OF rev this(1)] this(2) assms(3) show ?thesis
      by (fastforce simp: covered_def above_def within_def split: option.split)
  next
    case 2
    then show ?thesis by (simp add: covered_def remove1_idem)
  next
    case 3
    with mark_team_rows(3) [OF rev, of t a] show ?thesis
      by (fastforce simp: covered_def above_def split: option.splits)
  qed (simp add: covered_def)
qed

lemma within_frame:
  "bw_revision w \<le> bw_revision w' \<Longrightarrow> within lim w \<Longrightarrow> within lim w'"
  by (auto simp: within_def split: option.splits)

lemma max_revision_within: "\<forall>r \<in> set (bw_dirty w). dt_revision r \<le> bw_revision w \<Longrightarrow> within (max_revision g w) w"
proof (cases "filter (\<lambda>r. dt_game r = g) (bw_dirty w)")
  case (Cons r rs)
  assume le: "\<forall>r \<in> set (bw_dirty w). dt_revision r \<le> bw_revision w"
  have "\<forall>k \<in> set (r # rs). dt_revision k \<le> bw_revision w" using le by (simp flip: Cons)
  moreover have "fold max ns n \<le> b" if "n \<le> b" "\<forall>k \<in> set ns. k \<le> b" for n b :: nat and ns
    using that by (induction ns arbitrary: n) simp_all
  ultimately show ?thesis using Cons by (simp add: max_revision_def within_def)
qed (simp add: max_revision_def within_def)

text \<open>A build covers everything: its snapshot shows the present board.\<close>

lemma sweep_covered:
  assumes "covered nick g so m ts w"
  shows "covered nick g so None ts (sweep_marks g m w)"
proof (cases m)
  case None
  with assms show ?thesis by (simp add: sweep_marks_def)
next
  case (Some k)
  with assms show ?thesis
    by (fastforce simp: covered_def above_def sweep_marks_def delete_rows_def)
qed

text \<open>Reading the board changes neither database nor marks; it publishes only a fresh board.\<close>

lemma rebuild_world:
  assumes "rebuild_and_publish nick now lock g w = (r, w')"
  shows "bw_db w' = bw_db w \<and> bw_dirty w' = bw_dirty w \<and> bw_revision w' = bw_revision w
    \<and> (bw_latest w' = bw_latest w
      \<or> (lock = Taken \<and> (\<exists>s. bw_latest w' = (bw_latest w)(g \<mapsto> s) \<and> shows_board nick g (bw_db w) s)))"
proof (cases lock)
  case Taken
  obtain v w1 where v: "next_version g w = (v, w1)" by (cases "next_version g w")
  then have w1: "bw_db w1 = bw_db w" "bw_dirty w1 = bw_dirty w" "bw_revision w1 = bw_revision w"
    "bw_latest w1 = bw_latest w" using next_version_frame [of g w] by simp_all
  from assms v w1 Taken show ?thesis
    by (auto simp: rebuild_and_publish_def Let_def publish_snapshot_def split: if_splits)
next
  case (Busy polls)
  with assms show ?thesis by (auto simp: rebuild_and_publish_def split: option.splits)
qed

lemma try_load_world:
  assumes "try_load now g v w = (r, w')"
  shows "bw_db w' = bw_db w \<and> bw_dirty w' = bw_dirty w \<and> bw_revision w' = bw_revision w \<and> bw_latest w' = bw_latest w"
  using assms by (auto simp: try_load_def load_snapshot_def split: if_splits option.splits)

lemma get_info_world:
  assumes "get_info nick now lock g ver offset limit w = (i, w')"
  shows "bw_db w' = bw_db w \<and> bw_dirty w' = bw_dirty w \<and> bw_revision w' = bw_revision w
    \<and> (bw_latest w' = bw_latest w
      \<or> (lock = Taken \<and> (\<exists>s. bw_latest w' = (bw_latest w)(g \<mapsto> s) \<and> shows_board nick g (bw_db w) s)))"
proof -
  obtain a w1 where 1: "(if offset > 0 \<and> ver \<noteq> None then try_load now g ver w else (None, w)) = (a, w1)" by fastforce
  obtain b w2 where 2: "(if a = None then try_load now g None w1 else (a, w1)) = (b, w2)" by fastforce
  obtain c w3 where 3: "(if b = None then rebuild_and_publish nick now lock g w2 else (b, w2)) = (c, w3)" by fastforce
  have "w' = w3"
    using assms 1 2 3 by (auto simp: get_info_def Let_def split: option.splits if_splits)
  moreover have s1: "bw_db w1 = bw_db w \<and> bw_dirty w1 = bw_dirty w \<and> bw_revision w1 = bw_revision w \<and> bw_latest w1 = bw_latest w"
    using 1 try_load_world by (auto split: if_splits)
  moreover have s2: "bw_db w2 = bw_db w1 \<and> bw_dirty w2 = bw_dirty w1 \<and> bw_revision w2 = bw_revision w1 \<and> bw_latest w2 = bw_latest w1"
    using 2 try_load_world by (auto split: if_splits)
  moreover have "bw_db w3 = bw_db w2 \<and> bw_dirty w3 = bw_dirty w2 \<and> bw_revision w3 = bw_revision w2
    \<and> (bw_latest w3 = bw_latest w2
      \<or> (lock = Taken \<and> (\<exists>s. bw_latest w3 = (bw_latest w2)(g \<mapsto> s) \<and> shows_board nick g (bw_db w2) s)))"
    using 3 rebuild_world [of nick now lock g w2 c w3] by (simp split: if_splits)
  ultimately show ?thesis by simp
qed

lemma refresher_ok_env:
  assumes "refresher_ok nick g (pc, ts, w)" and "bw_revision w \<le> bw_revision w'" and "bw_latest w' g = bw_latest w g"
    and "\<And>so m. within m w \<Longrightarrow> covered nick g so m ts w \<Longrightarrow> covered nick g so m ts' w'"
  shows "refresher_ok nick g (pc, ts', w')"
  using assms by (cases pc) (auto intro: within_frame)

lemma refresh_step_ok:
  assumes step: "refresh_step nick now g pc w = (e, pc', w')" and whole: "\<forall>m v. pc \<noteq> Building m v True"
    and ok: "board_ok nick g (pc, ts, w)"
  shows "board_ok nick g (pc', ts, w')"
proof (cases pc)
  case Resting
  with assms show ?thesis by (auto simp: board_ok_def orderly_def intro: max_revision_within)
next
  case (Begun m)
  obtain v w1 where v: "next_version g w = (v, w1)" by (cases "next_version g w")
  then have eq: "pc' = Numbered m v" "w' = w1" using step Begun by simp_all
  have w': "w' = snd (next_version g w)" using v eq by simp
  have "covered nick g so l ts w' = covered nick g so l ts w" "orderly g ts w' = orderly g ts w" "within m w' = within m w"
    for so l by (simp_all add: w' covered_def orderly_def within_def split: option.split)
  moreover have "bw_latest w' = bw_latest w" by (simp add: w')
  ultimately show ?thesis using Begun eq(1) ok by (simp add: board_ok_def)
next
  case (Numbered m v)
  then show ?thesis using step ok by (auto simp: board_ok_def)
next
  case (Building m v torn)
  then show ?thesis using step ok by (auto simp: board_ok_def covered_def)
next
  case (Built m s)
  show ?thesis
  proof (cases "publish_snapshot now g s w")
    case (Inl e')
    then show ?thesis using step ok Built by (auto simp: board_ok_def)
  next
    case (Inr w1)
    then have eq: "pc' = Published m" "w' = w1" using step Built by simp_all
    then have w': "bw_db w' = bw_db w" "bw_dirty w' = bw_dirty w" "bw_revision w' = bw_revision w" "bw_latest w' g = Some s"
      using Inr by (auto simp: publish_snapshot_def split: if_splits)
    then have "covered nick g so l ts w' = covered nick g so l ts w" "orderly g ts w' = orderly g ts w" "within m w' = within m w"
      for so l by (simp_all add: covered_def orderly_def within_def split: option.split)
    moreover have "orderly g ts w" "within m w" "covered nick g (Some s) m ts w"
      using ok Built by (simp_all add: board_ok_def)
    ultimately show ?thesis
      using eq w'(4) covered_weaken [of nick g "Some s" m ts w] by (simp add: board_ok_def)
  qed
next
  case (Published m)
  then have eq: "pc' = Swept" "w' = sweep_marks g m w" using step by simp_all
  have "covered nick g (bw_latest (sweep_marks g m w) g) None ts (sweep_marks g m w)"
    using sweep_covered [of nick g "bw_latest w g" m ts w] Published ok
    by (simp add: board_ok_def sweep_marks_def split: option.splits)
  moreover have "orderly g ts (sweep_marks g m w)"
    using ok by (auto simp: board_ok_def orderly_def sweep_marks_def delete_rows_def split: option.split)
  ultimately show ?thesis using eq by (simp add: board_ok_def)
next
  case Swept
  with step ok show ?thesis by (auto simp: board_ok_def orderly_def clear_full_def covered_def)
qed

lemma refresher_ok_tear:
  assumes "refresher_ok nick g (pc, ts, w)" and "bw_revision w' = bw_revision w" and "bw_latest w' g = bw_latest w g"
    and "\<And>so m. covered nick g so m ts w \<Longrightarrow> covered nick g so m (new @ ts) w'"
  shows "refresher_ok nick g (tear new pc, new @ ts, w')"
proof -
  have "within m w' = within m w" for m using assms(2) by (simp add: within_def split: option.split)
  moreover have "new \<noteq> [] \<Longrightarrow> covered nick g so m (new @ ts) w'" for so m by (simp add: covered_def)
  ultimately show ?thesis using assms(1,3,4) by (cases pc) auto
qed

lemma board_ok_step:
  assumes "board_step nick g st st'" and "board_ok nick g st"
  shows "board_ok nick g st'"
  using assms
proof (cases rule: board_step.cases)
  case (refresher now pc w e pc' w' ts)
  with assms(2) show ?thesis using refresh_step_ok [OF refresher(3,4)] by simp
next
  case (build_torn m v ts w s)
  with assms(2) show ?thesis by (auto simp: board_ok_def intro: covered_none)
next
  case (stop_it pc ts w)
  with assms(2) show ?thesis by (simp add: board_ok_def)
next
  case (change d w created new pc ts)
  have cov: "covered nick g so m ts w \<Longrightarrow> covered nick g so m (new @ ts) (w\<lparr>bw_db := d\<rparr>)" for so m
    using covered_change change(6) by blast
  have "refresher_ok nick g (tear new pc, new @ ts, w\<lparr>bw_db := d\<rparr>)"
    by (rule refresher_ok_tear [of _ _ _ _ w]) (use assms(2) change(1) cov in \<open>simp_all add: board_ok_def\<close>)
  then show ?thesis
    using assms(2) change cov by (auto simp: board_ok_def orderly_def)
next
  case (mark pc ts w t a)
  have ord: "orderly g ts w" using assms(2) mark by (simp add: board_ok_def)
  then have rev: "\<forall>r \<in> set (bw_dirty w). dt_revision r \<le> bw_revision w" by (simp add: orderly_def)
  have cov: "within m w \<Longrightarrow> covered nick g so m ts w \<Longrightarrow> covered nick g so m (remove1 t ts) (mark_team_dirty t a w)" for so m
    using covered_mark ord by blast
  have "refresher_ok nick g (pc, remove1 t ts, mark_team_dirty t a w)"
    by (rule refresher_ok_env [of _ _ _ ts w])
      (use assms(2) mark(1) cov mark_team_rows(1) [OF rev] in \<open>simp_all add: board_ok_def\<close>)
  moreover have "orderly g (remove1 t ts) (mark_team_dirty t a w)"
    using ord mark_team_rows(2) [OF rev] by (auto simp: orderly_def dest: notin_set_remove1 set_remove1_subset [THEN subsetD])
  moreover have "covered nick g (bw_latest w g) None (remove1 t ts) (mark_team_dirty t a w)"
    using cov [of None] assms(2) mark(1) by (simp add: board_ok_def within_def)
  ultimately show ?thesis using mark(2) by (simp add: board_ok_def)
next
  case (mark_game pc ts w h)
  have cov: "covered nick g so m ts (mark_game_dirty h w) = covered nick g so m ts w" for so m
    by (simp add: covered_def mark_game_dirty_def)
  have "refresher_ok nick g (pc, ts, mark_game_dirty h w)"
    by (rule refresher_ok_env [of _ _ _ ts w])
      (use assms(2) mark_game(1) cov in \<open>simp_all add: board_ok_def mark_game_dirty_def\<close>)
  then show ?thesis
    using assms(2) mark_game cov by (simp add: board_ok_def orderly_def) (simp add: mark_game_dirty_def)
next
  case (connection pc ts w b)
  have cov: "covered nick g so m ts (w\<lparr>bw_kv_up := b\<rparr>) = covered nick g so m ts w" for so m
    by (simp add: covered_def)
  have "refresher_ok nick g (pc, ts, w\<lparr>bw_kv_up := b\<rparr>)"
    by (rule refresher_ok_env [of _ _ _ ts w]) (use assms(2) connection(1) cov in \<open>simp_all add: board_ok_def\<close>)
  then show ?thesis
    using assms(2) connection cov by (simp add: board_ok_def orderly_def)
next
  case (read_it now lock ver offset limit w i w' pc ts)
  note gw = get_info_world [OF read_it(3)]
  have cov: "covered nick g so m ts w' = covered nick g so m ts w" for so m
    using gw by (simp add: covered_def)
  have ord: "orderly g ts w' = orderly g ts w" using gw by (simp add: orderly_def)
  show ?thesis
  proof (cases "bw_latest w' g = bw_latest w g")
    case True
    have "refresher_ok nick g (pc, ts, w')"
      by (rule refresher_ok_env [of _ _ _ ts w]) (use assms(2) read_it(1) cov gw True in \<open>simp_all add: board_ok_def\<close>)
    then show ?thesis using assms(2) read_it cov ord True by (simp add: board_ok_def)
  next
    case False
    then obtain s where s: "bw_latest w' g = Some s" "shows_board nick g (bw_db w') s" "pc = Resting"
      using gw read_it(4) by auto
    then have "covered nick g (Some s) None ts w'" by (simp add: covered_def)
    then show ?thesis using assms(2) read_it(1,2) ord s by (simp add: board_ok_def)
  qed
qed

inductive board_run :: "(nat \<Rightarrow> ustr) \<Rightarrow> nat \<Rightarrow> board_state \<Rightarrow> board_state \<Rightarrow> bool" for nick g where
  here: "board_run nick g st st"
| further: "board_run nick g st st' \<Longrightarrow> board_step nick g st' st'' \<Longrightarrow> board_run nick g st st''"

text \<open>
  C15: marks of teams are not lost. Start with the published board up to date and any marks; let the
  steps of the refresher, changes of the database that owe marks of teams (also between the queries of a
  build), other marks, readers, failures of the key-value store and stops of the refresher follow each
  other in any order. Whenever no change is waiting for its mark and the game is not dirty, the published
  board shows the database. This is about changes that are followed by the mark of a team: a deletion of
  a team, and a change that marks the whole game only, are not among the steps.
\<close>

theorem team_marks_are_not_lost:
  assumes "board_run nick g (Resting, [], w) (pc, [], w')"
    and "distinct (map fst (team_games (bw_db w)))" and "\<forall>r \<in> set (bw_dirty w). dt_revision r \<le> bw_revision w"
    and "bw_latest w g = Some s" and "shows_board nick g (bw_db w) s"
    and "g \<notin> set (dirty_games w')"
  shows "\<exists>s'. bw_latest w' g = Some s' \<and> shows_board nick g (bw_db w') s'"
proof -
  have "board_ok nick g (Resting, [], w)"
    using assms(2-5) by (simp add: board_ok_def orderly_def covered_def)
  moreover have "board_run nick g st st' \<Longrightarrow> board_ok nick g st \<Longrightarrow> board_ok nick g st'" for st st'
    by (induction rule: board_run.induct) (auto intro: board_ok_step)
  ultimately have "board_ok nick g (pc, [], w')" using assms(1) by blast
  then have "covered nick g (bw_latest w' g) None [] w'" by (simp add: board_ok_def)
  then show ?thesis
    using assms(6) by (auto simp: covered_def dirty_games_set)
qed

lemma team_marks_are_not_lost_witness:
  "\<exists>w w' s. refresh_game blank_nick 9 True 2 board_sample = (None, w)
    \<and> board_run blank_nick 2 (Resting, [], w) (Resting, [], w')
    \<and> bw_latest w' 2 = Some s \<and> shows_board blank_nick 2 (bw_db w') s"
proof -
  have up: "bw_kv_up board_sample" and db: "bw_db board_sample = board_db"
    by (simp_all add: board_sample_def)
  obtain e w where r: "refresh_game blank_nick 9 True 2 board_sample = (e, w)"
    by (cases "refresh_game blank_nick 9 True 2 board_sample")
  obtain s where s0: "e = None" "shows_board blank_nick 2 (bw_db board_sample) s"
    "bw_latest w = (bw_latest board_sample)(2 \<mapsto> s)"
    "set (dirty_games w) = set (dirty_games board_sample) - {2}" "bw_db w = bw_db board_sample"
    using refresh_effect [OF up r] by metis
  have s1: "e = None" by (rule s0(1))
  have s2: "shows_board blank_nick 2 board_db s" using s0(2) by (simp only: db)
  have s3: "bw_latest w 2 = Some s" by (simp only: s0(3) fun_upd_same)
  have s4: "set (dirty_games w) = {}"
    by (simp only: s0(4) board_sample_dirty list.set Diff_cancel)
  have s5: "bw_db w = board_db" by (simp only: s0(5) db)
  note s = s1 s2 s3 s4 s5
  have none: "\<forall>r \<in> set (bw_dirty w). dt_revision r \<le> bw_revision w"
    using s(4) by (simp add: dirty_games_set)
  have run: "board_run blank_nick 2 (Resting, [], w) (Resting, [], w\<lparr>bw_kv_up := False\<rparr>)"
    by (rule board_run.further [OF board_run.here board_step.connection])
  have teams: "distinct (map fst (team_games (bw_db w)))" by (simp add: s(5) team_games_def board_db_def)
  have clean: "2 \<notin> set (dirty_games (w\<lparr>bw_kv_up := False\<rparr>))"
    using s(4) by (simp add: dirty_games_set full_games_def)
  have shows_w: "shows_board blank_nick 2 (bw_db w) s" by (simp only: s(2,5))
  show ?thesis
    using team_marks_are_not_lost [OF run teams none s(3) shows_w clean] r run unfolding s(1) by blast
qed

section \<open>Paging\<close>

definition snapshot_ok :: "board_snapshot \<Rightarrow> bool" where
  "snapshot_ok s \<longleftrightarrow> list_all (\<lambda>i. sn_teams s i \<noteq> None) (sn_order s)"

lemma build_snapshot_ok: "snapshot_ok (build_snapshot nick g v d)"
  by (auto simp: snapshot_ok_def list_all_iff build_snapshot_def Let_def map_of_eq_None_iff image_image)

text \<open>The whole board of a snapshot: its teams in order, ranked from one.\<close>

definition ranked_board :: "board_snapshot \<Rightarrow> board_team list" where
  "ranked_board s = map (\<lambda>(i, id). (the (sn_teams s id))\<lparr>bt_rank := i + 1\<rparr>) (enumerate 0 (sn_order s))"

lemma map_filter_total:
  assumes "\<forall>x \<in> set xs. f x \<noteq> None"
  shows "List.map_filter f xs = map (\<lambda>x. the (f x)) xs"
  using assms by (induction xs) (auto simp: List.map_filter_simps)

lemma board_page_take:
  assumes "snapshot_ok s"
  shows "board_page s offset limit = take limit (drop offset (ranked_board s))"
proof -
  let ?xs = "take limit (drop offset (enumerate 0 (sn_order s)))"
  have "\<forall>(i, id) \<in> set (enumerate 0 (sn_order s)). sn_teams s id \<noteq> None"
    using assms by (fastforce simp: snapshot_ok_def list_all_iff in_set_enumerate_eq)
  then have all: "\<forall>(i, id) \<in> set ?xs. sn_teams s id \<noteq> None"
    by (meson in_set_dropD in_set_takeD)
  have "board_page s offset limit
      = map (\<lambda>x. the (case x of (index, i) \<Rightarrow> map_option (\<lambda>team. team\<lparr>bt_rank := index + 1\<rparr>) (sn_teams s i))) ?xs"
    unfolding board_page_def by (rule map_filter_total) (use all in auto)
  also have "\<dots> = map (\<lambda>(i, id). (the (sn_teams s id))\<lparr>bt_rank := i + 1\<rparr>) ?xs"
    using all by (intro map_cong) auto
  finally show ?thesis by (simp add: ranked_board_def take_map drop_map)
qed

lemma concat_pages:
  assumes "0 < k" and "length xs \<le> n * k"
  shows "concat (map (\<lambda>i. take k (drop (i * k) xs)) [0..<n]) = xs"
  using assms(2)
proof (induction n arbitrary: xs)
  case (Suc n)
  have "map (\<lambda>i. take k (drop (i * k) xs)) [0..<Suc n]
      = take k xs # map (\<lambda>i. take k (drop (i * k) (drop k xs))) [0..<n]"
    by (simp add: map_upt_Suc add.commute del: upt_Suc)
  then show ?case using Suc.IH [of "drop k xs"] Suc.prems by simp
qed simp

lemma get_info_kept:
  assumes "bw_kv_up w" and "bw_kept w (g, v) = Some (s, e)" and "now < e" and "0 < offset"
  shows "\<exists>p. fst (get_info nick now lock g (Some v) offset limit w) = Some p \<and> bi_data p = board_page s offset limit"
proof -
  have "try_load now g (Some v) w = (Some s, w)"
    using assms(1-3) by (simp add: try_load_def load_snapshot_def)
  then show ?thesis using assms(4) by (simp add: get_info_def Let_def)
qed

text \<open>Page \<open>i\<close> of a reading: at time \<open>time i\<close> and in the world \<open>v i\<close>, with the version of page 0.\<close>

definition read_page ::
  "(nat \<Rightarrow> ustr) \<Rightarrow> lock_outcome \<Rightarrow> nat \<Rightarrow> int option \<Rightarrow> nat \<Rightarrow> (nat \<Rightarrow> time) \<Rightarrow> (nat \<Rightarrow> board_world) \<Rightarrow> nat
    \<Rightarrow> board_info option" where
  "read_page nick lock g ver limit time v i =
     (if i = 0 then fst (get_info nick (time 0) lock g ver 0 limit (v 0))
      else fst (get_info nick (time i) lock g
        (map_option bi_version (fst (get_info nick (time 0) lock g ver 0 limit (v 0)))) (i * limit) limit (v i)))"

text \<open>
  C17: the pages make up the board. Reading from the start and then on with the version of the first
  page, while that version is kept, gives pages that follow each other without a gap or a repetition
  and together are the whole board in order, each team with its place as its rank, however often the
  board is republished meanwhile.
\<close>

theorem pages_make_up_the_board:
  assumes "snapshot_ok s" and "0 < limit" and "length (sn_order s) \<le> n * limit"
    and "bw_latest (v 0) g = Some s" and "ver \<noteq> Some (sn_version s)"
    and "\<And>i. bw_kv_up (v i)"
    and "\<And>i. 0 < i \<Longrightarrow> i < n \<Longrightarrow> \<exists>e. bw_kept (v i) (g, sn_version s) = Some (s, e) \<and> time i < e"
  shows "concat (map (\<lambda>i. bi_data (the (read_page nick lock g ver limit time v i))) [0..<n]) = ranked_board s"
proof -
  obtain p where p: "fst (get_info nick (time 0) lock g ver 0 limit (v 0)) = Some p" "bi_version p = sn_version s"
    "bi_data p = board_page s 0 limit"
    using assms(4,5,6) by (simp add: get_info_def try_load_def load_snapshot_def Let_def)
  have page: "bi_data (the (read_page nick lock g ver limit time v i)) = take limit (drop (i * limit) (ranked_board s))"
    if "i < n" for i
  proof (cases "i = 0")
    case True
    with p board_page_take [OF assms(1)] show ?thesis by (simp add: read_page_def)
  next
    case False
    then have "\<exists>e. bw_kept (v i) (g, sn_version s) = Some (s, e) \<and> time i < e"
      using that by (intro assms(7)) simp_all
    then obtain e where e: "bw_kept (v i) (g, sn_version s) = Some (s, e)" "time i < e"
      by (elim exE conjE)
    obtain p' where p': "fst (get_info nick (time i) lock g (Some (sn_version s)) (i * limit) limit (v i)) = Some p'"
      "bi_data p' = board_page s (i * limit) limit"
      using get_info_kept [OF assms(6) e, of "i * limit" nick lock limit] False assms(2) by auto
    have "read_page nick lock g ver limit time v i = Some p'"
      unfolding read_page_def p(1) using False p(2) p'(1) by simp
    with p'(2) have "bi_data (the (read_page nick lock g ver limit time v i)) = board_page s (i * limit) limit"
      by simp
    then show ?thesis by (simp add: board_page_take [OF assms(1)])
  qed
  have eq: "map (\<lambda>i. bi_data (the (read_page nick lock g ver limit time v i))) [0..<n]
      = map (\<lambda>i. take limit (drop (i * limit) (ranked_board s))) [0..<n]"
    by (rule map_cong) (simp_all add: page)
  have "length (ranked_board s) \<le> n * limit" using assms(3) by (simp add: ranked_board_def)
  then show ?thesis unfolding eq by (rule concat_pages [OF assms(2)])
qed

lemma pages_make_up_the_board_witness:
  "\<exists>s w. shows_board blank_nick 2 board_db s
    \<and> concat (map (\<lambda>i. bi_data (the (read_page blank_nick Taken 2 None 1 (\<lambda>_. 9) (\<lambda>_. w) i))) [0..<2]) = ranked_board s"
proof -
  let ?s = "build_snapshot blank_nick 2 5 board_db"
  let ?w = "board_sample\<lparr>bw_latest := (\<lambda>_. Some ?s), bw_kept := (\<lambda>_. Some (?s, 10))\<rparr>"
  have "fetch_teams blank_nick board_db 2 = live_board blank_nick board_db 2"
    by (simp add: fetch_teams_def board_db_def empty_db_def exists_row_def)
  then have len: "length (sn_order ?s) \<le> 2 * 1"
    using arg_cong [OF board_db_board [of blank_nick], of length] by (simp add: build_snapshot_def Let_def)
  have "concat (map (\<lambda>i. bi_data (the (read_page blank_nick Taken 2 None 1 (\<lambda>_. 9) (\<lambda>_. ?w) i))) [0..<2]) = ranked_board ?s"
  proof (rule pages_make_up_the_board [OF build_snapshot_ok _ len])
    show "bw_latest ?w 2 = Some ?s" "\<And>i. bw_kv_up ?w"
      "\<exists>e. bw_kept ?w (2, sn_version ?s) = Some (?s, e) \<and> 9 < e"
      by (simp_all add: board_sample_def)
  qed simp_all
  then show ?thesis using build_snapshot_shows by blast
qed

end
