(* ===== verification/Release_Laws.thy ===== *)
theory Release_Laws
  imports Release Board_Laws
begin

text \<open>
  Properties of releasing: events are written once and worked off, a pass settles everything that is
  due, the schedule is in time, players reading with a cursor get every event once, released phases
  keep their schedule, and what an interruption loses.
\<close>

section \<open>Writing events\<close>

lemma bex_image_eq: "(\<exists>x \<in> A. f x = y) \<longleftrightarrow> y \<in> f ` A"
  by blast

lemma phase_released_in: "phase_released w p \<longleftrightarrow> Some p \<in> re_phase ` set (rw_events w)"
  by (simp add: phase_released_def exists_row_iff bex_image_eq)

lemma insert_due_events:
  assumes "insert_due phs (es, n) = (es', n')" and "\<forall>e \<in> set es. re_id e < n"
    and "sorted_wrt (<) (map re_id es)" and "distinct (map ph_id phs)"
  shows "n \<le> n' \<and> (\<forall>e \<in> set es'. re_id e < n') \<and> sorted_wrt (<) (map re_id es')
    \<and> (\<exists>new. es' = es @ new
      \<and> map (\<lambda>e. (re_phase e, re_game e, re_at e)) new
          = map (\<lambda>ph. (Some (ph_id ph), ph_game ph, ph_release_at ph))
              (filter (\<lambda>ph. \<not> exists_row (\<lambda>e. re_phase e = Some (ph_id ph)) es) phs)
      \<and> list_all (\<lambda>e. re_type e = event_phase \<and> re_notified e = None) new)"
  using assms
proof (induction phs arbitrary: es n)
  case (Cons ph phs)
  let ?new = "\<lparr>re_id = n, re_phase = Some (ph_id ph), re_game = ph_game ph, re_type = event_phase,
      re_at = ph_release_at ph, re_notified = None\<rparr>"
  let ?es = "if exists_row (\<lambda>e. re_phase e = Some (ph_id ph)) es then es else es @ [?new]"
  have le: "\<forall>e \<in> set ?es. re_id e < n + 1" and sorted: "sorted_wrt (<) (map re_id ?es)"
    using Cons.prems(2,3) by (auto simp: sorted_wrt_append less_Suc_eq)
  have "insert_due phs (?es, n + 1) = (es', n')" using Cons.prems(1) by simp
  from Cons.IH [OF this le sorted] Cons.prems(4) obtain new where new:
    "n + 1 \<le> n'" "\<forall>e \<in> set es'. re_id e < n'" "sorted_wrt (<) (map re_id es')" "es' = ?es @ new"
    "map (\<lambda>e. (re_phase e, re_game e, re_at e)) new = map (\<lambda>ph. (Some (ph_id ph), ph_game ph, ph_release_at ph))
       (filter (\<lambda>q. \<not> exists_row (\<lambda>e. re_phase e = Some (ph_id q)) ?es) phs)"
    "list_all (\<lambda>e. re_type e = event_phase \<and> re_notified e = None) new" by auto
  have same: "exists_row (\<lambda>e. re_phase e = Some (ph_id q)) ?es = exists_row (\<lambda>e. re_phase e = Some (ph_id q)) es"
    if "q \<in> set phs" for q
    using Cons.prems(4) that by (auto simp: exists_row_iff)
  then have "filter (\<lambda>q. \<not> exists_row (\<lambda>e. re_phase e = Some (ph_id q)) ?es) phs
      = filter (\<lambda>q. \<not> exists_row (\<lambda>e. re_phase e = Some (ph_id q)) es) phs"
    by (intro filter_cong) auto
  with new show ?case
    by (cases "exists_row (\<lambda>e. re_phase e = Some (ph_id ph)) es") (auto intro!: exI [of _ "?new # new"])
qed simp

definition events_ok :: "release_world \<Rightarrow> bool" where
  "events_ok w \<longleftrightarrow> sorted_wrt (<) (map re_id (rw_events w)) \<and> list_all (\<lambda>e. re_id e < rw_next w) (rw_events w)
     \<and> distinct (map ph_id (phases (rw_db w)))"

lemma due_phases_distinct: "distinct (map ph_id (phases d)) \<Longrightarrow> distinct (map ph_id (due_phases now d))"
  by (simp add: due_phases_def distinct_map inj_on_def)

lemma set_due_phases: "set (due_phases now d) = {ph \<in> set (phases d). ph_release_at ph \<le> now}"
  by (auto simp: due_phases_def)

lemma materialize_effect:
  assumes "events_ok w"
  obtains new where "rw_events (materialize_due now w) = rw_events w @ new" "events_ok (materialize_due now w)"
    "map (\<lambda>e. (re_phase e, re_game e, re_at e)) new = map (\<lambda>ph. (Some (ph_id ph), ph_game ph, ph_release_at ph))
       (filter (\<lambda>ph. \<not> phase_released w (ph_id ph)) (due_phases now (rw_db w)))"
    "list_all (\<lambda>e. re_type e = event_phase \<and> re_notified e = None) new"
proof -
  obtain es n where i: "insert_due (due_phases now (rw_db w)) (rw_events w, rw_next w) = (es, n)" by fastforce
  have "\<forall>e \<in> set (rw_events w). re_id e < rw_next w" "sorted_wrt (<) (map re_id (rw_events w))"
    using assms by (simp_all add: events_ok_def list_all_iff)
  from insert_due_events [OF i this due_phases_distinct] assms obtain new where
    "\<forall>e \<in> set es. re_id e < n" "sorted_wrt (<) (map re_id es)" "es = rw_events w @ new"
    "map (\<lambda>e. (re_phase e, re_game e, re_at e)) new = map (\<lambda>ph. (Some (ph_id ph), ph_game ph, ph_release_at ph))
       (filter (\<lambda>ph. \<not> exists_row (\<lambda>e. re_phase e = Some (ph_id ph)) (rw_events w)) (due_phases now (rw_db w)))"
    "list_all (\<lambda>e. re_type e = event_phase \<and> re_notified e = None) new"
    by (auto simp: events_ok_def)
  moreover have "rw_events (materialize_due now w) = es" "rw_next (materialize_due now w) = n"
    "rw_db (materialize_due now w) = rw_db w"
    unfolding materialize_due_def i by (simp_all add: rw_db_def)
  ultimately show thesis
    using that [of new] assms by (simp add: events_ok_def list_all_iff phase_released_def)
qed

lemma materialize_db [simp]: "rw_db (materialize_due now w) = rw_db w"
  by (simp add: materialize_due_def rw_db_def case_prod_beta Let_def)

text \<open>What is due is released afterwards, and nothing else is.\<close>

lemma materialize_released:
  assumes "events_ok w"
  shows "phase_released (materialize_due now w) p \<longleftrightarrow>
    phase_released w p \<or> (\<exists>ph \<in> set (phases (rw_db w)). ph_id ph = p \<and> ph_release_at ph \<le> now)"
proof -
  obtain new where new: "rw_events (materialize_due now w) = rw_events w @ new" "events_ok (materialize_due now w)"
    "map (\<lambda>e. (re_phase e, re_game e, re_at e)) new = map (\<lambda>ph. (Some (ph_id ph), ph_game ph, ph_release_at ph))
       (filter (\<lambda>ph. \<not> phase_released w (ph_id ph)) (due_phases now (rw_db w)))"
    "list_all (\<lambda>e. re_type e = event_phase \<and> re_notified e = None) new"
    by (rule materialize_effect [OF assms])
  have "map re_phase new = map (\<lambda>ph. Some (ph_id ph)) (filter (\<lambda>ph. \<not> phase_released w (ph_id ph)) (due_phases now (rw_db w)))"
    using arg_cong [OF new(3), of "map fst"] by (simp add: comp_def)
  from arg_cong [OF this, of set]
  have "Some p \<in> re_phase ` set new \<longleftrightarrow> Some p \<in> (\<lambda>ph. Some (ph_id ph)) ` {ph \<in> set (phases (rw_db w)).
      ph_release_at ph \<le> now \<and> \<not> phase_released w (ph_id ph)}"
    by (simp only: set_map set_filter set_due_phases mem_Collect_eq conj_assoc)
  moreover have "\<dots> \<longleftrightarrow> (\<exists>ph \<in> set (phases (rw_db w)). ph_id ph = p \<and> ph_release_at ph \<le> now) \<and> \<not> phase_released w p"
    by auto
  moreover have "phase_released (materialize_due now w) p \<longleftrightarrow> phase_released w p \<or> Some p \<in> re_phase ` set new"
    by (auto simp: phase_released_in new(1))
  ultimately show ?thesis by blast
qed

section \<open>Working events off\<close>

lemma with_db_frame [simp]:
  "rw_events (with_db f w) = rw_events w" "rw_next (with_db f w) = rw_next w" "rw_infos (with_db f w) = rw_infos w"
  "rw_event_teams (with_db f w) = rw_event_teams w" "rw_event_puzzles (with_db f w) = rw_event_puzzles w"
  "rw_db (with_db f w) = f (rw_db w)" "bw_refresh (rw_board (with_db f w)) = bw_refresh (rw_board w)"
  "bw_dirty (rw_board (with_db f w)) = bw_dirty (rw_board w)"
  by (simp_all add: with_db_def rw_db_def)

lemma invalidate_board_frame [simp]:
  "rw_events (invalidate_board g w) = rw_events w" "rw_next (invalidate_board g w) = rw_next w"
  "rw_db (invalidate_board g w) = rw_db w"
  by (simp_all add: invalidate_board_def rw_db_def invalidate_game_def mark_game_dirty_def)

lemma fold_with_db:
  "rw_events (fold (\<lambda>t. with_db (f t)) ts w) = rw_events w \<and> rw_next (fold (\<lambda>t. with_db (f t)) ts w) = rw_next w
   \<and> rw_db (fold (\<lambda>t. with_db (f t)) ts w) = fold f ts (rw_db w)
   \<and> bw_refresh (rw_board (fold (\<lambda>t. with_db (f t)) ts w)) = bw_refresh (rw_board w)"
  by (induction ts arbitrary: w) simp_all

lemma enablements_phases [simp]: "phases (refresh_team_hint_enablements now t only d) = phases d"
  by (simp add: refresh_team_hint_enablements_def refresh_team_hint_enablements_conn_def Let_def add_enables_def)

lemma apply_changes_phases: "apply_changes g p at rows acc d = Inr (b, d') \<Longrightarrow> phases d' = phases d"
proof (induction rows arbitrary: acc d)
  case (Cons row rows)
  then obtain f s b1 d1 where st: "set_state_conn g \<lparr>fc_feature = f, fc_state = s\<rparr> (Some p) None at d = Inr (b1, d1)"
    and rest: "apply_changes g p at rows (acc \<or> (b1 \<and> f = Leaderboard)) d1 = Inr (b, d')"
    by (auto simp: res_bind_eq_Inr)
  have "phases d1 = phases d"
    using st by (auto simp: set_state_conn_def Let_def res_bind_eq_Inr record_state_def leaderboard_step_def
        lock_leaderboard_conn_def unlock_leaderboard_def currency_step_def settle_currency_growth_conn_def
        enable_currency_growth_conn_def split: option.splits if_splits feature_state.splits)
  with Cons.IH [OF rest] show ?case by simp
qed simp

lemma process_event_effect:
  assumes "process_event now ev w = (r, w')"
  shows "rw_next w' = rw_next w \<and> phases (rw_db w') = phases (rw_db w)
    \<and> (r = None \<longrightarrow> rw_events w' = update_rows (\<lambda>e. re_id e = re_id ev \<and> re_notified e = None)
         (\<lambda>e. e\<lparr>re_notified := Some now\<rparr>) (rw_events w))
    \<and> (r \<noteq> None \<longrightarrow> rw_events w' = rw_events w)"
proof (cases "apply_phase ev w")
  case (Inl e)
  with assms show ?thesis by (auto simp: process_event_def)
next
  case (Inr x)
  obtain changed w1 where x: "x = (changed, w1)" by (cases x)
  have w1: "rw_events w1 = rw_events w" "rw_next w1 = rw_next w" "phases (rw_db w1) = phases (rw_db w)"
    using Inr x by (auto simp: apply_phase_def res_bind_eq_Inr apply_phase_changes_def
        split: option.splits dest: apply_changes_phases)
  have dirty: "phases (rw_db (mark_content_blocks_dirty i ph v)) = phases (rw_db v)"
    "rw_events (mark_content_blocks_dirty i ph v) = rw_events v" "rw_next (mark_content_blocks_dirty i ph v) = rw_next v" for i ph v
    by (simp_all add: mark_content_blocks_dirty_def)
  have "phases (fold (\<lambda>t. refresh_team_hint_enablements now t None) ts d) = phases d" for ts d
    by (induction ts arbitrary: d) simp_all
  then have refresh: "phases (rw_db (refresh_released now ev v)) = phases (rw_db v)"
    "rw_events (refresh_released now ev v) = rw_events v" "rw_next (refresh_released now ev v) = rw_next v" for v
    by (simp_all add: refresh_released_def fold_with_db)
  have noted: "rw_db (mark_notified now i v) = rw_db v" "rw_next (mark_notified now i v) = rw_next v" for i v
    by (simp_all add: mark_notified_def rw_db_def)
  from assms Inr x show ?thesis
    by (auto simp: process_event_def Let_def w1 dirty refresh noted) (auto simp: mark_notified_def w1 dirty refresh)
qed

definition pending :: "release_world \<Rightarrow> nat set" where
  "pending w = re_id ` {e \<in> set (rw_events w). re_notified e = None}"

lemma bex_update_rows: "(\<exists>r \<in> set (update_rows p f rs). P r) \<longleftrightarrow> (\<exists>r \<in> set rs. P (if p r then f r else r))"
  by (induction rs) (auto simp: tbl_simps)

lemma pending_iff: "i \<in> pending w \<longleftrightarrow> (\<exists>e \<in> set (rw_events w). re_id e = i \<and> re_notified e = None)"
  by (auto simp: pending_def)

lemma pending_noted:
  assumes "rw_events w' = update_rows (\<lambda>e. re_id e = i \<and> re_notified e = None) (\<lambda>e. e\<lparr>re_notified := Some now\<rparr>) (rw_events w)"
  shows "pending w' = pending w - {i}"
proof (rule set_eqI)
  fix j
  have eq: "re_id (if re_id e = i \<and> re_notified e = None then e\<lparr>re_notified := Some now\<rparr> else e) = j
      \<and> re_notified (if re_id e = i \<and> re_notified e = None then e\<lparr>re_notified := Some now\<rparr> else e) = None
    \<longleftrightarrow> re_id e = j \<and> re_notified e = None \<and> j \<noteq> i" for e
    by auto
  show "j \<in> pending w' \<longleftrightarrow> j \<in> pending w - {i}"
    unfolding pending_iff Diff_iff assms bex_update_rows by (simp only: eq singleton_iff) blast
qed

lemma process_events_effect:
  assumes "process_events now evs w = (r, w')"
  shows "rw_next w' = rw_next w \<and> phases (rw_db w') = phases (rw_db w)
    \<and> map re_id (rw_events w') = map re_id (rw_events w) \<and> map re_phase (rw_events w') = map re_phase (rw_events w)
    \<and> (r = None \<longrightarrow> pending w' = pending w - re_id ` set evs)"
  using assms
proof (induction evs arbitrary: w)
  case (Cons ev evs)
  obtain r1 w1 where p: "process_event now ev w = (r1, w1)" by (cases "process_event now ev w")
  note eff = process_event_effect [OF p]
  have ids: "map re_id (rw_events w1) = map re_id (rw_events w)" "map re_phase (rw_events w1) = map re_phase (rw_events w)"
    using eff by (cases r1; simp add: update_rows_def)+
  show ?case
  proof (cases r1)
    case (Some e)
    with Cons.prems p eff ids show ?thesis by auto
  next
    case None
    then have rest: "process_events now evs w1 = (r, w')" using Cons.prems p by simp
    have "pending w1 = pending w - {re_id ev}"
      using eff None by (intro pending_noted) simp
    with Cons.IH [OF rest] eff ids show ?thesis by auto
  qed
qed (auto)

lemma process_events_frame:
  assumes "process_events now evs w = (r, w')" and "events_ok w"
  shows "events_ok w' \<and> phase_released w' = phase_released w"
proof -
  note eff = process_events_effect [OF assms(1)]
  have ids: "map re_id (rw_events w') = map re_id (rw_events w)"
    and phases: "map re_phase (rw_events w') = map re_phase (rw_events w)" using eff by blast+
  have "list_all (\<lambda>i. i < rw_next w) (map re_id (rw_events w))"
    using assms(2) by (simp add: events_ok_def list_all_iff)
  then have "list_all (\<lambda>e. re_id e < rw_next w) (rw_events w')"
    unfolding ids [symmetric] by (simp add: list_all_iff)
  moreover have "re_phase ` set (rw_events w') = re_phase ` set (rw_events w)"
    using arg_cong [OF phases, of set] by simp
  ultimately show ?thesis
    using assms(2) eff by (simp add: events_ok_def fun_eq_iff phase_released_in)
qed

lemma materialize_again:
  assumes "events_ok w" and "\<forall>ph \<in> set (phases (rw_db w)). ph_release_at ph \<le> now \<longrightarrow> phase_released w (ph_id ph)"
  shows "rw_events (materialize_due now w) = rw_events w"
proof -
  obtain new where new: "rw_events (materialize_due now w) = rw_events w @ new" "events_ok (materialize_due now w)"
    "map (\<lambda>e. (re_phase e, re_game e, re_at e)) new = map (\<lambda>ph. (Some (ph_id ph), ph_game ph, ph_release_at ph))
       (filter (\<lambda>ph. \<not> phase_released w (ph_id ph)) (due_phases now (rw_db w)))"
    "list_all (\<lambda>e. re_type e = event_phase \<and> re_notified e = None) new"
    by (rule materialize_effect [OF assms(1)])
  have "filter (\<lambda>ph. \<not> phase_released w (ph_id ph)) (due_phases now (rw_db w)) = []"
    using assms(2) by (auto simp: filter_empty_conv set_due_phases)
  with new(3) have "new = []" by simp
  with new(1) show ?thesis by simp
qed

text \<open>
  C20: a pass settles everything. When the process returns without an error, every phase whose time has
  come has its release event, no other phase has got one, no event is left to be worked off, and
  running it again at the same time finds nothing to do: it only uses up identifiers.
\<close>

theorem release_pass_settles:
  assumes "process_due_releases_with_lock now lock_free True w = (None, w')" and "events_ok w"
  shows "pending_notifications w' = []
    \<and> (\<forall>p. phase_released w' p = (phase_released w p
        \<or> (\<exists>ph \<in> set (phases (rw_db w)). ph_id ph = p \<and> ph_release_at ph \<le> now)))
    \<and> process_due_releases_with_lock now lock_free True w'
        = (None, w'\<lparr>rw_next := rw_next (materialize_due now w')\<rparr>)"
proof -
  let ?w = "materialize_due now w"
  have run: "process_events now (pending_notifications ?w) ?w = (None, w')"
    using assms(1) by (simp add: process_due_releases_with_lock_def process_due_releases_locked_def Let_def)
  have ok: "events_ok ?w" by (rule materialize_effect [OF assms(2)])
  note eff = process_events_effect [OF run] and frame = process_events_frame [OF run ok]
  have "re_id ` set (pending_notifications ?w) = pending ?w"
    by (simp add: pending_notifications_def pending_def)
  then have "pending w' = {}" using eff by simp
  then have none: "pending_notifications w' = []"
    by (auto simp: pending_def pending_notifications_def filter_empty_conv)
  have released: "phase_released w' p = (phase_released w p
      \<or> (\<exists>ph \<in> set (phases (rw_db w)). ph_id ph = p \<and> ph_release_at ph \<le> now))" for p
    using frame materialize_released [OF assms(2), of now p] by simp
  have "phases (rw_db w') = phases (rw_db w)" using eff by simp
  then have again: "rw_events (materialize_due now w') = rw_events w'"
    using frame released by (intro materialize_again) auto
  then have "materialize_due now w' = w'\<lparr>rw_next := rw_next (materialize_due now w')\<rparr>"
    by (simp add: materialize_due_def case_prod_beta Let_def)
  moreover have "pending_notifications (materialize_due now w') = []"
    using none again by (simp add: pending_notifications_def)
  ultimately have "process_due_releases_with_lock now lock_free True w'
      = (None, w'\<lparr>rw_next := rw_next (materialize_due now w')\<rparr>)"
    by (simp add: process_due_releases_with_lock_def process_due_releases_locked_def Let_def)
  with none released show ?thesis by blast
qed

section \<open>The schedule\<close>

lemma fold_min: "fold min ns n \<le> (n :: int) \<and> (\<forall>k \<in> set ns. fold min ns n \<le> k) \<and> fold min ns n \<in> insert n (set ns)"
proof (induction ns arbitrary: n)
  case (Cons k ns)
  show ?case using Cons [of "min k n"] by (auto simp: min_def split: if_splits)
qed simp

text \<open>
  The schedule is in time. The scheduler never sleeps longer than a minute, it is awake again less
  than a second after the next release is due (at once when one is overdue), and when it sleeps less
  than a minute some phase without an event is due when it wakes up.
\<close>

theorem scheduler_wakes_in_time:
  shows "scheduler_delay now w \<le> 60
    \<and> list_all (\<lambda>ph. phase_released w (ph_id ph)
        \<or> now + 1000000 * int (scheduler_delay now w) < max now (ph_release_at ph) + 1000000) (phases (rw_db w))
    \<and> (scheduler_delay now w = 60
      \<or> list_ex (\<lambda>ph. \<not> phase_released w (ph_id ph)
          \<and> ph_release_at ph \<le> now + 1000000 * int (scheduler_delay now w)) (phases (rw_db w)))"
proof (cases "filter (\<lambda>ph. \<not> phase_released w (ph_id ph)) (phases (rw_db w))")
  case Nil
  then show ?thesis
    by (auto simp: scheduler_delay_def next_delay_seconds_def list_all_iff filter_empty_conv)
next
  case (Cons q qs)
  let ?next = "fold min (map ph_release_at qs) (ph_release_at q)"
  let ?secs = "- ((now - ?next) div 1000000)"
  have set: "set (q # qs) = {ph \<in> set (phases (rw_db w)). \<not> phase_released w (ph_id ph)}"
    unfolding Cons [symmetric] by auto
  have least: "?next \<le> ph_release_at ph" if "ph \<in> set (q # qs)" for ph
    using fold_min [of "map ph_release_at qs" "ph_release_at q"] that by auto
  have "?next \<in> ph_release_at ` set (q # qs)"
    using fold_min [of "map ph_release_at qs" "ph_release_at q"] by simp
  then obtain ph where ph: "ph \<in> set (q # qs)" "ph_release_at ph = ?next"
    by (elim imageE) simp
  have ceil: "?next - now \<le> 1000000 * ?secs" "1000000 * ?secs < ?next - now + 1000000"
    by (auto simp: algebra_simps)
  have delay: "int (scheduler_delay now w) = min (max 0 ?secs) 60"
    using Cons by (simp add: scheduler_delay_def next_delay_seconds_def)
  have "list_all (\<lambda>ph. phase_released w (ph_id ph)
      \<or> now + 1000000 * int (scheduler_delay now w) < max now (ph_release_at ph) + 1000000) (phases (rw_db w))"
    unfolding list_all_iff
  proof
    fix r assume "r \<in> set (phases (rw_db w))"
    then have "phase_released w (ph_id r) \<or> ?next \<le> ph_release_at r" using least set by blast
    then show "phase_released w (ph_id r)
        \<or> now + 1000000 * int (scheduler_delay now w) < max now (ph_release_at r) + 1000000"
      using ceil unfolding delay by auto
  qed
  moreover have "scheduler_delay now w = 60 \<or> ?next \<le> now + 1000000 * int (scheduler_delay now w)"
    using ceil delay by auto
  ultimately show ?thesis
    using ph set delay by (auto simp: list_ex_iff)
qed

section \<open>Reading with a cursor\<close>

definition game_events :: "release_world \<Rightarrow> nat \<Rightarrow> nat \<Rightarrow> release_event list" where
  "game_events w g after = filter (\<lambda>e. re_game e = g \<and> after < re_id e) (rw_events w)"

lemma sorted_events:
  assumes "events_ok w"
  shows "sort_key re_id (game_events w g after) = game_events w g after"
    and "distinct (map re_id (game_events w g after))"
proof -
  have s: "sorted_wrt (<) (map re_id (game_events w g after))"
    using assms by (simp add: events_ok_def game_events_def sorted_wrt_map sorted_wrt_filter)
  then show "distinct (map re_id (game_events w g after))"
    by (simp add: strict_sorted_iff)
  from s have "sorted (map re_id (game_events w g after))"
    by (simp add: strict_sorted_iff)
  then show "sort_key re_id (game_events w g after) = game_events w g after"
    by (rule sort_key_id_if_sorted)
qed

text \<open>The events after the last of a page are the rest.\<close>

lemma game_events_rest:
  assumes "events_ok w" and "game_events w g after = xs @ ys" and "xs \<noteq> []"
  shows "game_events w g (re_id (last xs)) = ys"
proof -
  have "sorted_wrt (<) (map re_id (rw_events w))" using assms(1) by (simp add: events_ok_def)
  then have srt: "sorted_wrt (\<lambda>x y. re_id x < re_id y) (game_events w g after)"
    by (simp add: game_events_def sorted_wrt_map sorted_wrt_filter)
  obtain zs e where xs: "xs = zs @ [e]" using assms(3) by (cases xs rule: rev_cases) auto
  have "e \<in> set (game_events w g after)" using assms(2) xs by simp
  then have after: "after < re_id e" by (simp add: game_events_def)
  have "game_events w g (re_id e) = filter (\<lambda>x. re_id e < re_id x) (game_events w g after)"
    using after by (auto simp: game_events_def intro: filter_cong)
  also have "\<dots> = ys"
    using srt unfolding assms(2) xs by (auto simp: sorted_wrt_append filter_empty_conv intro: filter_True)
  finally show ?thesis by (simp add: xs)
qed

lemma collect_res_append:
  "collect_res f (xs @ ys) = res_bind (collect_res f xs) (\<lambda>as. res_bind (collect_res f ys) (\<lambda>bs. Inr (as @ bs)))"
  by (induction xs) (auto simp: res_bind_def split: sum.splits)

text \<open>
  A client: it asks again with the cursor it got, until the cursor does not move. It may make so many
  requests; None is a client that has not stopped by then. The replies are the cursor and the events of
  each request.
\<close>

fun follow :: "release_world \<Rightarrow> nat \<Rightarrow> nat option \<Rightarrow> nat \<Rightarrow> nat
    \<Rightarrow> (db_error + (nat \<times> sync_event list) list) option" where
  "follow w g team 0 after = None"
| "follow w g team (Suc n) after =
     (case sync_events w g team (int after) of
        Inl e \<Rightarrow> Some (Inl e)
      | Inr (cursor, evs) \<Rightarrow>
          if cursor = after then Some (Inr [(cursor, evs)])
          else map_option (\<lambda>r. res_bind r (\<lambda>rest. Inr ((cursor, evs) # rest))) (follow w g team n cursor))"

definition hundreds :: "nat \<Rightarrow> nat" where
  "hundreds n = (n + 99) div 100"

definition cursor_after :: "nat \<Rightarrow> release_event list \<Rightarrow> nat" where
  "cursor_after after es = (if es = [] then after else re_id (last es))"

lemma cursor_after_append: "cursor_after after (xs @ ys) = cursor_after (cursor_after after xs) ys"
  by (simp add: cursor_after_def)

lemma collect_res_length: "collect_res f xs = Inr ys \<Longrightarrow> length ys = length xs"
  by (induction xs arbitrary: ys) (auto split: sum.splits)

lemma hundreds_minus: "0 < n \<Longrightarrow> hundreds n = Suc (hundreds (n - 100))"
proof (cases "n \<le> 100")
  case True
  moreover assume "0 < n"
  ultimately have "(n - 1 + 100) div 100 = 1 + (n - 1) div 100" "(n - 1) div 100 = 0" by simp_all
  with True \<open>0 < n\<close> show ?thesis by (simp add: hundreds_def)
next
  case False
  then obtain k where "n = k + 100" by (metis add.commute le_iff_add nat_le_linear)
  then show ?thesis by (simp add: hundreds_def)
qed

text \<open>One request: a hundred events, and the cursor of the last of them.\<close>

lemma one_hundred:
  assumes "events_ok w" and "collect_res (sync_event_of w team) (game_events w g after) = Inr evs"
  shows "sync_events w g team (int after)
    = Inr (cursor_after after (take 100 (game_events w g after)), concat (take 100 evs))"
proof -
  let ?es = "game_events w g after"
  have rows: "sync_rows w g after = take 100 ?es"
    using sorted_events(1) [OF assms(1), of g after] by (simp add: sync_rows_def game_events_def)
  have "res_bind (collect_res (sync_event_of w team) (take 100 ?es)) (\<lambda>as.
      res_bind (collect_res (sync_event_of w team) (drop 100 ?es)) (\<lambda>bs. Inr (as @ bs))) = Inr evs"
    using assms(2) by (simp flip: collect_res_append)
  then obtain as bs where ab: "collect_res (sync_event_of w team) (take 100 ?es) = Inr as"
    "collect_res (sync_event_of w team) (drop 100 ?es) = Inr bs" "evs = as @ bs"
    by (auto simp: res_bind_eq_Inr)
  have "length as = min 100 (length ?es)" "length bs = length ?es - 100"
    using collect_res_length [OF ab(1)] collect_res_length [OF ab(2)] by simp_all
  then have "take 100 evs = as" using ab(3) by (auto simp: min_def split: if_splits)
  then show ?thesis by (simp add: sync_events_def rows ab(1) Let_def cursor_after_def del: take_eq_Nil)
qed

lemma rest_of_events:
  assumes "events_ok w" and "game_events w g after \<noteq> []"
  shows "game_events w g (cursor_after after (take 100 (game_events w g after))) = drop 100 (game_events w g after)"
    and "cursor_after after (take 100 (game_events w g after)) \<noteq> after"
proof -
  let ?es = "game_events w g after" and ?xs = "take 100 (game_events w g after)"
  have ne: "?xs \<noteq> []" using assms(2) by simp
  then have c: "cursor_after after ?xs = re_id (last ?xs)" by (simp add: cursor_after_def)
  show "game_events w g (cursor_after after ?xs) = drop 100 ?es"
    unfolding c by (rule game_events_rest [OF assms(1) _ ne, where after = after]) simp
  have "last ?xs \<in> set ?es" using ne last_in_set in_set_takeD by metis
  then show "cursor_after after ?xs \<noteq> after" unfolding c by (simp add: game_events_def)
qed

lemma rest_collected:
  assumes "collect_res f xs = Inr ys"
  shows "collect_res f (drop n xs) = Inr (drop n ys)"
  using assms
proof (induction xs arbitrary: n ys)
  case (Cons x xs)
  then show ?case by (cases n) (auto split: sum.splits)
qed simp

text \<open>The replies of a client: the k-th is the k-th hundred and the cursor after it.\<close>

definition replies :: "nat \<Rightarrow> release_event list \<Rightarrow> sync_event list list \<Rightarrow> (nat \<times> sync_event list) list" where
  "replies after es evs =
     map (\<lambda>k. (cursor_after after (take (100 * Suc k) es), concat (take 100 (drop (100 * k) evs))))
       [0..<Suc (hundreds (length es))]"

lemma replies_step:
  assumes "es \<noteq> []"
  shows "replies after es evs = (cursor_after after (take 100 es), concat (take 100 evs))
    # replies (cursor_after after (take 100 es)) (drop 100 es) (drop 100 evs)"
proof -
  have upt: "[0..<Suc (hundreds (length es))] = 0 # map Suc [0..<Suc (hundreds (length (drop 100 es)))]"
    using hundreds_minus [of "length es"] assms by (simp add: map_Suc_upt upt_conv_Cons del: upt_Suc)
  have tk: "take (100 * Suc (Suc k)) es = take 100 es @ take (100 * Suc k) (drop 100 es)" for k
    using take_add [of 100 "100 * Suc k" es] by simp
  show ?thesis
    unfolding replies_def upt
    by (simp add: tk cursor_after_append drop_drop add.commute del: upt_Suc mult_Suc_right take_eq_Nil)
      (simp add: drop_drop add.commute)
qed

lemma replies_together:
  assumes "length es = length evs"
  shows "concat (map snd (replies after es evs)) = concat evs"
  using assms
proof (induction "length evs" arbitrary: after es evs rule: less_induct)
  case less
  show ?case
  proof (cases "es = []")
    case True
    with less.prems show ?thesis by (simp add: replies_def hundreds_def)
  next
    case False
    then have "evs \<noteq> []" using less.prems by auto
    then have "concat (map snd (replies (cursor_after after (take 100 es)) (drop 100 es) (drop 100 evs)))
        = concat (drop 100 evs)"
      using less.prems by (intro less.hyps) auto
    then show ?thesis
      by (simp add: replies_step [OF False] flip: concat_append)
  qed
qed

lemma follow_replies:
  assumes "events_ok w" and "collect_res (sync_event_of w team) (game_events w g after) = Inr evs"
  shows "follow w g team m after = (if m \<le> hundreds (length (game_events w g after)) then None
    else Some (Inr (replies after (game_events w g after) evs)))"
  using assms(2)
proof (induction m arbitrary: after evs)
  case (Suc m)
  let ?es = "game_events w g after" and ?c = "cursor_after after (take 100 (game_events w g after))"
  note req = one_hundred [OF assms(1) Suc.prems]
  show ?case
  proof (cases "?es = []")
    case True
    then have "evs = []" using Suc.prems by simp
    with True show ?thesis by (simp add: req cursor_after_def replies_def hundreds_def)
  next
    case False
    note rest = rest_of_events [OF assms(1) False]
    have "collect_res (sync_event_of w team) (game_events w g ?c) = Inr (drop 100 evs)"
      unfolding rest(1) by (rule rest_collected [OF Suc.prems])
    note ih = Suc.IH [OF this, unfolded rest(1)]
    show ?thesis
      using False rest(2) hundreds_minus [of "length ?es"]
      by (simp add: req ih replies_step [OF False, of after evs])
  qed
qed simp

text \<open>
  C21: every event is delivered once. A client that starts with a cursor and keeps asking with the
  cursor it was given, until the cursor does not move, stops after as many requests as there are hundreds
  of events of the game after its first cursor, and one more, and no sooner. Its k-th reply holds what
  the k-th hundred of these events says, in the order of their identifiers, and the identifier of the
  last of them as the cursor; so all replies together hold every event, each once.
\<close>

theorem cursor_delivers_every_event:
  assumes "events_ok w" and "collect_res (sync_event_of w team) (game_events w g after) = Inr evs"
  shows "\<exists>rs. (\<forall>m. follow w g team m after = (if m \<le> (length evs + 99) div 100 then None else Some (Inr rs)))
    \<and> length rs = (length evs + 99) div 100 + 1
    \<and> (\<forall>k < length rs. snd (rs ! k) = concat (take 100 (drop (100 * k) evs))
        \<and> fst (rs ! k) = (let seen = take (100 * (k + 1)) (game_events w g after)
            in if seen = [] then after else re_id (last seen)))
    \<and> concat (map snd rs) = concat evs
    \<and> length (game_events w g after) = length evs \<and> distinct (map re_id (game_events w g after))
    \<and> sorted (map re_id (game_events w g after))
    \<and> set (game_events w g after) = {e \<in> set (rw_events w). re_game e = g \<and> after < re_id e}"
proof (intro exI conjI)
  let ?es = "game_events w g after" and ?rs = "replies after (game_events w g after) evs"
  have srt: "sorted_wrt (<) (map re_id ?es)"
    using assms(1) by (simp add: events_ok_def game_events_def sorted_wrt_map sorted_wrt_filter)
  then show "distinct (map re_id ?es)" "sorted (map re_id ?es)" by (simp_all add: strict_sorted_iff)
  show len: "length ?es = length evs" by (simp add: collect_res_length [OF assms(2)])
  show "\<forall>m. follow w g team m after = (if m \<le> (length evs + 99) div 100 then None else Some (Inr ?rs))"
    by (simp add: follow_replies [OF assms] len hundreds_def)
  show "length ?rs = (length evs + 99) div 100 + 1" by (simp add: replies_def len hundreds_def)
  show "\<forall>k < length ?rs. snd (?rs ! k) = concat (take 100 (drop (100 * k) evs))
      \<and> fst (?rs ! k) = (let seen = take (100 * (k + 1)) ?es in if seen = [] then after else re_id (last seen))"
    by (simp add: replies_def cursor_after_def Let_def del: upt_Suc take_eq_Nil mult_Suc_right)
  show "concat (map snd ?rs) = concat evs" by (rule replies_together [OF len])
  show "set ?es = {e \<in> set (rw_events w). re_game e = g \<and> after < re_id e}" by (auto simp: game_events_def)
qed

section \<open>Editing\<close>

lemma collect_res_mem: "collect_res f xs = Inr ys \<Longrightarrow> y \<in> set ys \<Longrightarrow> \<exists>x \<in> set xs. f x = Inr y"
  by (induction xs arbitrary: ys) (auto split: sum.splits)

lemma get_admin_SomeE:
  assumes "get_admin w g p = Inr (Some c)"
  shows "pa_id c = p \<and> pa_released c = phase_released w p"
proof -
  obtain ps where ps: "list_admin w g = Inr ps" "find (\<lambda>x. pa_id x = p) ps = Some c"
    using assms by (auto simp: get_admin_def res_bind_eq_Inr)
  from ps(2) have "c \<in> set ps" "pa_id c = p" by (auto simp: find_Some_iff)
  then obtain ph where "admin_phase w ph = Inr c"
    using ps(1) collect_res_mem unfolding list_admin_def by metis
  then have "pa_id c = ph_id ph" "pa_released c = phase_released w (ph_id ph)"
    by (auto simp: admin_phase_def res_bind_eq_Inr)
  with \<open>pa_id c = p\<close> show ?thesis by simp
qed

lemma update_rows_same: "(\<And>r. r \<in> set rs \<Longrightarrow> p r \<Longrightarrow> f r = r) \<Longrightarrow> update_rows p f rs = rs"
  by (simp add: update_rows_def map_idI)

text \<open>
  C22: edits respect what is released. An edit that is accepted leaves the database of a released phase
  as it is (its time and its feature changes included) and can change only its title and description;
  and no edit moves any phase to a time that is not in the future.
\<close>

theorem edits_respect_releases:
  assumes "edit_phase now g p body w = (PhaseOk pa, w')"
  shows "(phase_released w p \<longrightarrow> rw_db w' = rw_db w
      \<and> map (\<lambda>i. (pi_phase i, pi_content i, pi_visibility i)) (rw_infos w')
        = map (\<lambda>i. (pi_phase i, pi_content i, pi_visibility i)) (rw_infos w))
    \<and> list_all2 (\<lambda>ph ph'. ph_id ph' = ph_id ph \<and> (ph_release_at ph' = ph_release_at ph
        \<or> (ph_id ph = p \<and> now < ph_release_at ph'))) (phases (rw_db w)) (phases (rw_db w'))"
proof -
  obtain current where c: "get_admin w g p = Inr (Some current)"
    using assms by (auto simp: edit_phase_def split: sum.splits option.splits)
  let ?mine = "\<lambda>ph. ph_game ph = g \<and> ph_id ph = p"
  let ?f = "\<lambda>ph. ph\<lparr>ph_release_at := patch (pu_release_at body) (ph_release_at ph)\<rparr>"
  let ?d1 = "(rw_db w)\<lparr>phases := update_rows ?mine ?f (phases (rw_db w))\<rparr>"
  have future: "\<not> given (pu_release_at body) (\<lambda>at. at \<le> now)"
    and frozen: "phase_released w p \<Longrightarrow> pu_content body = None \<and> pu_release_at body = None
      \<and> pu_visibility body = None \<and> pu_changes body = None"
    and "\<exists>w1. update_admin g p body w = (Inr (Some pa), w1) \<and> w' = wake_scheduler w1"
    using assms c get_admin_SomeE [OF c] by (auto simp: edit_phase_def split: if_splits sum.splits option.splits prod.splits)
  then obtain w1 where u: "update_admin g p body w = (Inr (Some pa), w1)" and w': "w' = wake_scheduler w1" by blast
  obtain d2 where d2: "(case pu_changes body of None \<Rightarrow> Inr ?d1 | Some cs \<Rightarrow> replace_changes_conn g p cs ?d1) = Inr d2"
    and w1: "w1 = with_db (\<lambda>_. d2) w\<lparr>rw_infos := update_rows (\<lambda>i. pi_phase i = p) (update_info body) (rw_infos w)\<rparr>"
    using u by (auto simp: update_admin_def Let_def split: if_splits sum.splits)
  have db: "rw_db w' = d2" and infos: "rw_infos w' = update_rows (\<lambda>i. pi_phase i = p) (update_info body) (rw_infos w)"
    by (simp_all add: w' wake_scheduler_def w1 rw_db_def with_db_def)
  have ins: "insert_changes g p cs d = Inr d' \<Longrightarrow> phases d' = phases d" for cs d d'
    by (induction cs arbitrary: d) (fastforce simp: res_bind_eq_Inr split: if_splits)+
  have "phases d2 = phases ?d1"
    using d2 ins by (cases "pu_changes body") (auto simp: replace_changes_conn_def)
  then have "list_all2 (\<lambda>ph ph'. ph_id ph' = ph_id ph \<and> (ph_release_at ph' = ph_release_at ph
      \<or> (ph_id ph = p \<and> now < ph_release_at ph'))) (phases (rw_db w)) (phases (rw_db w'))"
    using future by (auto simp: db update_rows_def list.rel_map patch_def given_def intro!: list.rel_refl_strong
        split: option.splits)
  moreover have "rw_db w' = rw_db w \<and> map (\<lambda>i. (pi_phase i, pi_content i, pi_visibility i)) (rw_infos w')
      = map (\<lambda>i. (pi_phase i, pi_content i, pi_visibility i)) (rw_infos w)" if "phase_released w p"
  proof -
    have "update_rows ?mine ?f (phases (rw_db w)) = phases (rw_db w)"
      using frozen [OF that] by (intro update_rows_same) (simp add: patch_def)
    then show ?thesis
      using frozen [OF that] d2 by (simp add: db infos update_rows_def update_info_def patch_def)
  qed
  ultimately show ?thesis by blast
qed

section \<open>An interruption\<close>

text \<open>
  An interrupted release keeps the old board. The feature changes of an event commit before the
  board is told. If the process stops in between, the event stays pending and is worked off again, but
  then the changes are already applied and count as none: the process finishes without ever asking for
  the board to be rebuilt, although the phase locked or unlocked it.
\<close>

theorem interrupted_release_keeps_board:
  assumes "apply_phase ev w = Inr (True, w1)"
  shows "\<exists>w2. process_event now ev w1 = (None, w2) \<and> bw_refresh (rw_board w2) = bw_refresh (rw_board w1)
    \<and> bw_dirty (rw_board w2) = bw_dirty (rw_board w1)
    \<and> (\<exists>w3. process_event now ev w = (None, w3)
        \<and> re_game ev \<in> set (dirty_games (rw_board w3)))"
proof -
  obtain ph d1 where ph: "re_phase ev = Some ph" "apply_phase_changes (re_game ev) ph (re_at ev) (rw_db w) = Inr (True, d1)"
    and w1: "w1 = with_db (\<lambda>_. d1) w"
    using assms by (auto simp: apply_phase_def res_bind_eq_Inr split: option.splits)
  have again: "apply_phase ev w1 = Inr (False, w1)"
    using apply_phase_again [OF ph(2)] by (simp add: apply_phase_def ph(1) w1 with_db_def rw_db_def)
  have fold_dirty: "bw_dirty (rw_board (fold (\<lambda>t. with_db (f t)) ts v)) = bw_dirty (rw_board v)" for f ts v
    by (induction ts arbitrary: v) simp_all
  have quiet: "bw_refresh (rw_board (mark_notified now i (refresh_released now ev (mark_content_blocks_dirty j k v))))
      = bw_refresh (rw_board v) \<and> bw_dirty (rw_board (mark_notified now i (refresh_released now ev
        (mark_content_blocks_dirty j k v)))) = bw_dirty (rw_board v)" for i j k v
    by (simp add: mark_notified_def refresh_released_def fold_with_db fold_dirty mark_content_blocks_dirty_def)
  let ?rest = "\<lambda>v. mark_notified now (re_id ev) (refresh_released now ev (mark_content_blocks_dirty (re_id ev) (re_phase ev) v))"
  have "process_event now ev w1 = (None, ?rest w1)"
    by (simp add: process_event_def again)
  moreover have "process_event now ev w = (None, ?rest (invalidate_board (re_game ev) w1))"
    by (simp add: process_event_def assms)
  moreover have "re_game ev \<in> set (dirty_games (rw_board (?rest (invalidate_board (re_game ev) w1))))"
  proof -
    have "\<exists>r \<in> set (bw_refresh (mark_game_dirty g b)). rs_game r = g \<and> rs_full r" for g b
      by (cases "exists_row (\<lambda>r. rs_game r = g) (bw_refresh b)")
        (auto simp: mark_game_dirty_def bex_update_rows exists_row_iff)
    then obtain r where "r \<in> set (bw_refresh (mark_game_dirty (re_game ev) (rw_board w1)))"
        "rs_game r = re_game ev" "rs_full r" by blast
    then have "r \<in> set (bw_refresh (rw_board (?rest (invalidate_board (re_game ev) w1))))"
      by (simp add: quiet invalidate_board_def invalidate_game_def)
    then show ?thesis
      using \<open>rs_game r = _\<close> \<open>rs_full r\<close> unfolding dirty_games_set Un_iff full_games_iff by blast
  qed
  ultimately show ?thesis using quiet by blast
qed

section \<open>A sample\<close>

text \<open>Phase 5 of game 2 locks the leaderboard at time 10.\<close>

definition release_sample :: release_world where
  "release_sample = \<lparr>rw_board = board_sample\<lparr>bw_db := board_db\<lparr>
       games := [\<lparr>g_id = 2, g_active = True, g_max_members = None, g_allow_duplicate_names = True\<rparr>],
       features := [\<lparr>f_game = 2, f_type = 3, f_state = 0, f_phase = None, f_utime = 0\<rparr>],
       phases := [\<lparr>ph_id = 5, ph_game = 2, ph_release_at = 10\<rparr>],
       phase_changes := [\<lparr>pc_phase = 5, pc_game = 2, pc_type = 3, pc_target = 1\<rparr>]\<rparr>\<rparr>,
     rw_infos = [\<lparr>pi_phase = 5, pi_title = [97], pi_description = [], pi_content = 0, pi_visibility = 0\<rparr>],
     rw_events = [], rw_next = 8, rw_event_puzzles = [], rw_event_teams = [], rw_woken = False\<rparr>"

definition sample_event :: release_event where
  "sample_event = \<lparr>re_id = 8, re_phase = Some 5, re_game = 2, re_type = event_phase, re_at = 10, re_notified = None\<rparr>"

lemma release_sample_ok: "events_ok release_sample" "rw_events release_sample = []"
  by (simp_all add: events_ok_def release_sample_def rw_db_def)

lemma release_sample_events: "rw_events (materialize_due 11 release_sample) = [sample_event]"
  by (simp add: materialize_due_def release_sample_def rw_db_def due_phases_def sample_event_def exists_row_def)

lemma sample_apply:
  assumes "rw_db w = rw_db release_sample"
  shows "\<exists>w1. apply_phase sample_event w = Inr (True, w1)"
proof -
  have "decode_state Leaderboard 1 = Some Locked" "feature_from_value 3 = Some Leaderboard"
    by (simp_all add: decode_state_def feature_from_value_def all_features_def)
  then have "\<exists>d. apply_phase_changes 2 5 10 (rw_db release_sample) = Inr (True, d)"
    by (simp add: apply_phase_changes_def release_sample_def rw_db_def board_db_def empty_db_def set_state_conn_def
        history_exists_def exists_row_def find_feature_def leaderboard_step_def)
  with assms show ?thesis by (auto simp: apply_phase_def sample_event_def)
qed

lemma release_pass_settles_witness:
  "\<exists>w'. process_due_releases_with_lock 11 False True release_sample = (None, w') \<and> phase_released w' 5
    \<and> pending_notifications w' = []"
proof -
  let ?w = "materialize_due 11 release_sample"
  obtain w1 where "apply_phase sample_event ?w = Inr (True, w1)"
    using sample_apply [of ?w] by auto
  then have "\<exists>w'. process_events 11 [sample_event] ?w = (None, w')" by (simp add: process_event_def Let_def)
  moreover have "pending_notifications ?w = [sample_event]"
    by (simp add: pending_notifications_def release_sample_events) (simp add: sample_event_def)
  ultimately obtain w' where w': "process_due_releases_with_lock 11 False True release_sample = (None, w')"
    by (auto simp: process_due_releases_with_lock_def process_due_releases_locked_def Let_def)
  have "\<exists>ph \<in> set (phases (rw_db release_sample)). ph_id ph = 5 \<and> ph_release_at ph \<le> 11"
    by (simp add: release_sample_def rw_db_def)
  with release_pass_settles [OF w' release_sample_ok(1)] w' show ?thesis by blast
qed

lemma interrupted_release_keeps_board_witness:
  "\<exists>w1 w2. apply_phase sample_event release_sample = Inr (True, w1) \<and> process_event 11 sample_event w1 = (None, w2)
    \<and> bw_refresh (rw_board w2) = bw_refresh (rw_board w1)"
proof -
  obtain w1 where a: "apply_phase sample_event release_sample = Inr (True, w1)"
    using sample_apply by blast
  from interrupted_release_keeps_board [OF a, of 11] a show ?thesis by blast
qed

lemma cursor_delivers_every_event_witness:
  "\<exists>phase. follow (materialize_due 11 release_sample) 2 None 2 3
     = Some (Inr [(8, [PhaseReleased 8 10 phase []]), (8, [])])"
proof -
  let ?w = "materialize_due 11 release_sample"
  have ok: "events_ok ?w" by (rule materialize_effect [OF release_sample_ok(1)])
  have ev: "game_events ?w 2 3 = [sample_event]"
    by (simp add: game_events_def release_sample_events) (simp add: sample_event_def)
  obtain phase where "get_player_phase ?w 5 = Some phase"
    by (simp add: get_player_phase_def release_sample_def find_info_def rw_db_def materialize_due_def Let_def case_prod_beta)
  then have "collect_res (sync_event_of ?w None) (game_events ?w 2 3) = Inr [[PhaseReleased 8 10 phase []]]"
    by (simp add: ev sync_event_of_def released_puzzles_def Let_def) (simp add: sample_event_def)
  from cursor_delivers_every_event [OF ok this] obtain rs where
    rs: "follow ?w 2 None 2 3 = Some (Inr rs)" "length rs = 2"
      "\<forall>k < length rs. snd (rs ! k) = concat (take 100 (drop (100 * k) [[PhaseReleased 8 10 phase []]]))
        \<and> fst (rs ! k) = (let seen = take (100 * (k + 1)) [sample_event] in if seen = [] then 3 else re_id (last seen))"
    by (auto simp: ev)
  have "rs = [rs ! 0, rs ! 1]" using rs(2) by (simp add: list_eq_iff_nth_eq less_2_cases_iff)
  moreover have "rs ! 0 = (8, [PhaseReleased 8 10 phase []])" "rs ! 1 = (8, [])"
    using rs(3) [rule_format, of 0] rs(3) [rule_format, of 1] rs(2) by (simp_all add: prod_eq_iff Let_def sample_event_def)
  ultimately show ?thesis using rs(1) by metis
qed

lemma edits_respect_releases_witness:
  "\<exists>pa w'. edit_phase 4 2 5 \<lparr>pu_title = None, pu_description = None, pu_content = None, pu_release_at = Some 20,
      pu_visibility = None, pu_changes = None\<rparr> release_sample = (PhaseOk pa, w')
    \<and> list_all2 (\<lambda>ph ph'. ph_id ph' = ph_id ph \<and> (ph_release_at ph' = ph_release_at ph
        \<or> (ph_id ph = 5 \<and> 4 < ph_release_at ph'))) (phases (rw_db release_sample)) (phases (rw_db w'))"
proof -
  let ?body = "\<lparr>pu_title = None, pu_description = None, pu_content = None, pu_release_at = Some 20,
      pu_visibility = None, pu_changes = None\<rparr>"
  have dec: "decode_state Leaderboard 1 = Some Locked" "feature_from_value 3 = Some Leaderboard"
    by (simp_all add: decode_state_def feature_from_value_def all_features_def)
  have "\<exists>pa w'. edit_phase 4 2 5 ?body release_sample = (PhaseOk pa, w')"
    by (simp add: edit_phase_def get_admin_def list_admin_def release_sample_def rw_db_def admin_phase_def
        load_changes_def dec find_info_def phase_released_def exists_row_def given_def update_admin_def Let_def
        time_taken_def with_db_def update_rows_def patch_def update_info_def)
  then obtain pa w' where e: "edit_phase 4 2 5 ?body release_sample = (PhaseOk pa, w')" by blast
  from edits_respect_releases [OF e] e show ?thesis by blast
qed

end
