(* ===== verification/Puzzle_Rules.thy ===== *)
theory Puzzle_Rules
  imports Game_Settings Submit
begin

text \<open>
  The JSON documents of a puzzle and their validation: \<^verbatim>\<open>src/api/admin/puzzle.rs\<close>, with the decoders of
  \<^verbatim>\<open>src/game/judge.rs\<close> and \<^verbatim>\<open>src/db/puzzle.rs\<close> that read the same documents when an answer is
  judged. As for the settings, a struct is read from an object, ignoring unknown keys, or from an array
  of its fields in order, of which only trailing defaults may be missing.
\<close>

section \<open>Decoders\<close>

definition field :: "(ustr \<times> json) list \<Rightarrow> string \<Rightarrow> json" where
  "field m key = unwrap_null (map_of m (lit key))"

fun decode_list :: "(json \<Rightarrow> 'a option) \<Rightarrow> json \<Rightarrow> 'a list option" where
  "decode_list d (JArr vs) = those (map d vs)"
| "decode_list d _ = None"

fun decode_str :: "json \<Rightarrow> ustr option" where
  "decode_str (JStr s) = Some s"
| "decode_str _ = None"

fun decode_int :: "(int \<Rightarrow> bool) \<Rightarrow> json \<Rightarrow> int option" where
  "decode_int inr (JInt n) = (if inr n then Some n else None)"
| "decode_int inr _ = None"

definition make_rule ::
  "json \<Rightarrow> json \<Rightarrow> json \<Rightarrow> json \<Rightarrow> json \<Rightarrow> json \<Rightarrow> json option \<Rightarrow> judge_rule option" where
  "make_rule ty text act result ans func trigs =
     (case (decode_opt_str ty, decode_opt_str text, decode_opt_str act, decode_opt_str result,
         decode_opt_str ans, decode_opt_str func,
         case trigs of None \<Rightarrow> Some [] | Some v \<Rightarrow> decode_list decode_str v) of
        (Some ty, Some text, Some act, Some result, Some ans, Some func, Some trigs) \<Rightarrow>
          Some \<lparr>jr_type = ty, jr_text = text, jr_action = act, jr_result = result, jr_answer = ans,
            jr_function = func, jr_triggers = trigs\<rparr>
      | _ \<Rightarrow> None)"

fun decode_rule :: "json \<Rightarrow> judge_rule option" where
  "decode_rule (JObj m) =
     make_rule (field m ''type'') (field m ''text'') (field m ''action'') (field m ''result'')
       (field m ''answer'') (field m ''function'') (map_of m (lit ''triggers''))"
| "decode_rule (JArr [a, b, c, d, e, f]) = make_rule a b c d e f None"
| "decode_rule (JArr [a, b, c, d, e, f, g]) = make_rule a b c d e f (Some g)"
| "decode_rule _ = None"

definition decode_judge :: "json \<Rightarrow> judge_rule list option" where
  "decode_judge = decode_list decode_rule"

definition penalty_type_of :: "int \<Rightarrow> penalty_type option" where
  "penalty_type_of n =
     (if n = 0 then Some PenaltyNo else if n = 1 then Some FixedTime
      else if n = 2 then Some LinearTime else if n = 3 then Some CurrencyPenalty else None)"

definition make_penalty :: "json \<Rightarrow> json \<Rightarrow> penalty_rule option" where
  "make_penalty ty args =
     (case (Option.bind (decode_int (\<lambda>_. True) ty) penalty_type_of, decode_list (decode_int in_i64) args) of
        (Some ty, Some args) \<Rightarrow> Some \<lparr>pn_type = ty, pn_args = args\<rparr>
      | _ \<Rightarrow> None)"

fun decode_penalty_rule :: "json \<Rightarrow> penalty_rule option" where
  "decode_penalty_rule (JObj m) =
     (case (map_of m (lit ''type''), map_of m (lit ''args'')) of
        (Some ty, Some args) \<Rightarrow> make_penalty ty args
      | _ \<Rightarrow> None)"
| "decode_penalty_rule (JArr [ty, args]) = make_penalty ty args"
| "decode_penalty_rule _ = None"

definition decode_penalty :: "json \<Rightarrow> penalty_rule list option" where
  "decode_penalty = decode_list decode_penalty_rule"

definition make_requirement :: "json \<Rightarrow> json \<Rightarrow> json \<Rightarrow> requirement option" where
  "make_requirement tag cid minimum =
     (if tag \<noteq> JStr (lit ''currency_minimum'') then None
      else case (decode_int in_i32 cid, decode_int in_i64 minimum) of
          (Some c, Some m) \<Rightarrow> Some (CurrencyMinimum c m)
        | _ \<Rightarrow> None)"

fun decode_requirement :: "json \<Rightarrow> requirement option" where
  "decode_requirement (JObj m) =
     make_requirement (field m ''type'') (field m ''currency_id'') (field m ''minimum'')"
| "decode_requirement (JArr [tag, cid, minimum]) = make_requirement tag cid minimum"
| "decode_requirement _ = None"

definition decode_requirements :: "json \<Rightarrow> requirement list option" where
  "decode_requirements = decode_list decode_requirement"

section \<open>Validation\<close>

fun is_array :: "json \<Rightarrow> bool" where
  "is_array (JArr vs) = True"
| "is_array _ = False"

definition validate_json_shape :: "json \<Rightarrow> bool" where
  "validate_json_shape judge \<longleftrightarrow> is_object judge \<or> is_array judge"

definition good_trigger_item :: "json \<Rightarrow> bool" where
  "good_trigger_item v = (case v of JStr key \<Rightarrow> valid_trigger_key key | _ \<Rightarrow> False)"

definition good_triggers :: "json \<Rightarrow> bool" where
  "good_triggers v = (case v of JArr items \<Rightarrow> list_all good_trigger_item items | _ \<Rightarrow> False)"

definition nonempty_string :: "json option \<Rightarrow> bool" where
  "nonempty_string v = (case v of Some (JStr s) \<Rightarrow> s \<noteq> [] | _ \<Rightarrow> False)"

text \<open>What is asked of one object, before its values are looked at.\<close>

definition good_rule_object :: "(ustr \<times> json) list \<Rightarrow> bool" where
  "good_rule_object m \<longleftrightarrow>
     map_of m (lit ''action'') \<noteq> Some (JStr (lit ''pending''))
     \<and> (map_of m (lit ''type'') = Some (JStr (lit ''custom'')) \<longrightarrow> nonempty_string (map_of m (lit ''function'')))
     \<and> (case map_of m (lit ''triggers'') of None \<Rightarrow> True | Some v \<Rightarrow> good_triggers v)"

fun validate_judge_action :: "json \<Rightarrow> bool"
  and validate_judge_items :: "json list \<Rightarrow> bool"
  and validate_judge_values :: "(ustr \<times> json) list \<Rightarrow> bool" where
  "validate_judge_action (JArr items) = validate_judge_items items"
| "validate_judge_action (JObj m) = (good_rule_object m \<and> validate_judge_values m)"
| "validate_judge_action JNull = True"
| "validate_judge_action (JBool b) = True"
| "validate_judge_action (JInt n) = True"
| "validate_judge_action (JFloat x) = True"
| "validate_judge_action (JStr s) = True"
| "validate_judge_items [] = True"
| "validate_judge_items (v # vs) = (validate_judge_action v \<and> validate_judge_items vs)"
| "validate_judge_values [] = True"
| "validate_judge_values (kv # kvs) = (validate_judge_action (snd kv) \<and> validate_judge_values kvs)"

definition validate_ptype :: "int \<Rightarrow> bool" where
  "validate_ptype v \<longleftrightarrow> v = 0 \<or> v = 1"

definition validate_content_type :: "int \<Rightarrow> bool" where
  "validate_content_type v \<longleftrightarrow> v = 0 \<or> v = 1 \<or> v = 2"

definition validate_unlock_cond :: "ustr option \<Rightarrow> bool" where
  "validate_unlock_cond v =
     (case v of None \<Rightarrow> True
      | Some c \<Rightarrow> (case compile_gate_expr_uncached c of Inl e \<Rightarrow> False | Inr g \<Rightarrow> True))"

definition validate_slug :: "ustr \<Rightarrow> bool" where
  "validate_slug s =
     (case s of [] \<Rightarrow> False
      | first # chars \<Rightarrow> (is_ascii_alphabetic first \<or> first = 95)
          \<and> list_all (\<lambda>c. is_ascii_alphanumeric c \<or> c = 95 \<or> c = 45) chars)"

definition validate_slug_option :: "ustr option \<Rightarrow> bool" where
  "validate_slug_option v = (case v of None \<Rightarrow> True | Some s \<Rightarrow> validate_slug s)"

record puzzle_create =
  zc_slug :: "ustr option"
  zc_sort :: int
  zc_title :: ustr
  zc_ptype :: int
  zc_content :: ustr
  zc_content_type :: int
  zc_judge :: json
  zc_penalty :: json
  zc_requirements :: json
  zc_max_submit :: "int option"
  zc_unlock_cond :: "ustr option"
  zc_phase :: "nat option"
  zc_now :: bool
  zc_round :: nat
  zc_ticket_enabled :: bool
  zc_ticket_cooldown :: int

record puzzle_update =
  zu_slug :: "ustr option option"
  zu_sort :: "int option"
  zu_title :: "ustr option"
  zu_ptype :: "int option"
  zu_judge :: "json option"
  zu_penalty :: "json option"
  zu_requirements :: "json option"
  zu_max_submit :: "int option option"
  zu_unlock_cond :: "ustr option option"
  zu_phase :: "nat option option"
  zu_now :: "bool option"
  zu_round :: "nat option"
  zu_ticket_enabled :: "bool option"
  zu_ticket_cooldown :: "int option"

text \<open>An absent field of a patch is not checked.\<close>

definition absent_or :: "('a \<Rightarrow> bool) \<Rightarrow> 'a option \<Rightarrow> bool" where
  "absent_or P x = (case x of None \<Rightarrow> True | Some v \<Rightarrow> P v)"

definition validate_create :: "puzzle_create \<Rightarrow> bool" where
  "validate_create data \<longleftrightarrow>
     validate_ptype (zc_ptype data) \<and> validate_content_type (zc_content_type data)
     \<and> validate_slug_option (zc_slug data) \<and> zc_ticket_cooldown data \<ge> 0
     \<and> absent_or (\<lambda>v. v \<ge> 0) (zc_max_submit data)
     \<and> validate_unlock_cond (zc_unlock_cond data)
     \<and> validate_json_shape (zc_judge data) \<and> validate_judge_action (zc_judge data)
     \<and> is_array (zc_penalty data) \<and> is_array (zc_requirements data)
     \<and> \<not> (zc_now data \<and> zc_phase data \<noteq> None)"

definition validate_update :: "puzzle_update \<Rightarrow> bool" where
  "validate_update data \<longleftrightarrow>
     \<not> (zu_now data = Some False \<or> (zu_now data \<noteq> None \<and> zu_phase data \<noteq> None))
     \<and> absent_or validate_ptype (zu_ptype data)
     \<and> absent_or validate_slug_option (zu_slug data)
     \<and> absent_or (\<lambda>v. v \<ge> 0) (zu_ticket_cooldown data)
     \<and> absent_or (absent_or (\<lambda>v. v \<ge> 0)) (zu_max_submit data)
     \<and> absent_or (\<lambda>j. (is_object j \<or> is_array j) \<and> validate_judge_action j) (zu_judge data)
     \<and> absent_or is_array (zu_penalty data)
     \<and> absent_or is_array (zu_requirements data)
     \<and> absent_or validate_unlock_cond (zu_unlock_cond data)"

section \<open>Validation against the database\<close>

fun good_penalties :: "db \<Rightarrow> nat \<Rightarrow> bool \<Rightarrow> penalty_rule list \<Rightarrow> bool" where
  "good_penalties d game_id has_cooldown [] = True"
| "good_penalties d game_id has_cooldown (rule # rules) =
     (case pn_type rule of
        PenaltyNo \<Rightarrow> good_penalties d game_id has_cooldown rules
      | CurrencyPenalty \<Rightarrow>
          (case pn_args rule of
             currency_id # amount # _ \<Rightarrow>
               in_i32 currency_id \<and> currency_id > 0 \<and> amount > 0
               \<and> currency_belongs_to_game d game_id (nat currency_id)
               \<and> good_penalties d game_id has_cooldown rules
           | _ \<Rightarrow> False)
      | _ \<Rightarrow>
          \<not> has_cooldown
          \<and> (case pn_args rule of [] \<Rightarrow> False | value # _ \<Rightarrow> value \<ge> 0)
          \<and> good_penalties d game_id True rules)"

definition validate_penalty_currency :: "db \<Rightarrow> nat \<Rightarrow> json \<Rightarrow> bool" where
  "validate_penalty_currency d game_id penalty =
     (case decode_penalty penalty of None \<Rightarrow> False | Some rules \<Rightarrow> good_penalties d game_id False rules)"

fun good_requirements :: "db \<Rightarrow> nat \<Rightarrow> int list \<Rightarrow> requirement list \<Rightarrow> bool" where
  "good_requirements d game_id seen [] = True"
| "good_requirements d game_id seen (CurrencyMinimum currency_id minimum # rs) =
     (currency_id > 0 \<and> minimum > 0 \<and> currency_id \<notin> set seen
      \<and> currency_belongs_to_game d game_id (nat currency_id)
      \<and> good_requirements d game_id (currency_id # seen) rs)"

definition validate_submit_requirements :: "db \<Rightarrow> nat \<Rightarrow> json \<Rightarrow> bool" where
  "validate_submit_requirements d game_id value =
     (case decode_requirements value of
        None \<Rightarrow> False | Some rs \<Rightarrow> good_requirements d game_id [] rs)"

section \<open>Rules that can be judged\<close>

lemma those_Some: "those xs = Some ys \<longleftrightarrow> xs = map Some ys"
proof (induction xs arbitrary: ys)
  case (Cons x xs)
  then show ?case by (cases x; cases ys) (auto split: option.splits)
qed auto

lemma map_eq_map_Some: "map d vs = map Some ys \<Longrightarrow> list_all2 (\<lambda>v y. d v = Some y) vs ys"
  by (simp add: list_all2_conv_all_nth list_eq_iff_nth_eq)

lemma decode_list_rel: "decode_list d (JArr vs) = Some ys \<Longrightarrow> list_all2 (\<lambda>v y. d v = Some y) vs ys"
  by (simp add: those_Some map_eq_map_Some)

lemma decode_opt_str_Some: "decode_opt_str v = Some (Some s) \<longleftrightarrow> v = JStr s"
  by (cases v) auto

lemma decode_str_Some: "decode_str v = Some s \<longleftrightarrow> v = JStr s"
  by (cases v) auto

text \<open>What the loop of the judge relies on.\<close>

definition runnable :: "judge_rule \<Rightarrow> bool" where
  "runnable r \<longleftrightarrow> (is_custom r \<longrightarrow> jr_function r \<noteq> None) \<and> list_all valid_trigger_key (jr_triggers r)"

lemma make_rule_SomeE:
  assumes "make_rule ty text act result ans func trigs = Some r"
  obtains "decode_opt_str ty = Some (jr_type r)" "decode_opt_str func = Some (jr_function r)"
    "(case trigs of None \<Rightarrow> Some [] | Some v \<Rightarrow> decode_list decode_str v) = Some (jr_triggers r)"
  using assms by (simp add: make_rule_def split: option.split_asm) (metis judge_rule.select_convs(1,6,7))+

lemma validated_rule_runnable:
  assumes ok: "good_rule_object m" and r: "decode_rule (JObj m) = Some r"
  shows "runnable r"
proof -
  from r have ty: "decode_opt_str (field m ''type'') = Some (jr_type r)"
    and func: "decode_opt_str (field m ''function'') = Some (jr_function r)"
    and trigs: "(case map_of m (lit ''triggers'') of None \<Rightarrow> Some [] | Some v \<Rightarrow> decode_list decode_str v)
      = Some (jr_triggers r)"
    by (auto elim: make_rule_SomeE)
  have "jr_function r \<noteq> None" if "is_custom r"
  proof -
    have "field m ''type'' = JStr (lit ''custom'')"
      using ty that by (simp add: is_custom_def decode_opt_str_Some)
    then have "map_of m (lit ''type'') = Some (JStr (lit ''custom''))"
      by (simp add: field_def unwrap_null_def split: option.split_asm)
    then obtain s where "map_of m (lit ''function'') = Some (JStr s)"
      using ok by (auto simp: good_rule_object_def nonempty_string_def split: option.split_asm json.split_asm)
    with func have "jr_function r = Some s" by (simp add: field_def unwrap_null_def)
    then show ?thesis by simp
  qed
  moreover have "list_all valid_trigger_key (jr_triggers r)"
  proof (cases "map_of m (lit ''triggers'')")
    case (Some v)
    with ok obtain items where v: "v = JArr items" "list_all good_trigger_item items"
      by (auto simp: good_rule_object_def good_triggers_def split: json.split_asm)
    with trigs Some have "list_all2 (\<lambda>v y. decode_str v = Some y) items (jr_triggers r)"
      by (simp only: option.case) (rule decode_list_rel)
    then show ?thesis
      using v(2) by (induction rule: list_all2_induct) (auto simp: decode_str_Some good_trigger_item_def)
  qed (use trigs in simp)
  ultimately show ?thesis by (simp add: runnable_def)
qed

lemma validated_items_runnable:
  assumes "validate_judge_items items" and "list_all is_object items"
    and "list_all2 (\<lambda>v r. decode_rule v = Some r) items rules"
  shows "list_all runnable rules"
  using assms(3,1,2)
proof (induction rule: list_all2_induct)
  case (Cons v vs r rules)
  then obtain m where "v = JObj m" by (cases v) simp_all
  with Cons show ?case by (auto intro: validated_rule_runnable)
qed simp

lemma judge_runs:
  assumes "\<And>name s. \<exists>x s'. run name s = Inr (x, s')
      \<and> (\<forall>out. exe_value x = Some out \<longrightarrow> list_all valid_trigger_key (out_triggers out))"
    and "list_all runnable rules"
    and "list_all valid_trigger_key (res_triggers (jl_result st))"
  shows "\<exists>st'. submit_judge_loop run rules answer st = Inr st'
    \<and> list_all valid_trigger_key (res_triggers (jl_result st'))"
  using assms(2,3)
proof (induction rules arbitrary: st)
  case (Cons r rules)
  have "\<exists>st'. judge_loop_body run answer r st = Inr st'
      \<and> list_all valid_trigger_key (res_triggers (jl_result st'))"
  proof (cases "is_custom r")
    case True
    then obtain name where n: "jr_function r = Some name"
      using Cons.prems by (auto simp: runnable_def)
    obtain x s' where x: "run name (jl_state st) = Inr (x, s')"
      "\<forall>out. exe_value x = Some out \<longrightarrow> list_all valid_trigger_key (out_triggers out)"
      using assms(1) by blast
    with True n Cons.prems show ?thesis
      by (cases "exe_value x")
        (simp_all add: judge_loop_body_def is_custom_def result_of_output_def Let_def)
  next
    case False
    with Cons.prems show ?thesis
      by (simp add: judge_loop_body_def is_custom_def rule_result_def runnable_def)
  qed
  with Cons show ?case by fastforce
qed simp

lemma runnable_normalized: "runnable (normalize_rule lower r) = runnable r"
  by (simp add: runnable_def normalize_rule_def is_custom_def)

lemma runnable_value_to_judge:
  assumes "list_all runnable rules"
  shows "value_to_judge lower rules = Inr (map (normalize_rule lower) rules)"
  using assms by (fastforce simp: value_to_judge_def runnable_def list_all_iff)

text \<open>
  C39: accepted rules can be judged. When the rules of a puzzle pass the validation of the admin routes
  as an array of objects and decode, then every answer gets a verdict: reading the rules succeeds, and
  the loop of the judge ends without an error unless a script fails or names an invalid trigger. So
  there is no custom rule without a function and no invalid trigger key among them.
\<close>

theorem accepted_rules_can_be_judged:
  assumes "validate_judge_action (JArr items)" and "list_all is_object items"
    and "decode_judge (JArr items) = Some rules"
    and "\<And>name s. \<exists>x s'. run name s = Inr (x, s')
      \<and> (\<forall>out. exe_value x = Some out \<longrightarrow> list_all valid_trigger_key (out_triggers out))"
  shows "\<exists>rules' verdict. value_to_judge lower rules = Inr rules'
    \<and> submit_judge run rules' answer s = Inr verdict"
proof -
  have ok: "list_all runnable rules"
    using assms(1-3) validated_items_runnable decode_list_rel unfolding decode_judge_def by fastforce
  then have ok': "list_all runnable (map (normalize_rule lower) rules)"
    by (simp add: list_all_iff runnable_normalized)
  let ?st = "\<lparr>jl_result = default_result, jl_events = [], jl_state = s, jl_done = False\<rparr>"
  obtain st' where "submit_judge_loop run (map (normalize_rule lower) rules) answer ?st = Inr st'"
    "list_all valid_trigger_key (res_triggers (jl_result st'))"
    using judge_runs [where run = run and st = ?st, OF assms(4) ok'] by (auto simp: default_result_def)
  then have "submit_judge run (map (normalize_rule lower) rules) answer s
      = Inr (jl_result st', jl_events st', jl_state st')"
    by (auto simp: submit_judge_def list_all_iff)
  with runnable_value_to_judge [OF ok] show ?thesis by blast
qed

definition sample_rule :: "(ustr \<times> json) list" where
  "sample_rule = [(lit ''type'', JStr (lit ''exact'')), (lit ''text'', JStr (lit ''Ab'')),
     (lit ''triggers'', JArr [JStr (lit ''k'')])]"

lemma accepted_rules_can_be_judged_witness:
  "\<exists>rules' verdict. value_to_judge (\<lambda>c. [c]) [blank_rule\<lparr>jr_type := Some (lit ''exact''),
      jr_text := Some (lit ''Ab''), jr_triggers := [lit ''k'']\<rparr>] = Inr rules'
    \<and> submit_judge (\<lambda>name s. Inr (\<lparr>exe_value = None, exe_events = []\<rparr> :: unit script_execution, s))
        rules' (lit ''Ab'') () = Inr verdict"
  by (rule accepted_rules_can_be_judged [of "[JObj sample_rule]"])
    (simp_all add: sample_rule_def good_rule_object_def good_triggers_def good_trigger_item_def
      decode_judge_def field_def make_rule_def blank_rule_def unwrap_null_def lit_def
      is_ascii_alphabetic_def str_len_ascii)

text \<open>
  C40: the validation accepts rules that cannot be judged. An object in place of the array of rules is
  accepted although no answer can be judged with it, and a custom rule without a function is accepted
  when it is written as an array of its fields, which the decoder reads like an object.
\<close>

theorem unusable_rules_are_accepted:
  "(\<exists>j. validate_json_shape j \<and> validate_judge_action j \<and> decode_judge j = None)
   \<and> (\<exists>j rules. validate_json_shape j \<and> validate_judge_action j \<and> decode_judge j = Some rules
        \<and> (\<exists>rules'. value_to_judge lower rules = Inr rules'
            \<and> submit_judge run rules' answer s = Inl MissingFunction))"
proof -
  let ?j = "JArr [JArr [JStr (lit ''custom''), JNull, JNull, JNull, JNull, JNull]]"
  let ?r = "blank_rule\<lparr>jr_type := Some (lit ''custom'')\<rparr>"
  have "validate_json_shape (JObj []) \<and> validate_judge_action (JObj []) \<and> decode_judge (JObj []) = None"
    by (simp add: validate_json_shape_def good_rule_object_def decode_judge_def)
  moreover have "validate_json_shape ?j \<and> validate_judge_action ?j \<and> decode_judge ?j = Some [?r]"
    by (simp add: validate_json_shape_def decode_judge_def make_rule_def blank_rule_def)
  moreover have "value_to_judge lower [?r] = Inr [?r]"
    by (simp add: value_to_judge_def normalize_rule_def blank_rule_def lit_def)
  moreover have "submit_judge run [?r] answer s = Inl MissingFunction"
    by (simp add: submit_judge_def judge_loop_body_def blank_rule_def lit_def)
  ultimately show ?thesis by blast
qed

end
