(* ===== verification/Ticket.thy ===== *)
theory Ticket
  imports Access Team Submit
begin

text \<open>
  Tickets and direct messages: \<^verbatim>\<open>src/db/ticket.rs\<close>, \<^verbatim>\<open>src/db/notification.rs\<close>. A direct message
  thread is a ticket without a puzzle. Names, avatars and mail addresses belong to the user of an
  identifier and are left out. An operation that ends before it commits returns the database
  unchanged.
\<close>

section \<open>Who may do what\<close>

definition state_closed :: int where "state_closed = 0"
definition state_open :: int where "state_open = 1"
definition by_team :: int where "by_team = 0"
definition by_host :: int where "by_host = 1"

definition find_ticket :: "db \<Rightarrow> nat \<Rightarrow> ticket_row option" where
  "find_ticket d ticket_id = find (\<lambda>tk. tk_id tk = ticket_id) (tickets d)"

definition find_message :: "db \<Rightarrow> nat \<Rightarrow> message_row option" where
  "find_message d message_id = find (\<lambda>m. ms_id m = message_id) (messages d)"

record ticket_user =
  tu_ticket :: nat
  tu_state :: int
  tu_member :: bool
  tu_mod :: bool
  tu_admin :: bool

definition get_ticket_user_info :: "user_row list \<Rightarrow> db \<Rightarrow> nat \<Rightarrow> nat \<Rightarrow> ticket_user option" where
  "get_ticket_user_info us d ticket_id user_id =
     (case (find_ticket d ticket_id, find_user us user_id) of
        (Some tk, Some u) \<Rightarrow>
          Some \<lparr>tu_ticket = ticket_id, tu_state = tk_state tk,
            tu_member = exists_row (\<lambda>m. m_team m = tk_team tk \<and> m_user m = user_id) (members d),
            tu_mod = is_moderator (role_of_i16 (u_role u)), tu_admin = is_admin (role_of_i16 (u_role u))\<rparr>
      | _ \<Rightarrow> None)"

datatype send_block = SendOk | NoAccess | TicketClosed | PendingReply | FeatureClosed | FeatureExistingOnly
  | TeamFeatureBanned

datatype feature_access = AccessOpen | ExistingOnly | GameClosed | AccessBanned

definition access_of_value :: "int \<Rightarrow> feature_access" where
  "access_of_value v =
     (if v = 2 then AccessOpen else if v = 1 then ExistingOnly
      else if v = - 2 then AccessBanned else GameClosed)"

fun access_block :: "feature_access \<Rightarrow> bool \<Rightarrow> send_block" where
  "access_block AccessOpen has_existing = SendOk"
| "access_block ExistingOnly has_existing = (if has_existing then SendOk else FeatureExistingOnly)"
| "access_block GameClosed has_existing = FeatureClosed"
| "access_block AccessBanned has_existing = TeamFeatureBanned"

text \<open>A missing row of the game's feature counts as 2, a missing row of the team's as enabled.\<close>

definition feature_state_or_open :: "db \<Rightarrow> nat \<Rightarrow> game_feature \<Rightarrow> int" where
  "feature_state_or_open d game_id f = (case find_feature d game_id f of None \<Rightarrow> 2 | Some r \<Rightarrow> f_state r)"

definition access_value :: "db \<Rightarrow> team_row \<Rightarrow> game_feature \<Rightarrow> int" where
  "access_value d t f =
     (if \<not> team_feature_enabled d (t_id t) f then - 2 else feature_state_or_open d (t_game t) f)"

definition player_ticket_feature_access :: "time \<Rightarrow> db \<Rightarrow> nat \<Rightarrow> feature_access" where
  "player_ticket_feature_access now d ticket_id =
     (case find_ticket d ticket_id of
        None \<Rightarrow> GameClosed
      | Some tk \<Rightarrow>
          (case find_team d (tk_team tk) of
             None \<Rightarrow> GameClosed
           | Some t \<Rightarrow>
               (let f = (if tk_puzzle tk = None then DirectMessage else PuzzleTicket) in
                access_of_value
                  (if \<not> team_feature_enabled d (t_id t) f then - 2
                   else if feature_state_or_open d (t_game t) f = 0 then 0
                   else if (case tk_puzzle tk of None \<Rightarrow> False | Some p \<Rightarrow> \<not> released now d p) then 0
                   else feature_state_or_open d (t_game t) f))))"

definition player_dm_feature_access :: "db \<Rightarrow> nat \<Rightarrow> feature_access" where
  "player_dm_feature_access d team_id =
     (case find_team d team_id of
        None \<Rightarrow> GameClosed
      | Some t \<Rightarrow> access_of_value (access_value d t DirectMessage))"

section \<open>Unanswered messages\<close>

definition is_pending :: "db \<Rightarrow> nat \<Rightarrow> message_row \<Rightarrow> bool" where
  "is_pending d ticket_id m \<longleftrightarrow> ms_ticket m = ticket_id \<and> ms_sender_type m = by_team
     \<and> \<not> exists_row (\<lambda>r. ms_ticket r = ms_ticket m \<and> ms_sender_type r = by_host \<and> ms_id r > ms_id m)
         (messages d)"

definition get_pending_count :: "db \<Rightarrow> nat \<Rightarrow> nat" where
  "get_pending_count d ticket_id = length (filter (is_pending d ticket_id) (messages d))"

definition reached :: "nat option \<Rightarrow> nat \<Rightarrow> bool" where
  "reached max_pending n = (case max_pending of None \<Rightarrow> False | Some k \<Rightarrow> n \<ge> k)"

definition calc_send_block :: "db \<Rightarrow> nat \<Rightarrow> int \<Rightarrow> bool \<Rightarrow> nat option \<Rightarrow> send_block" where
  "calc_send_block d ticket_id state can_send max_pending =
     (if \<not> can_send then NoAccess
      else if state = state_closed then TicketClosed
      else if reached max_pending (get_pending_count d ticket_id) then PendingReply
      else SendOk)"

section \<open>Messages\<close>

record shown_message =
  sm_id :: nat
  sm_sender :: nat
  sm_sender_type :: int
  sm_cost_id :: "nat option"
  sm_cost_amount :: int
  sm_unlocked :: bool
  sm_unlock_at :: "time option"
  sm_unlock_after :: int
  sm_content :: "ustr option"
  sm_content_type :: "int option"
  sm_ctime :: time
  sm_utime :: "time option"

definition message_open :: "time \<Rightarrow> message_row \<Rightarrow> bool" where
  "message_open now m \<longleftrightarrow> ms_unlocked m
     \<or> (ms_cost_id m = None \<and> (case ms_unlock_at m of None \<Rightarrow> False | Some t \<Rightarrow> t \<le> now))"

definition show_message :: "time \<Rightarrow> bool \<Rightarrow> message_row \<Rightarrow> shown_message" where
  "show_message now can_view_locked m =
     \<lparr>sm_id = ms_id m, sm_sender = ms_sender m, sm_sender_type = ms_sender_type m,
      sm_cost_id = ms_cost_id m, sm_cost_amount = ms_cost_amount m, sm_unlocked = message_open now m,
      sm_unlock_at = ms_unlock_at m, sm_unlock_after = ms_unlock_after m,
      sm_content = (if can_view_locked \<or> message_open now m then Some (ms_content m) else None),
      sm_content_type = (if can_view_locked \<or> message_open now m then Some (ms_content_type m) else None),
      sm_ctime = ms_ctime m, sm_utime = ms_utime m\<rparr>"

definition get_ticket_message :: "time \<Rightarrow> db \<Rightarrow> nat \<Rightarrow> bool \<Rightarrow> shown_message option" where
  "get_ticket_message now d message_id can_view_locked =
     map_option (show_message now can_view_locked) (find_message d message_id)"

record send_data =
  sd_content :: ustr
  sd_content_type :: int
  sd_sender :: nat
  sd_sender_type :: int
  sd_cost_id :: "nat option"
  sd_cost_amount :: int
  sd_unlock_after :: int

definition new_message :: "time \<Rightarrow> nat \<Rightarrow> nat \<Rightarrow> send_data \<Rightarrow> message_row" where
  "new_message now i ticket_id data =
     \<lparr>ms_id = i, ms_ticket = ticket_id, ms_content = sd_content data, ms_content_type = sd_content_type data,
      ms_sender = sd_sender data, ms_sender_type = sd_sender_type data, ms_cost_id = sd_cost_id data,
      ms_cost_amount = sd_cost_amount data,
      ms_unlocked = (sd_cost_id data = None \<and> sd_unlock_after data = 0),
      ms_unlock_at = (if sd_unlock_after data > 0 then Some (now + sd_unlock_after data * 1000000) else None),
      ms_unlock_after = sd_unlock_after data, ms_ctime = now, ms_utime = None\<rparr>"

definition reply_notification :: "time \<Rightarrow> db \<Rightarrow> nat \<Rightarrow> nat \<Rightarrow> nat \<Rightarrow> notification_row list" where
  "reply_notification now d ticket_id message_id sender_id =
     (case find_ticket d ticket_id of
        None \<Rightarrow> []
      | Some tk \<Rightarrow> [\<lparr>nt_id = next_id nt_id (notifications d), nt_team = tk_team tk, nt_kind = 1,
          nt_source = message_id, nt_actor = Some sender_id, nt_puzzle = tk_puzzle tk, nt_read = None,
          nt_ctime = now\<rparr>])"

definition insert_ticket_message_conn :: "time \<Rightarrow> nat \<Rightarrow> send_data \<Rightarrow> db \<Rightarrow> nat \<times> db" where
  "insert_ticket_message_conn now ticket_id data d =
     (let i = next_id ms_id (messages d);
          d1 = d\<lparr>messages := messages d @ [new_message now i ticket_id data]\<rparr>
      in (i, if sd_sender_type data = by_host
             then d1\<lparr>notifications := notifications d1 @ reply_notification now d1 ticket_id i (sd_sender data)\<rparr>
             else d1))"

definition update_ticket :: "(ticket_row \<Rightarrow> bool) \<Rightarrow> (ticket_row \<Rightarrow> ticket_row) \<Rightarrow> db \<Rightarrow> db" where
  "update_ticket p f d = d\<lparr>tickets := update_rows p f (tickets d)\<rparr>"

definition auto_assign_ticket_on_staff_message_conn :: "nat \<Rightarrow> send_data \<Rightarrow> db \<Rightarrow> db" where
  "auto_assign_ticket_on_staff_message_conn ticket_id data d =
     (if sd_sender_type data = by_host
      then update_ticket (\<lambda>tk. tk_id tk = ticket_id \<and> tk_assignee tk = None)
             (\<lambda>tk. tk\<lparr>tk_assignee := Some (sd_sender data)\<rparr>) d
      else d)"

text \<open>A host other than the assignee is stopped unless it insists.\<close>

definition other_assignee :: "ticket_row \<Rightarrow> int \<Rightarrow> nat \<Rightarrow> bool \<Rightarrow> nat option" where
  "other_assignee tk actor_type actor_id force =
     (if actor_type = by_host \<and> \<not> force \<and> tk_assignee tk \<noteq> Some actor_id then tk_assignee tk else None)"

datatype send_result = MessageSent shown_message | MessagePending | MessageAssigned nat

definition send_ticket_message ::
  "time \<Rightarrow> nat \<Rightarrow> send_data \<Rightarrow> nat option \<Rightarrow> bool \<Rightarrow> db \<Rightarrow> db_error + send_result \<times> db" where
  "send_ticket_message now ticket_id data max_pending force_assignee d =
     (case find_ticket d ticket_id of
        None \<Rightarrow> Inl db_error.RowNotFound
      | Some tk \<Rightarrow>
          (case other_assignee tk (sd_sender_type data) (sd_sender data) force_assignee of
             Some a \<Rightarrow> Inr (MessageAssigned a, d)
           | None \<Rightarrow>
               if sd_sender_type data = by_team \<and> reached max_pending (get_pending_count d ticket_id)
               then Inr (MessagePending, d)
               else (let d1 = auto_assign_ticket_on_staff_message_conn ticket_id data d;
                         (i, d2) = insert_ticket_message_conn now ticket_id data d1
                     in res_bind (ok_or (OtherError ''Inserted ticket message not found'')
                          (get_ticket_message now d2 i True)) (\<lambda>m. Inr (MessageSent m, d2)))))"

section \<open>Opening, closing and assigning\<close>

definition new_operation ::
  "time \<Rightarrow> db \<Rightarrow> nat \<Rightarrow> ticket_action \<Rightarrow> nat \<Rightarrow> int \<Rightarrow> nat option \<Rightarrow> ticket_operation_row" where
  "new_operation now d ticket_id action actor_id actor_type message_id =
     \<lparr>to_id = next_id to_id (ticket_operations d), to_ticket = ticket_id, to_action = action,
      to_actor = actor_id, to_actor_type = actor_type, to_message = message_id, to_ctime = now\<rparr>"

definition log_operation ::
  "time \<Rightarrow> nat \<Rightarrow> ticket_action \<Rightarrow> nat \<Rightarrow> int \<Rightarrow> nat option \<Rightarrow> db \<Rightarrow> db" where
  "log_operation now ticket_id action actor_id actor_type message_id d =
     d\<lparr>ticket_operations := ticket_operations d
         @ [new_operation now d ticket_id action actor_id actor_type message_id]\<rparr>"

definition insert_ticket :: "nat \<Rightarrow> nat option \<Rightarrow> db \<Rightarrow> nat \<times> db" where
  "insert_ticket team_id puzzle_id d =
     (let i = next_id tk_id (tickets d)
      in (i, d\<lparr>tickets := tickets d @ [\<lparr>tk_id = i, tk_team = team_id, tk_puzzle = puzzle_id,
           tk_state = state_open, tk_assignee = None\<rparr>]\<rparr>))"

definition get_dm_ticket_id :: "db \<Rightarrow> nat \<Rightarrow> nat option" where
  "get_dm_ticket_id d team_id =
     map_option tk_id (find (\<lambda>tk. tk_team tk = team_id \<and> tk_puzzle tk = None) (tickets d))"

definition get_or_create_dm_ticket_id :: "time \<Rightarrow> nat \<Rightarrow> nat \<Rightarrow> int \<Rightarrow> db \<Rightarrow> nat \<times> db" where
  "get_or_create_dm_ticket_id now team_id actor_id actor_type d =
     (case get_dm_ticket_id d team_id of
        Some i \<Rightarrow> (i, d)
      | None \<Rightarrow>
          (let (i, d1) = insert_ticket team_id None d
           in (i, log_operation now i OpOpen actor_id actor_type None d1)))"

datatype assign_result = AssignOk nat | AssignedOther nat | AssignNotFound

definition assign_ticket_self :: "nat \<Rightarrow> nat \<Rightarrow> bool \<Rightarrow> db \<Rightarrow> assign_result \<times> db" where
  "assign_ticket_self ticket_id user_id force d =
     (case find_ticket d ticket_id of
        None \<Rightarrow> (AssignNotFound, d)
      | Some tk \<Rightarrow>
          (case tk_assignee tk of
             Some a \<Rightarrow> if a \<noteq> user_id \<and> \<not> force then (AssignedOther a, d)
                else (AssignOk user_id, update_ticket (\<lambda>tk. tk_id tk = ticket_id)
                       (\<lambda>tk. tk\<lparr>tk_assignee := Some user_id\<rparr>) d)
           | None \<Rightarrow> (AssignOk user_id, update_ticket (\<lambda>tk. tk_id tk = ticket_id)
                       (\<lambda>tk. tk\<lparr>tk_assignee := Some user_id\<rparr>) d)))"

definition unassign_ticket :: "nat \<Rightarrow> nat \<Rightarrow> db \<Rightarrow> bool \<times> db" where
  "unassign_ticket ticket_id user_id d =
     (let mine = (\<lambda>tk. tk_id tk = ticket_id \<and> tk_assignee tk = Some user_id)
      in (exists_row mine (tickets d), update_ticket mine (\<lambda>tk. tk\<lparr>tk_assignee := None\<rparr>) d))"

definition ticket_event :: "string \<Rightarrow> nat \<Rightarrow> ticket_row \<Rightarrow> nat \<Rightarrow> event_row" where
  "ticket_event ty game_id tk user_id =
     (blank_event ty)\<lparr>ev_game := Some game_id, ev_team := Some (tk_team tk), ev_user := Some user_id,
       ev_puzzle := tk_puzzle tk\<rparr>"

datatype close_result = CloseOk "nat option" | AlreadyClosed | CloseAssigned nat

definition close_ticket ::
  "time \<Rightarrow> nat \<Rightarrow> nat \<Rightarrow> int \<Rightarrow> send_data option \<Rightarrow> bool \<Rightarrow> db \<Rightarrow> close_result \<times> db" where
  "close_ticket now ticket_id actor_id actor_type msg force_assignee d =
     (case find_ticket d ticket_id of
        None \<Rightarrow> (AlreadyClosed, d)
      | Some tk \<Rightarrow>
          (case find_team d (tk_team tk) of
             None \<Rightarrow> (AlreadyClosed, d)
           | Some t \<Rightarrow>
               if tk_state tk = state_closed then (AlreadyClosed, d)
               else case (if msg = None then None else other_assignee tk actor_type actor_id force_assignee) of
                   Some a \<Rightarrow> (CloseAssigned a, d)
                 | None \<Rightarrow>
                     (let d1 = update_ticket (\<lambda>tk. tk_id tk = ticket_id \<and> tk_state tk \<noteq> state_closed)
                            (\<lambda>tk. tk\<lparr>tk_state := state_closed\<rparr>) d;
                          (i, d2) = (case msg of
                              None \<Rightarrow> (None, d1)
                            | Some data \<Rightarrow>
                                (let (i, d2) = insert_ticket_message_conn now ticket_id data
                                      (auto_assign_ticket_on_staff_message_conn ticket_id data d1)
                                 in (Some i, d2)));
                          d3 = log_operation now ticket_id OpClose actor_id actor_type i d2
                      in (CloseOk i, insert_event (ticket_event ''ticket.closed'' (t_game t) tk actor_id) d3))))"

section \<open>Paying for a message\<close>

datatype message_purchase = PurchaseInsufficient | PurchaseUnavailable | PurchaseDone shown_message

text \<open>The charge counts only for a member of the team, in the currency's own game.\<close>

definition charge_member ::
  "time \<Rightarrow> nat \<Rightarrow> nat \<Rightarrow> nat \<Rightarrow> int \<Rightarrow> db \<Rightarrow> db_error + (int \<times> int) option \<times> db" where
  "charge_member now user_id team_id cid amount d =
     (case (find_currency d cid, find (member_of team_id user_id) (members d)) of
        (Some c, Some m) \<Rightarrow>
          if c_game c = m_game m then deduct now team_id cid (affords amount) amount d else Inr (None, d)
      | _ \<Rightarrow> Inr (None, d))"

definition purchasable :: "time \<Rightarrow> message_row \<Rightarrow> bool" where
  "purchasable now m \<longleftrightarrow> \<not> ms_unlocked m
     \<and> (case ms_unlock_at m of None \<Rightarrow> True | Some t \<Rightarrow> t \<le> now)"

definition unlock_message :: "time \<Rightarrow> nat \<Rightarrow> nat \<Rightarrow> db \<Rightarrow> db" where
  "unlock_message now ticket_id message_id d =
     d\<lparr>messages := update_rows (\<lambda>m. ms_id m = message_id \<and> ms_ticket m = ticket_id \<and> \<not> ms_unlocked m)
         (\<lambda>m. m\<lparr>ms_unlocked := True, ms_utime := Some now\<rparr>) (messages d)\<rparr>"

definition purchase_event :: "nat \<Rightarrow> ticket_row \<Rightarrow> nat \<Rightarrow> (nat \<times> int \<times> int) option \<Rightarrow> event_row" where
  "purchase_event game_id tk user_id paid =
     (ticket_event ''ticket.message_purchased'' game_id tk user_id)
       \<lparr>ev_currency := map_option fst paid, ev_delta := map_option (\<lambda>(c, b, a). a - b) paid,
        ev_before := map_option (\<lambda>(c, b, a). b) paid, ev_after := map_option (\<lambda>(c, b, a). a) paid\<rparr>"

definition purchase_ticket_message ::
  "time \<Rightarrow> bool \<Rightarrow> nat \<Rightarrow> nat \<Rightarrow> nat \<Rightarrow> db \<Rightarrow> db_error + message_purchase \<times> db" where
  "purchase_ticket_message now needs_pay user_id ticket_id message_id d =
     (case (find_message d message_id, find_ticket d ticket_id) of
        (Some m, Some tk) \<Rightarrow>
          (case find_team d (tk_team tk) of
             None \<Rightarrow> Inr (PurchaseUnavailable, d)
           | Some t \<Rightarrow>
               if ms_ticket m \<noteq> ticket_id \<or> \<not> purchasable now m then Inr (PurchaseUnavailable, d)
               else if needs_pay \<and> ms_cost_id m = None then Inr (PurchaseUnavailable, d)
               else res_bind
                 (case ms_cost_id m of
                    Some cid \<Rightarrow>
                      if needs_pay
                      then res_bind (charge_member now user_id (tk_team tk) cid (ms_cost_amount m) d)
                        (\<lambda>(paid, d1). Inr (paid \<noteq> None, map_option (Pair cid) paid, d1))
                      else Inr (True, None, d)
                  | None \<Rightarrow> Inr (True, None, d))
                 (\<lambda>(ok, paid, d1).
                    if \<not> ok then Inr (PurchaseInsufficient, d)
                    else let d2 = insert_event (purchase_event (t_game t) tk user_id paid)
                           (unlock_message now ticket_id message_id d1)
                      in res_bind (ok_or (OtherError ''Unlocked ticket message not found'')
                           (get_ticket_message now d2 message_id True)) (\<lambda>s. Inr (PurchaseDone s, d2))))
      | _ \<Rightarrow> Inr (PurchaseUnavailable, d))"

section \<open>Tickets for puzzles\<close>

definition has_open_ticket :: "db \<Rightarrow> nat \<Rightarrow> bool" where
  "has_open_ticket d team_id \<longleftrightarrow>
     exists_row (\<lambda>tk. tk_state tk = state_open \<and> tk_team tk = team_id \<and> tk_puzzle tk \<noteq> None) (tickets d)"

definition cooldown_from_ctime :: "db \<Rightarrow> nat \<Rightarrow> nat \<Rightarrow> time option" where
  "cooldown_from_ctime d team_id puzzle_id =
     (case (find_tp d team_id puzzle_id, effective_release d puzzle_id) of
        (Some tp, Some r) \<Rightarrow> if tp_state tp \<ge> 0 then Some (max (tp_ctime tp) r) else None
      | _ \<Rightarrow> None)"

definition cooldown_ready :: "time \<Rightarrow> db \<Rightarrow> nat \<Rightarrow> puzzle_row \<Rightarrow> bool" where
  "cooldown_ready now d team_id p =
     (case cooldown_from_ctime d team_id (p_id p) of
        None \<Rightarrow> False | Some t \<Rightarrow> t \<le> now - p_ticket_cooldown p * 1000000)"

definition puzzle_game :: "db \<Rightarrow> puzzle_row \<Rightarrow> nat option" where
  "puzzle_game d p = map_option r_game (find_round d (p_round p))"

text \<open>The team's access to the tickets of a game: closed when the team plays another game.\<close>

definition open_access :: "db \<Rightarrow> nat \<Rightarrow> nat \<Rightarrow> feature_access" where
  "open_access d team_id game_id =
     (case find_team d team_id of
        None \<Rightarrow> GameClosed
      | Some t \<Rightarrow> if t_game t = game_id then access_of_value (access_value d t PuzzleTicket) else GameClosed)"

datatype open_result = OpenOk nat nat | OpenPending | OpenCooldown | OpenDisabled | OpenBlocked send_block

definition open_puzzle_ticket :: "time \<Rightarrow> nat \<Rightarrow> nat \<Rightarrow> send_data \<Rightarrow> db \<Rightarrow> open_result \<times> db" where
  "open_puzzle_ticket now team_id puzzle_id msg d =
     (if has_open_ticket d team_id then (OpenPending, d)
      else case find_puzzle d puzzle_id of
        None \<Rightarrow> (OpenDisabled, d)
      | Some p \<Rightarrow>
          (case puzzle_game d p of
             None \<Rightarrow> (OpenDisabled, d)
           | Some game_id \<Rightarrow>
               if \<not> released now d puzzle_id then (OpenDisabled, d)
               else if sd_sender_type msg = by_team \<and> access_block (open_access d team_id game_id) False \<noteq> SendOk
               then (OpenBlocked (access_block (open_access d team_id game_id) False), d)
               else if \<not> p_ticket_enabled p then (OpenDisabled, d)
               else if \<not> cooldown_ready now d team_id p then (OpenCooldown, d)
               else (let (i, d1) = insert_ticket team_id (Some puzzle_id) d;
                         (m, d2) = insert_ticket_message_conn now i msg d1;
                         d3 = log_operation now i OpOpen (sd_sender msg) (sd_sender_type msg) (Some m) d2
                     in (OpenOk i m, insert_event ((blank_event ''ticket.opened'')\<lparr>ev_game := Some game_id,
                           ev_team := Some team_id, ev_user := Some (sd_sender msg),
                           ev_puzzle := Some puzzle_id\<rparr>) d3))))"

datatype open_block = BlockOk | CurrentPuzzlePending | PendingLimit | BlockCooldown | BlockDisabled
  | BlockFeature send_block

record puzzle_ticket_list =
  tl_block :: open_block
  tl_cooldown_till :: "time option"
  tl_open :: "(nat \<times> nat) list"
  tl_tickets :: "nat list"

definition open_puzzle_tickets :: "db \<Rightarrow> nat \<Rightarrow> (nat \<times> nat) list" where
  "open_puzzle_tickets d team_id =
     rev (sort_key fst (concat (map (\<lambda>tk. case tk_puzzle tk of
         None \<Rightarrow> [] | Some p \<Rightarrow> if tk_state tk = state_open \<and> tk_team tk = team_id then [(tk_id tk, p)] else [])
       (tickets d))))"

definition get_team_puzzle_tickets :: "time \<Rightarrow> nat \<Rightarrow> nat \<Rightarrow> bool \<Rightarrow> db \<Rightarrow> puzzle_ticket_list" where
  "get_team_puzzle_tickets now team_id puzzle_id feature_exempt d =
     (let open_ones = open_puzzle_tickets d team_id;
          visible = released now d puzzle_id \<and> tp_open d team_id puzzle_id;
          enabled = visible \<and> (case find_puzzle d puzzle_id of None \<Rightarrow> False | Some p \<Rightarrow> p_ticket_enabled p);
          ready = enabled \<and> (case find_puzzle d puzzle_id of None \<Rightarrow> False | Some p \<Rightarrow> cooldown_ready now d team_id p);
          till = (if enabled then
              (case (find_puzzle d puzzle_id, cooldown_from_ctime d team_id puzzle_id) of
                 (Some p, Some t) \<Rightarrow> Some (t + p_ticket_cooldown p * 1000000) | _ \<Rightarrow> None) else None);
          access = (case find_puzzle d puzzle_id of
              None \<Rightarrow> GameClosed
            | Some p \<Rightarrow> (case puzzle_game d p of None \<Rightarrow> GameClosed | Some g \<Rightarrow> open_access d team_id g));
          block = (if \<not> feature_exempt \<and> access_block access False \<noteq> SendOk then BlockFeature (access_block access False)
                   else if list_ex (\<lambda>(i, p). p = puzzle_id) open_ones then CurrentPuzzlePending
                   else if \<not> enabled then BlockDisabled
                   else if \<not> ready then BlockCooldown
                   else if open_ones \<noteq> [] then PendingLimit
                   else BlockOk)
      in \<lparr>tl_block = block, tl_cooldown_till = (if block = BlockCooldown then till else None),
          tl_open = (if block = PendingLimit then open_ones else []),
          tl_tickets = rev (sort (map tk_id (filter (\<lambda>tk. tk_team tk = team_id \<and> tk_puzzle tk \<noteq> None) (tickets d))))\<rparr>)"

section \<open>Notifications\<close>

definition list_for_team :: "db \<Rightarrow> nat \<Rightarrow> nat option \<Rightarrow> nat \<Rightarrow> notification_row list" where
  "list_for_team d team_id before limit =
     take limit (rev (sort_key nt_id (filter (\<lambda>n. nt_team n = team_id
        \<and> (case before of None \<Rightarrow> True | Some b \<Rightarrow> nt_id n < b)) (notifications d))))"

definition unread_count :: "db \<Rightarrow> nat \<Rightarrow> nat \<times> nat" where
  "unread_count d team_id =
     (affected (\<lambda>n. nt_team n = team_id \<and> nt_read n = None) (notifications d),
      affected (\<lambda>n. nt_team n = team_id \<and> nt_read n = None \<and> nt_puzzle n = None) (notifications d))"

text \<open>The statement the three operations share: whether a row was still unread.\<close>

definition read_rows :: "time \<Rightarrow> nat \<Rightarrow> (notification_row \<Rightarrow> bool) \<Rightarrow> db \<Rightarrow> bool \<times> db" where
  "read_rows now team_id p d =
     (let sel = (\<lambda>n. p n \<and> nt_team n = team_id \<and> nt_read n = None)
      in (exists_row sel (notifications d),
          d\<lparr>notifications := update_rows sel (\<lambda>n. n\<lparr>nt_read := Some now\<rparr>) (notifications d)\<rparr>))"

definition mark_read :: "time \<Rightarrow> nat \<Rightarrow> nat \<Rightarrow> db \<Rightarrow> bool \<times> db" where
  "mark_read now team_id notification_id = read_rows now team_id (\<lambda>n. nt_id n = notification_id)"

definition mark_many_read :: "time \<Rightarrow> nat \<Rightarrow> nat list \<Rightarrow> db \<Rightarrow> bool \<times> db" where
  "mark_many_read now team_id ids d =
     (if ids = [] then (False, d) else read_rows now team_id (\<lambda>n. nt_id n \<in> set ids) d)"

definition mark_ticket_messages_read :: "time \<Rightarrow> nat \<Rightarrow> nat list \<Rightarrow> db \<Rightarrow> bool \<times> db" where
  "mark_ticket_messages_read now team_id message_ids d =
     (if message_ids = [] then (False, d)
      else read_rows now team_id (\<lambda>n. nt_kind n = 1 \<and> nt_source n \<in> set message_ids) d)"

definition mark_all_read :: "time \<Rightarrow> nat \<Rightarrow> db \<Rightarrow> bool \<times> db" where
  "mark_all_read now team_id = read_rows now team_id (\<lambda>n. True)"

end
