(* ===== verification/Ticket_Page.thy ===== *)
theory Ticket_Page
  imports Ticket
begin

text \<open>
  The thread of a ticket, page by page (\<^verbatim>\<open>get_ticket_messages_page\<close>, \<^verbatim>\<open>get_ticket_page\<close> of
  \<^verbatim>\<open>src/db/ticket.rs\<close>). Messages and operations are two tables with one order: time, then the rank of
  the kind, then the identifier. Each page asks both tables for one row more than it shows and merges
  the answers. A cursor is the position of an item; its base64 form is left out.
\<close>

section \<open>Items\<close>

type_synonym position = "time \<times> int \<times> nat"

record shown_operation =
  so_id :: nat
  so_action :: ticket_action
  so_actor :: nat
  so_actor_type :: int
  so_message :: "shown_message option"
  so_ctime :: time

datatype thread_item = ItemMessage shown_message | ItemOperation shown_operation

fun same_time_rank :: "thread_item \<Rightarrow> int" where
  "same_time_rank (ItemMessage m) = 1"
| "same_time_rank (ItemOperation oper) = (if so_action oper = OpOpen then 0 else 2)"

fun item_ctime :: "thread_item \<Rightarrow> time" where
  "item_ctime (ItemMessage m) = sm_ctime m"
| "item_ctime (ItemOperation oper) = so_ctime oper"

fun item_id :: "thread_item \<Rightarrow> nat" where
  "item_id (ItemMessage m) = sm_id m"
| "item_id (ItemOperation oper) = so_id oper"

fun item_message_id :: "thread_item \<Rightarrow> nat option" where
  "item_message_id (ItemMessage m) = Some (sm_id m)"
| "item_message_id (ItemOperation oper) = map_option sm_id (so_message oper)"

definition item_cursor :: "thread_item \<Rightarrow> position" where
  "item_cursor item = (item_ctime item, same_time_rank item, item_id item)"

text \<open>Messages that belong to an operation are shown with it.\<close>

definition message_items :: "time \<Rightarrow> bool \<Rightarrow> nat \<Rightarrow> db \<Rightarrow> thread_item list" where
  "message_items now can_view_locked ticket_id d =
     map (ItemMessage \<circ> show_message now can_view_locked)
       (filter (\<lambda>m. ms_ticket m = ticket_id
          \<and> \<not> exists_row (\<lambda>r. to_message r = Some (ms_id m)) (ticket_operations d)) (messages d))"

definition show_operation :: "time \<Rightarrow> bool \<Rightarrow> db \<Rightarrow> ticket_operation_row \<Rightarrow> shown_operation" where
  "show_operation now can_view_locked d r =
     \<lparr>so_id = to_id r, so_action = to_action r, so_actor = to_actor r, so_actor_type = to_actor_type r,
      so_message = Option.bind (to_message r) (\<lambda>i. get_ticket_message now d i can_view_locked),
      so_ctime = to_ctime r\<rparr>"

definition operation_items :: "time \<Rightarrow> bool \<Rightarrow> nat \<Rightarrow> db \<Rightarrow> thread_item list" where
  "operation_items now can_view_locked ticket_id d =
     map (ItemOperation \<circ> show_operation now can_view_locked d)
       (filter (\<lambda>r. to_ticket r = ticket_id) (ticket_operations d))"

section \<open>Pages\<close>

record page_request =
  pr_before :: "position option"
  pr_after :: "position option"
  pr_stop :: "position option"
  pr_oldest :: bool

definition default_request :: page_request where
  "default_request = \<lparr>pr_before = None, pr_after = None, pr_stop = None, pr_oldest = False\<rparr>"

definition in_range :: "bool \<Rightarrow> position option \<Rightarrow> position option \<Rightarrow> position \<Rightarrow> bool" where
  "in_range after cursor stop k \<longleftrightarrow>
     (case cursor of None \<Rightarrow> True | Some c \<Rightarrow> if after then c < k else k < c)
     \<and> (case stop of None \<Rightarrow> True | Some s \<Rightarrow> k < s)"

text \<open>One query: the rows in range, oldest or newest first, up to a limit.\<close>

definition page_query ::
  "bool \<Rightarrow> position option \<Rightarrow> position option \<Rightarrow> nat \<Rightarrow> thread_item list \<Rightarrow> thread_item list" where
  "page_query after cursor stop query_limit items =
     (let rows = sort_key item_cursor (filter (\<lambda>i. in_range after cursor stop (item_cursor i)) items)
      in take query_limit (if after then rows else rev rows))"

record page_history =
  hi_before :: "position option"
  hi_after :: "position option"
  hi_stop :: "position option"
  hi_newer :: "position option"
  hi_more :: bool

definition no_history :: page_history where
  "no_history = \<lparr>hi_before = None, hi_after = None, hi_stop = None, hi_newer = None, hi_more = False\<rparr>"

definition first_cursor :: "thread_item list \<Rightarrow> position option" where
  "first_cursor items = (case items of [] \<Rightarrow> None | i # _ \<Rightarrow> Some (item_cursor i))"

definition last_cursor :: "thread_item list \<Rightarrow> position option" where
  "last_cursor items = first_cursor (rev items)"

text \<open>The merging, over any two lists of items.\<close>

definition merge_page ::
  "thread_item list \<Rightarrow> thread_item list \<Rightarrow> page_request \<Rightarrow> nat \<Rightarrow> thread_item list \<times> page_history" where
  "merge_page msgs ops request limit =
     (let after = (pr_after request \<noteq> None \<or> pr_oldest request);
          cursor = or_else (pr_after request) (pr_before request);
          query = page_query after cursor (pr_stop request) (limit + 1);
          items = sort_key item_cursor (query msgs @ query ops);
          has_more = length items > limit;
          page = (if after then take limit items
                  else if has_more then drop (length items - limit) items else items)
      in (page, \<lparr>hi_before = (if \<not> after \<and> has_more then first_cursor page else None),
                 hi_after = (if after \<and> has_more then last_cursor page else None),
                 hi_stop = pr_stop request, hi_newer = last_cursor page, hi_more = has_more\<rparr>))"

definition get_ticket_messages_page ::
  "time \<Rightarrow> db \<Rightarrow> nat \<Rightarrow> bool \<Rightarrow> page_request \<Rightarrow> nat \<Rightarrow> thread_item list \<times> page_history" where
  "get_ticket_messages_page now d ticket_id can_view_locked =
     merge_page (message_items now can_view_locked ticket_id d) (operation_items now can_view_locked ticket_id d)"

definition thread_page ::
  "thread_item list \<Rightarrow> thread_item list \<Rightarrow> bool \<Rightarrow> page_request \<Rightarrow> thread_item list \<times> page_history" where
  "thread_page msgs ops is_puzzle request =
     (if pr_before request \<noteq> None \<or> pr_after request \<noteq> None then merge_page msgs ops request 50
      else
        (let (latest, history) = merge_page msgs ops default_request 50 in
         if \<not> is_puzzle \<or> hi_before history = None then (latest, history)
         else case fst (merge_page msgs ops (default_request\<lparr>pr_oldest := True\<rparr>) 1) of
             [] \<Rightarrow> (latest, history)
           | first # _ \<Rightarrow>
               (let start = item_cursor first;
                    stop = first_cursor latest;
                    latest' = (if list_ex (\<lambda>i. item_cursor i = start) latest then latest else first # latest);
                    gap = fst (merge_page msgs ops (default_request\<lparr>pr_after := Some start, pr_stop := stop\<rparr>) 1)
                in if gap = [] then (latest', no_history\<lparr>hi_newer := last_cursor latest'\<rparr>)
                   else (latest', \<lparr>hi_before = None, hi_after = Some start, hi_stop = stop,
                           hi_newer = last_cursor latest', hi_more = True\<rparr>))))"

definition get_ticket_page ::
  "time \<Rightarrow> db \<Rightarrow> nat \<Rightarrow> bool \<Rightarrow> bool \<Rightarrow> page_request \<Rightarrow> thread_item list \<times> page_history" where
  "get_ticket_page now d ticket_id can_view_locked is_puzzle request =
     thread_page (message_items now can_view_locked ticket_id d)
       (operation_items now can_view_locked ticket_id d) is_puzzle request"

end
