(* ===== verification/Ticket_Routes.thy ===== *)
theory Ticket_Routes
  imports Ticket_Page
begin

text \<open>
  The routes of tickets and direct messages: \<^verbatim>\<open>src/api/ticket.rs\<close>, with the thread a reader gets
  (\<^verbatim>\<open>get_ticket_thread\<close>). Roles are those of the session. A request that is refused leaves the
  database as it is, except that a first direct message creates its thread before it is checked.
\<close>

section \<open>Threads\<close>

record ticket_summary =
  su_id :: nat
  su_state :: int
  su_game :: nat
  su_team :: "nat option"
  su_currencies :: "nat list"
  su_puzzle :: "nat option"
  su_count :: "nat option"
  su_last_at :: "time option"
  su_last_by :: "int option"
  su_assignee :: "nat option"

definition last_message :: "db \<Rightarrow> nat \<Rightarrow> message_row option" where
  "last_message d ticket_id =
     (case sort_key (\<lambda>m. (ms_ctime m, ms_id m)) (filter (\<lambda>m. ms_ticket m = ticket_id) (messages d)) of
        [] \<Rightarrow> None | m # ms \<Rightarrow> Some (last (m # ms)))"

text \<open>The puzzle is shown when the team has a state for it and its round exists.\<close>

definition make_puzzle :: "db \<Rightarrow> ticket_row \<Rightarrow> nat option" where
  "make_puzzle d tk =
     (case tk_puzzle tk of
        None \<Rightarrow> None
      | Some puzzle_id \<Rightarrow>
          (case find_puzzle d puzzle_id of
             None \<Rightarrow> None
           | Some p \<Rightarrow>
               if find_tp d (tk_team tk) puzzle_id \<noteq> None \<and> find_round d (p_round p) \<noteq> None
               then Some puzzle_id else None))"

definition get_ticket_summary :: "time \<Rightarrow> db \<Rightarrow> nat \<Rightarrow> bool \<Rightarrow> db_error + ticket_summary option" where
  "get_ticket_summary now d ticket_id include_team =
     (case find_ticket d ticket_id of
        None \<Rightarrow> Inr None
      | Some tk \<Rightarrow>
          (case find_team d (tk_team tk) of
             None \<Rightarrow> Inr None
           | Some t \<Rightarrow>
               res_bind (if include_team then get_currency_info_conn now (t_id t) False d else Inr []) (\<lambda>cs.
                 Inr (Some \<lparr>su_id = ticket_id, su_state = tk_state tk, su_game = t_game t,
                   su_team = (if include_team then Some (t_id t) else None), su_currencies = map cs_id cs,
                   su_puzzle = make_puzzle d tk,
                   su_count = map_option (\<lambda>_. affected (\<lambda>m. ms_ticket m = ticket_id) (messages d))
                     (last_message d ticket_id),
                   su_last_at = map_option ms_ctime (last_message d ticket_id),
                   su_last_by = map_option ms_sender_type (last_message d ticket_id),
                   su_assignee = tk_assignee tk\<rparr>))))"

record ticket_perm =
  pe_send_block :: send_block
  pe_host :: bool
  pe_view_locked :: bool
  pe_content_types :: "int list"
  pe_currencies :: "nat list"

definition new_perm :: "bool \<Rightarrow> bool \<Rightarrow> bool \<Rightarrow> nat list \<Rightarrow> send_block \<Rightarrow> ticket_perm" where
  "new_perm can_host can_view_locked trusted cs block =
     \<lparr>pe_send_block = block, pe_host = can_host, pe_view_locked = can_view_locked,
      pe_content_types = (if trusted then [0, 1, 2] else [2]), pe_currencies = cs\<rparr>"

record ticket_thread =
  th_ticket :: "ticket_summary option"
  th_items :: "thread_item list"
  th_history :: page_history
  th_perm :: ticket_perm

definition thread_block :: "time \<Rightarrow> db \<Rightarrow> ticket_user \<Rightarrow> int \<Rightarrow> bool \<Rightarrow> nat option \<Rightarrow> send_block" where
  "thread_block now d info state can_send max_pending =
     (let feature_block = access_block (player_ticket_feature_access now d (tu_ticket info)) True
      in if tu_member info \<and> feature_block \<noteq> SendOk then feature_block
         else calc_send_block d (tu_ticket info) state can_send max_pending)"

definition get_ticket_thread ::
  "time \<Rightarrow> db \<Rightarrow> ticket_user \<Rightarrow> page_request \<Rightarrow> db_error + ticket_thread option" where
  "get_ticket_thread now d info page =
     res_bind (get_ticket_summary now d (tu_ticket info) True) (\<lambda>found.
       case found of
         None \<Rightarrow> Inr None
       | Some s \<Rightarrow>
           (let (items, history) = get_ticket_page now d (tu_ticket info) (tu_mod info) (su_puzzle s \<noteq> None) page
            in Inr (Some \<lparr>th_ticket = Some (if tu_mod info then s else s\<lparr>su_assignee := None\<rparr>),
                 th_items = items, th_history = history,
                 th_perm = new_perm (tu_mod info) (tu_mod info) (tu_admin info)
                   (if tu_mod info then su_currencies s else [])
                   (thread_block now d info (su_state s) (tu_member info \<or> tu_mod info) (Some 1))\<rparr>)))"

definition get_dm_ticket_thread ::
  "time \<Rightarrow> db \<Rightarrow> nat \<Rightarrow> bool \<Rightarrow> bool \<Rightarrow> page_request \<Rightarrow> db_error + ticket_thread" where
  "get_dm_ticket_thread now d team_id can_view_locked trusted page =
     (let access = player_dm_feature_access d team_id in
      case get_dm_ticket_id d team_id of
        None \<Rightarrow> Inr \<lparr>th_ticket = None, th_items = [], th_history = no_history,
          th_perm = new_perm can_view_locked can_view_locked trusted [] (access_block access False)\<rparr>
      | Some i \<Rightarrow>
          res_bind (get_ticket_summary now d i False) (\<lambda>s.
            (let (items, history) = get_ticket_page now d i can_view_locked False page;
                 state = (case s of None \<Rightarrow> 2 | Some s \<Rightarrow> su_state s);
                 block = (if access_block access True \<noteq> SendOk then access_block access True
                          else calc_send_block d i state True (Some 3))
             in Inr \<lparr>th_ticket = (if can_view_locked then s else map_option (\<lambda>s. s\<lparr>su_assignee := None\<rparr>) s),
                  th_items = items, th_history = history,
                  th_perm = new_perm can_view_locked can_view_locked trusted [] block\<rparr>)))"

text \<open>The staff's alias has the user identifier 0.\<close>

definition staff_alias :: nat where "staff_alias = 0"

definition anonymize_message :: "shown_message \<Rightarrow> shown_message" where
  "anonymize_message m = (if sm_sender_type m = by_host then m\<lparr>sm_sender := staff_alias\<rparr> else m)"

fun anonymize_item :: "thread_item \<Rightarrow> thread_item" where
  "anonymize_item (ItemMessage m) = ItemMessage (anonymize_message m)"
| "anonymize_item (ItemOperation oper) =
     ItemOperation ((if so_actor_type oper = by_host then oper\<lparr>so_actor := staff_alias\<rparr> else oper)
       \<lparr>so_message := map_option anonymize_message (so_message oper)\<rparr>)"

definition anonymize_thread :: "ticket_thread \<Rightarrow> ticket_thread" where
  "anonymize_thread th =
     th\<lparr>th_ticket := map_option (\<lambda>s. s\<lparr>su_assignee := map_option (\<lambda>_. staff_alias) (su_assignee s)\<rparr>) (th_ticket th),
        th_items := map anonymize_item (th_items th)\<rparr>"

datatype thread_reply = ThreadNotFound | ThreadForbidden | ThreadError db_error | ThreadOk ticket_thread

text \<open>\<open>has_alias\<close>: whether the settings of the game name an identity for its staff.\<close>

definition get_ticket ::
  "time \<Rightarrow> db \<Rightarrow> (nat \<Rightarrow> bool) \<Rightarrow> ticket_user \<Rightarrow> page_request \<Rightarrow> thread_reply" where
  "get_ticket now d has_alias info page =
     (case get_ticket_thread now d info page of
        Inl e \<Rightarrow> ThreadError e
      | Inr None \<Rightarrow> ThreadNotFound
      | Inr (Some th) \<Rightarrow>
          (case th_ticket th of
             None \<Rightarrow> ThreadNotFound
           | Some s \<Rightarrow> ThreadOk (if \<not> tu_mod info \<and> has_alias (su_game s) then anonymize_thread th else th)))"

text \<open>Reading the team's own direct messages marks the replies that are shown as read.\<close>

definition get_dm_ticket ::
  "time \<Rightarrow> (nat \<Rightarrow> bool) \<Rightarrow> user_role \<Rightarrow> nat \<Rightarrow> nat option \<Rightarrow> page_request \<Rightarrow> db \<Rightarrow> thread_reply \<times> db" where
  "get_dm_ticket now has_alias role game_id team page d =
     (case team of
        None \<Rightarrow> (ThreadForbidden, d)
      | Some team_id \<Rightarrow>
          (case get_dm_ticket_thread now d team_id (is_moderator role) (is_admin role) page of
             Inl e \<Rightarrow> (ThreadError e, d)
           | Inr th \<Rightarrow>
               (let th' = (if \<not> is_moderator role \<and> has_alias game_id then anonymize_thread th else th);
                    ids = List.map_filter item_message_id (th_items th')
                in (ThreadOk th', snd (mark_ticket_messages_read now team_id ids d)))))"

section \<open>Sending\<close>

record send_request =
  rq_content :: ustr
  rq_content_type :: int
  rq_sender_type :: int
  rq_cost_id :: "nat option"
  rq_cost_amount :: int
  rq_unlock_after :: int
  rq_force :: bool

datatype send_code = CodeExistingOnly | CodeFeatureBanned | CodeFeatureClosed | CodeInvalid | CodeBadCost
  | CodeBadContentType | CodePending | CodeClosed

definition valid_request :: "send_request \<Rightarrow> bool" where
  "valid_request req \<longleftrightarrow> 1 \<le> length (rq_content req) \<and> length (rq_content req) \<le> 1000"

definition is_trusted :: "int \<Rightarrow> bool" where
  "is_trusted content_type \<longleftrightarrow> content_type = 0 \<or> content_type = 1"

fun feature_access_error :: "send_block \<Rightarrow> send_code option" where
  "feature_access_error FeatureClosed = Some CodeFeatureClosed"
| "feature_access_error FeatureExistingOnly = Some CodeExistingOnly"
| "feature_access_error TeamFeatureBanned = Some CodeFeatureBanned"
| "feature_access_error _ = None"

definition normalize_unlock_values :: "send_request \<Rightarrow> send_request option" where
  "normalize_unlock_values req =
     (if rq_cost_amount req < 0 \<or> rq_unlock_after req < 0 then None
      else if rq_cost_amount req \<noteq> 0 \<and> rq_cost_id req = None then None
      else let req' = (if rq_cost_amount req = 0 then req\<lparr>rq_cost_id := None\<rparr> else req) in
        if rq_sender_type req' \<noteq> by_host \<and> (rq_cost_id req' \<noteq> None \<or> rq_unlock_after req' > 0) then None
        else Some req')"

definition chargeable :: "db \<Rightarrow> nat \<Rightarrow> nat \<Rightarrow> bool" where
  "chargeable d team_id cid =
     (case (find_tc d team_id cid, find_currency d cid, find_team d team_id) of
        (Some tc, Some c, Some t) \<Rightarrow>
          \<not> tc_hidden tc \<and> feature_is d (c_game c) Currency 1 \<and> t_game t = c_game c
      | _ \<Rightarrow> False)"

definition normalize_unlock_requirements :: "send_request \<Rightarrow> nat \<Rightarrow> db \<Rightarrow> send_request option" where
  "normalize_unlock_requirements req team_id d =
     (case normalize_unlock_values req of
        None \<Rightarrow> None
      | Some req' \<Rightarrow>
          (case rq_cost_id req' of
             None \<Rightarrow> Some req'
           | Some cid \<Rightarrow> if chargeable d team_id cid then Some req' else None))"

definition data_of :: "send_request \<Rightarrow> nat \<Rightarrow> int \<Rightarrow> send_data" where
  "data_of req user_id sender_type =
     \<lparr>sd_content = rq_content req, sd_content_type = rq_content_type req, sd_sender = user_id,
      sd_sender_type = sender_type, sd_cost_id = rq_cost_id req, sd_cost_amount = rq_cost_amount req,
      sd_unlock_after = rq_unlock_after req\<rparr>"

datatype send_reply = SendForbidden | SendNotFound | SendRefused send_code | SendAssigned nat
  | SendError db_error | SendDone shown_message ticket_perm

text \<open>\<open>info\<close> was read by the middleware of the route.\<close>

definition do_send_ticket_message ::
  "time \<Rightarrow> user_role \<Rightarrow> nat \<Rightarrow> send_request \<Rightarrow> ticket_user \<Rightarrow> nat option \<Rightarrow> db \<Rightarrow> send_reply \<times> db" where
  "do_send_ticket_message now role user_id req info max_pending d =
     (if \<not> ((rq_sender_type req = by_team \<and> tu_member info) \<or> (rq_sender_type req = by_host \<and> tu_mod info))
      then (SendForbidden, d)
      else case (if rq_sender_type req = by_team
          then feature_access_error (access_block (player_ticket_feature_access now d (tu_ticket info)) True)
          else None) of
        Some code \<Rightarrow> (SendRefused code, d)
      | None \<Rightarrow>
          if \<not> valid_request req then (SendRefused CodeInvalid, d)
          else if \<not> is_admin role \<and> is_trusted (rq_content_type req) then (SendRefused CodeBadContentType, d)
          else if \<not> is_admin role \<and> tu_state info = state_closed \<and> rq_sender_type req = by_team
          then (SendRefused CodeClosed, d)
          else case find_ticket d (tu_ticket info) of
            None \<Rightarrow> (SendError db_error.RowNotFound, d)
          | Some tk \<Rightarrow>
              (case normalize_unlock_requirements req (tk_team tk) d of
                 None \<Rightarrow> (SendRefused CodeBadCost, d)
               | Some req' \<Rightarrow>
                   (case send_ticket_message now (tu_ticket info) (data_of req' user_id (rq_sender_type req'))
                       max_pending (rq_force req') d of
                      Inl e \<Rightarrow> (SendError e, d)
                    | Inr (MessagePending, d') \<Rightarrow> (SendRefused CodePending, d')
                    | Inr (MessageAssigned a, d') \<Rightarrow> (SendAssigned a, d')
                    | Inr (MessageSent m, d') \<Rightarrow>
                        (case get_ticket_summary now d' (tu_ticket info) True of
                           Inl e \<Rightarrow> (SendError e, d')
                         | Inr s \<Rightarrow>
                             (SendDone m (new_perm (tu_mod info) (tu_mod info) (tu_admin info)
                                (if tu_mod info then (case s of None \<Rightarrow> [] | Some s \<Rightarrow> su_currencies s) else [])
                                (thread_block now d' info (tu_state info) (tu_member info) max_pending)), d')))))"

section \<open>Opening and closing\<close>

datatype open_code = CodePendingExists | CodeCooldown | CodeOpenFeature send_block

fun open_code_of :: "open_result \<Rightarrow> open_code option" where
  "open_code_of (OpenOk i m) = None"
| "open_code_of OpenPending = Some CodePendingExists"
| "open_code_of OpenCooldown = Some CodeCooldown"
| "open_code_of OpenDisabled = Some CodeCooldown"
| "open_code_of (OpenBlocked b) = Some (CodeOpenFeature b)"

datatype open_reply = OpenForbidden | OpenNotFound | OpenInvalid | OpenBadContentType | OpenBadCost
  | OpenRefused open_code | OpenedTicket nat nat | OpenError db_error

text \<open>The thread of the answer is read as the opener sees it.\<close>

definition opener :: "nat \<Rightarrow> int \<Rightarrow> ticket_user" where
  "opener ticket_id sender_type = \<lparr>tu_ticket = ticket_id, tu_state = state_open,
     tu_member = (sender_type = by_team), tu_mod = (sender_type = by_host), tu_admin = False\<rparr>"

definition open_ticket_for_team ::
  "time \<Rightarrow> user_role \<Rightarrow> nat \<Rightarrow> send_request \<Rightarrow> nat \<Rightarrow> nat \<Rightarrow> int \<Rightarrow> db \<Rightarrow> open_reply \<times> db" where
  "open_ticket_for_team now role user_id req team_id puzzle_id sender_type d =
     (if \<not> valid_request req then (OpenInvalid, d)
      else if sender_type = by_team \<and> rq_sender_type req \<noteq> by_team then (OpenInvalid, d)
      else if \<not> is_admin role \<and> is_trusted (rq_content_type req) then (OpenBadContentType, d)
      else case normalize_unlock_requirements (req\<lparr>rq_sender_type := sender_type\<rparr>) team_id d of
        None \<Rightarrow> (OpenBadCost, d)
      | Some req' \<Rightarrow>
          (case open_puzzle_ticket now team_id puzzle_id (data_of req' user_id sender_type) d of
             (OpenOk i m, d') \<Rightarrow>
               (case get_ticket_thread now d' (opener i sender_type) default_request of
                  Inl e \<Rightarrow> (OpenError e, d')
                | Inr None \<Rightarrow> (OpenError (OtherError ''Opened ticket not found''), d')
                | Inr (Some th) \<Rightarrow>
                    (case List.map_filter item_message_id (th_items th) of
                       [] \<Rightarrow> (OpenError (OtherError ''Opened ticket message not found''), d')
                     | shown # _ \<Rightarrow> (OpenedTicket i shown, d')))
           | (r, d') \<Rightarrow> (case open_code_of r of None \<Rightarrow> (OpenInvalid, d') | Some code \<Rightarrow> (OpenRefused code, d'))))"

definition can_team_access_puzzle :: "time \<Rightarrow> db \<Rightarrow> nat \<Rightarrow> nat \<Rightarrow> bool" where
  "can_team_access_puzzle now d team_id puzzle_id \<longleftrightarrow>
     tp_open d team_id puzzle_id \<and> released now d puzzle_id
     \<and> (case find_team d team_id of None \<Rightarrow> False | Some t \<Rightarrow> \<not> t_banned t)"

text \<open>The middleware of a puzzle's routes: the user's team in the game, if it may see the puzzle.\<close>

definition game_tables_of :: "db \<Rightarrow> game_tables" where
  "game_tables_of d =
     \<lparr>game_active = (\<lambda>g. map_option g_active (find_game d g)),
      game_tables.member_team = (\<lambda>u g. map_option (\<lambda>i. \<lparr>gm_team = i,
        gm_is_beta = (case find_team d i of None \<Rightarrow> False | Some t \<Rightarrow> t_beta t)\<rparr>)
        (Hints.member_team d u g))\<rparr>"

definition get_puzzle_user_info :: "time \<Rightarrow> db \<Rightarrow> nat \<Rightarrow> nat \<Rightarrow> user_role \<Rightarrow> nat option" where
  "get_puzzle_user_info now d user_id puzzle_id role =
     (case Option.bind (find_puzzle d puzzle_id) (puzzle_game d) of
        None \<Rightarrow> None
      | Some game_id \<Rightarrow>
          (case get_game_user_info (game_tables_of d) user_id game_id role of
             Some (Some team_id) \<Rightarrow> if can_team_access_puzzle now d team_id puzzle_id then Some team_id else None
           | _ \<Rightarrow> None))"

definition open_ticket ::
  "time \<Rightarrow> user_role \<Rightarrow> nat \<Rightarrow> nat \<Rightarrow> send_request \<Rightarrow> db \<Rightarrow> open_reply \<times> db" where
  "open_ticket now role user_id puzzle_id req d =
     (case get_puzzle_user_info now d user_id puzzle_id role of
        None \<Rightarrow> (OpenNotFound, d)
      | Some team_id \<Rightarrow> open_ticket_for_team now role user_id req team_id puzzle_id by_team d)"

definition staff_puzzle_team_exists :: "db \<Rightarrow> user_role \<Rightarrow> nat option \<Rightarrow> nat \<Rightarrow> nat \<Rightarrow> nat \<Rightarrow> bool" where
  "staff_puzzle_team_exists d role own_team game_id puzzle_id team_id \<longleftrightarrow>
     (is_admin role \<or> own_team = Some team_id)
     \<and> (case find_team d team_id of None \<Rightarrow> False | Some t \<Rightarrow> t_game t = game_id)
     \<and> Option.bind (find_puzzle d puzzle_id) (puzzle_game d) = Some game_id"

definition open_staff_team_puzzle_ticket ::
  "time \<Rightarrow> user_role \<Rightarrow> nat \<Rightarrow> nat option \<Rightarrow> nat \<Rightarrow> nat \<Rightarrow> nat \<Rightarrow> send_request \<Rightarrow> db \<Rightarrow> open_reply \<times> db" where
  "open_staff_team_puzzle_ticket now role user_id own_team game_id puzzle_id team_id req d =
     (if \<not> is_moderator role then (OpenForbidden, d)
      else if \<not> staff_puzzle_team_exists d role own_team game_id puzzle_id team_id then (OpenNotFound, d)
      else open_ticket_for_team now role user_id req team_id puzzle_id by_host d)"

text \<open>The middleware of \<^verbatim>\<open>/tickets\<close> lets members and moderators through, to tickets of puzzles only.\<close>

definition check_ticket_middleware :: "time \<Rightarrow> user_row list \<Rightarrow> db \<Rightarrow> nat \<Rightarrow> nat \<Rightarrow> ticket_user option" where
  "check_ticket_middleware now us d ticket_id user_id =
     (case get_ticket_user_info us d ticket_id user_id of
        None \<Rightarrow> None
      | Some info \<Rightarrow>
          if \<not> (tu_member info \<or> tu_mod info) then None
          else case get_ticket_summary now d ticket_id False of
            Inr (Some s) \<Rightarrow> if su_puzzle s \<noteq> None then Some info else None
          | _ \<Rightarrow> None)"

definition check_staff_dm_ticket_middleware ::
  "time \<Rightarrow> user_row list \<Rightarrow> db \<Rightarrow> nat \<Rightarrow> nat \<Rightarrow> nat \<Rightarrow> ticket_user option" where
  "check_staff_dm_ticket_middleware now us d game_id ticket_id user_id =
     (case get_ticket_user_info us d ticket_id user_id of
        None \<Rightarrow> None
      | Some info \<Rightarrow>
          if \<not> tu_mod info then None
          else case get_ticket_summary now d ticket_id False of
            Inr (Some s) \<Rightarrow> if su_puzzle s = None \<and> su_game s = game_id then Some info else None
          | _ \<Rightarrow> None)"

datatype close_reply = CloseForbidden | CloseRefused send_code | CloseConflict | CloseAssignedTo nat
  | CloseError db_error | CloseDone "nat option"

definition check_close_message ::
  "user_role \<Rightarrow> nat \<Rightarrow> send_request \<Rightarrow> db \<Rightarrow> close_reply + send_request" where
  "check_close_message role ticket_id msg d =
     (if \<not> valid_request msg then Inl (CloseRefused CodeInvalid)
      else if rq_sender_type msg \<noteq> by_host then Inl (CloseRefused CodeBadContentType)
      else if \<not> is_admin role \<and> is_trusted (rq_content_type msg) then Inl (CloseRefused CodeBadContentType)
      else case find_ticket d ticket_id of
        None \<Rightarrow> Inl (CloseError db_error.RowNotFound)
      | Some tk \<Rightarrow>
          (case normalize_unlock_requirements msg (tk_team tk) d of
             None \<Rightarrow> Inl (CloseRefused CodeBadCost) | Some msg' \<Rightarrow> Inr msg'))"

definition close_ticket_route ::
  "time \<Rightarrow> user_role \<Rightarrow> nat \<Rightarrow> ticket_user \<Rightarrow> send_request option \<Rightarrow> db \<Rightarrow> close_reply \<times> db" where
  "close_ticket_route now role user_id info req d =
     (if \<not> tu_mod info then (CloseForbidden, d)
      else
        (let force = (case req of None \<Rightarrow> False | Some r \<Rightarrow> rq_force r);
             msg = (case req of None \<Rightarrow> None | Some r \<Rightarrow> if rq_content r = [] then None else Some r)
         in case (case msg of None \<Rightarrow> Inr None
                  | Some m \<Rightarrow> res_bind (check_close_message role (tu_ticket info) m d) (\<lambda>m'. Inr (Some m'))) of
              Inl r \<Rightarrow> (r, d)
            | Inr msg' \<Rightarrow>
                (case close_ticket now (tu_ticket info) user_id by_host
                    (map_option (\<lambda>m. data_of m user_id by_host) msg') force d of
                   (CloseOk i, d') \<Rightarrow> (CloseDone i, d')
                 | (AlreadyClosed, d') \<Rightarrow> (CloseConflict, d')
                 | (CloseAssigned a, d') \<Rightarrow> (CloseAssignedTo a, d'))))"

section \<open>All requests\<close>

datatype ticket_request =
    SendToTicket nat send_request
  | SendOwnDm nat send_request
  | SendStaffDm nat nat send_request
  | SendStaffDmById nat nat send_request
  | CloseTicketReq nat "send_request option"
  | AssignReq nat bool
  | UnassignReq nat
  | AssignDmReq nat nat bool
  | UnassignDmReq nat nat
  | PurchaseReq nat nat
  | OpenReq nat send_request
  | OpenStaffReq nat nat nat send_request

datatype ticket_reply = ReplyNotFound | ReplyForbidden | ReplySend send_reply | ReplyClose close_reply
  | ReplyAssign assign_result | ReplyUnassign bool | ReplyPurchase "db_error + message_purchase"
  | ReplyOpen open_reply

definition send_dm_ticket_message ::
  "time \<Rightarrow> user_row list \<Rightarrow> user_role \<Rightarrow> nat \<Rightarrow> nat \<Rightarrow> send_request \<Rightarrow> db \<Rightarrow> ticket_reply \<times> db" where
  "send_dm_ticket_message now us role user_id team_id req d =
     (let has_existing = get_dm_ticket_id d team_id \<noteq> None in
      case feature_access_error (access_block (player_dm_feature_access d team_id) has_existing) of
        Some code \<Rightarrow> (ReplySend (SendRefused code), d)
      | None \<Rightarrow>
          (let (i, d1) = get_or_create_dm_ticket_id now team_id user_id by_team d
           in case get_ticket_user_info us d1 i user_id of
                None \<Rightarrow> (ReplySend (SendError (OtherError ''Invalid ticket id'')), d1)
              | Some info \<Rightarrow>
                  (let (r, d2) = do_send_ticket_message now role user_id req info (Some 3) d1 in (ReplySend r, d2))))"

definition send_staff_dm_ticket_message ::
  "time \<Rightarrow> user_row list \<Rightarrow> user_role \<Rightarrow> nat \<Rightarrow> nat \<Rightarrow> nat \<Rightarrow> send_request \<Rightarrow> db \<Rightarrow> ticket_reply \<times> db" where
  "send_staff_dm_ticket_message now us role user_id game_id team_id req d =
     (if map_option t_game (find_team d team_id) \<noteq> Some game_id then (ReplyNotFound, d)
      else
        (let (i, d1) = get_or_create_dm_ticket_id now team_id user_id by_host d
         in case get_ticket_user_info us d1 i user_id of
              None \<Rightarrow> (ReplySend (SendError (OtherError ''Invalid ticket id'')), d1)
            | Some info \<Rightarrow>
                (let (r, d2) = do_send_ticket_message now role user_id (req\<lparr>rq_sender_type := by_host\<rparr>) info None d1
                 in (ReplySend r, d2))))"

definition assign_route :: "nat \<Rightarrow> nat \<Rightarrow> bool \<Rightarrow> ticket_user \<Rightarrow> db \<Rightarrow> ticket_reply \<times> db" where
  "assign_route user_id ticket_id force info d =
     (if \<not> tu_mod info then (ReplyForbidden, d)
      else (let (r, d') = assign_ticket_self ticket_id user_id force d in (ReplyAssign r, d')))"

definition unassign_route :: "nat \<Rightarrow> nat \<Rightarrow> ticket_user \<Rightarrow> db \<Rightarrow> ticket_reply \<times> db" where
  "unassign_route user_id ticket_id info d =
     (if \<not> tu_mod info then (ReplyForbidden, d)
      else (let (r, d') = unassign_ticket ticket_id user_id d in (ReplyUnassign r, d')))"

text \<open>The routes below \<^verbatim>\<open>/staff\<close> are for moderators; \<open>own_team\<close> is the user's team in the route's game.\<close>

fun ticket_handle ::
  "time \<Rightarrow> user_row list \<Rightarrow> user_role \<Rightarrow> nat \<Rightarrow> nat option \<Rightarrow> ticket_request \<Rightarrow> db \<Rightarrow> ticket_reply \<times> db" where
  "ticket_handle now us role user_id own_team (SendToTicket ticket_id req) d =
     (case check_ticket_middleware now us d ticket_id user_id of
        None \<Rightarrow> (ReplyNotFound, d)
      | Some info \<Rightarrow>
          (let (r, d') = do_send_ticket_message now role user_id req info (Some 1) d in (ReplySend r, d')))"
| "ticket_handle now us role user_id own_team (SendOwnDm game_id req) d =
     (case own_team of
        None \<Rightarrow> (ReplyForbidden, d)
      | Some team_id \<Rightarrow> send_dm_ticket_message now us role user_id team_id req d)"
| "ticket_handle now us role user_id own_team (SendStaffDm game_id team_id req) d =
     (if is_moderator role then send_staff_dm_ticket_message now us role user_id game_id team_id req d
      else (ReplyForbidden, d))"
| "ticket_handle now us role user_id own_team (SendStaffDmById game_id ticket_id req) d =
     (if \<not> is_moderator role then (ReplyForbidden, d)
      else case check_staff_dm_ticket_middleware now us d game_id ticket_id user_id of
        None \<Rightarrow> (ReplyNotFound, d)
      | Some info \<Rightarrow>
          (let (r, d') = do_send_ticket_message now role user_id (req\<lparr>rq_sender_type := by_host\<rparr>) info None d
           in (ReplySend r, d')))"
| "ticket_handle now us role user_id own_team (CloseTicketReq ticket_id req) d =
     (case check_ticket_middleware now us d ticket_id user_id of
        None \<Rightarrow> (ReplyNotFound, d)
      | Some info \<Rightarrow> (let (r, d') = close_ticket_route now role user_id info req d in (ReplyClose r, d')))"
| "ticket_handle now us role user_id own_team (AssignReq ticket_id force) d =
     (case check_ticket_middleware now us d ticket_id user_id of
        None \<Rightarrow> (ReplyNotFound, d)
      | Some info \<Rightarrow> assign_route user_id ticket_id force info d)"
| "ticket_handle now us role user_id own_team (UnassignReq ticket_id) d =
     (case check_ticket_middleware now us d ticket_id user_id of
        None \<Rightarrow> (ReplyNotFound, d)
      | Some info \<Rightarrow> unassign_route user_id ticket_id info d)"
| "ticket_handle now us role user_id own_team (AssignDmReq game_id ticket_id force) d =
     (if \<not> is_moderator role then (ReplyForbidden, d)
      else case check_staff_dm_ticket_middleware now us d game_id ticket_id user_id of
        None \<Rightarrow> (ReplyNotFound, d)
      | Some info \<Rightarrow> assign_route user_id ticket_id force info d)"
| "ticket_handle now us role user_id own_team (UnassignDmReq game_id ticket_id) d =
     (if \<not> is_moderator role then (ReplyForbidden, d)
      else case check_staff_dm_ticket_middleware now us d game_id ticket_id user_id of
        None \<Rightarrow> (ReplyNotFound, d)
      | Some info \<Rightarrow> unassign_route user_id ticket_id info d)"
| "ticket_handle now us role user_id own_team (PurchaseReq ticket_id message_id) d =
     (case check_ticket_middleware now us d ticket_id user_id of
        None \<Rightarrow> (ReplyNotFound, d)
      | Some info \<Rightarrow>
          (case purchase_ticket_message now (\<not> tu_mod info) user_id ticket_id message_id d of
             Inl e \<Rightarrow> (ReplyPurchase (Inl e), d)
           | Inr (r, d') \<Rightarrow> (ReplyPurchase (Inr r), d')))"
| "ticket_handle now us role user_id own_team (OpenReq puzzle_id req) d =
     (let (r, d') = open_ticket now role user_id puzzle_id req d in (ReplyOpen r, d'))"
| "ticket_handle now us role user_id own_team (OpenStaffReq game_id puzzle_id team_id req) d =
     (let (r, d') = open_staff_team_puzzle_ticket now role user_id own_team game_id puzzle_id team_id req d
      in (ReplyOpen r, d'))"

end
