(* ===== verification/Ticket_Thread.thy ===== *)
theory Ticket_Thread
  imports Ticket_Page
begin

text \<open>
  A page of a thread is the right part of the whole thread, and reading on from a page by the cursors it
  gives shows the whole thread.
\<close>

section \<open>Merging sorted lists\<close>

fun merge :: "('a \<Rightarrow> 'a \<Rightarrow> bool) \<Rightarrow> 'a list \<Rightarrow> 'a list \<Rightarrow> 'a list" where
  "merge lt [] ys = ys"
| "merge lt (x # xs) [] = x # xs"
| "merge lt (x # xs) (y # ys) = (if lt x y then x # merge lt xs (y # ys) else y # merge lt (x # xs) ys)"

lemma merge_Nil2 [simp]: "merge lt xs [] = xs"
  by (cases xs) simp_all

lemma set_merge [simp]: "set (merge lt xs ys) = set xs \<union> set ys"
  by (induction lt xs ys rule: merge.induct) auto

lemma length_merge [simp]: "length (merge lt xs ys) = length xs + length ys"
  by (induction lt xs ys rule: merge.induct) auto

lemma merge_sorted:
  assumes "transp lt" and "\<And>x y. x \<in> set xs \<Longrightarrow> y \<in> set ys \<Longrightarrow> \<not> lt x y \<Longrightarrow> lt y x"
    and "sorted_wrt lt xs" and "sorted_wrt lt ys"
  shows "sorted_wrt lt (merge lt xs ys)"
  using assms
proof (induction lt xs ys rule: merge.induct)
  case (3 lt x xs y ys)
  show ?case
  proof (cases "lt x y")
    case True
    then have "lt x z" if "z \<in> set ys" for z
      using transpD [OF 3(3) True] 3(6) that by simp
    with True 3 show ?thesis by auto
  next
    case False
    then have "lt y x" using 3 by auto
    then have "lt y z" if "z \<in> set xs" for z
      using transpD [OF 3(3) \<open>lt y x\<close>] 3(5) that by simp
    with False \<open>lt y x\<close> 3 show ?thesis by auto
  qed
qed auto

text \<open>Only the first \<open>n\<close> of either list matter for the first \<open>n\<close> of both.\<close>

lemma take_merge: "n \<le> a \<Longrightarrow> n \<le> b \<Longrightarrow> take n (merge lt (take a xs) (take b ys)) = take n (merge lt xs ys)"
proof (induction n arbitrary: a b xs ys)
  case (Suc n)
  then obtain a' b' where ab: "a = Suc a'" "b = Suc b'" "n \<le> a'" "n \<le> b'"
    by (cases a; cases b) auto
  show ?case
  proof (cases xs)
    case Nil
    with Suc.prems show ?thesis by (simp add: min_def)
  next
    case x: (Cons x xs')
    show ?thesis
    proof (cases ys)
      case Nil
      with Suc.prems show ?thesis by (simp add: min_def)
    next
      case (Cons y ys')
      with x ab Suc.IH [of a' b xs' ys] Suc.IH [of a b' xs ys'] Suc.prems show ?thesis by simp
    qed
  qed
qed simp

lemma sorted_wrt_unique:
  assumes "transp lt" and "\<And>x. \<not> lt x x" and "sorted_wrt lt xs" and "sorted_wrt lt ys"
    and "set xs = set ys"
  shows "xs = ys"
  using assms(3-5)
proof (induction xs arbitrary: ys)
  case (Cons x xs)
  then obtain y ys' where ys: "ys = y # ys'" by (cases ys) auto
  have irr: "\<And>a b. lt a b \<Longrightarrow> \<not> lt b a" using assms(1,2) by (blast dest: transpD)
  have "x = y"
  proof (rule ccontr)
    assume "x \<noteq> y"
    then have "x \<in> set ys'" "y \<in> set xs" using Cons.prems ys by auto
    then show False using Cons.prems ys irr by auto
  qed
  moreover have "x \<notin> set xs" "y \<notin> set ys'" using Cons.prems ys assms(2) by auto
  moreover have "set xs = set ys'" using calculation Cons.prems(3) ys by auto
  ultimately show ?case using Cons ys by simp
qed simp

section \<open>The whole thread\<close>

definition timeline :: "thread_item list \<Rightarrow> thread_item list \<Rightarrow> thread_item list" where
  "timeline msgs ops = sort_key item_cursor (msgs @ ops)"

definition slice ::
  "bool \<Rightarrow> position option \<Rightarrow> position option \<Rightarrow> thread_item list \<Rightarrow> thread_item list" where
  "slice after cursor stop items = filter (\<lambda>i. in_range after cursor stop (item_cursor i)) items"

definition before_item :: "thread_item \<Rightarrow> thread_item \<Rightarrow> bool" where
  "before_item a b \<longleftrightarrow> item_cursor a < item_cursor b"

definition keep_last :: "nat \<Rightarrow> 'a list \<Rightarrow> 'a list" where
  "keep_last n xs = rev (take n (rev xs))"

lemma keep_last_drop: "keep_last n xs = (if length xs > n then drop (length xs - n) xs else xs)"
  by (simp add: keep_last_def take_rev)

lemma before_item_order: "transp before_item" "\<not> before_item x x"
  "transp (\<lambda>a b. before_item b a)"
  by (auto simp: before_item_def transp_def)

lemma sort_key_strict:
  assumes "distinct (map item_cursor xs)"
  shows "sorted_wrt before_item (sort_key item_cursor xs)"
proof -
  have "distinct (map item_cursor (sort_key item_cursor xs))"
    using assms by (simp add: distinct_map)
  then have "sorted_wrt (<) (map item_cursor (sort_key item_cursor xs))"
    by (simp add: strict_sorted_iff)
  then show ?thesis by (simp add: sorted_wrt_map before_item_def [abs_def])
qed

lemma sort_key_cong_set:
  assumes "distinct (map item_cursor xs)" and "sorted_wrt before_item ys" and "set xs = set ys"
  shows "sort_key item_cursor xs = ys"
  by (rule sorted_wrt_unique [OF before_item_order(1,2) sort_key_strict [OF assms(1)] assms(2)])
    (simp add: assms(3))

lemma before_item_total:
  assumes "distinct (map item_cursor (xs @ ys))" and "x \<in> set xs" and "y \<in> set ys"
  shows "before_item x y \<or> before_item y x"
proof -
  have "item_cursor x \<noteq> item_cursor y" using assms by fastforce
  then show ?thesis by (auto simp: before_item_def)
qed

lemma distinct_filters:
  "distinct (map item_cursor (msgs @ ops)) \<Longrightarrow> distinct (map item_cursor (filter p msgs @ filter p ops))"
  by (auto simp: distinct_map_filter)

lemma slice_merge:
  assumes "distinct (map item_cursor (msgs @ ops))"
  shows "slice after c s (timeline msgs ops)
    = merge before_item (sort_key item_cursor (slice after c s msgs)) (sort_key item_cursor (slice after c s ops))"
    (is "?l = merge _ ?m ?o")
proof -
  have d: "distinct (map item_cursor (slice after c s msgs @ slice after c s ops))"
    unfolding slice_def by (rule distinct_filters [OF assms])
  have "sorted_wrt before_item ?l"
    unfolding slice_def timeline_def by (intro sorted_wrt_filter sort_key_strict assms)
  moreover have "sorted_wrt before_item (merge before_item ?m ?o)"
    using d by (intro merge_sorted before_item_order sort_key_strict) (auto dest: before_item_total [OF d])
  ultimately show ?thesis
    by (rule sorted_wrt_unique [OF before_item_order(1,2)]) (auto simp: slice_def timeline_def)
qed

lemma sort_takes:
  assumes d: "distinct (map item_cursor (msgs @ ops))" and m: "sorted_wrt before_item msgs"
    and o: "sorted_wrt before_item ops"
  shows "sort_key item_cursor (take a msgs @ take b ops) = merge before_item (take a msgs) (take b ops)"
    and "sort_key item_cursor (take a (rev msgs) @ take b (rev ops))
      = rev (merge (\<lambda>x y. before_item y x) (take a (rev msgs)) (take b (rev ops)))"
proof -
  have d1: "distinct (map item_cursor (take a msgs @ take b ops))"
    and d2: "distinct (map item_cursor (take a (rev msgs) @ take b (rev ops)))"
    using d by (auto simp: take_map [symmetric] rev_map [symmetric] dest!: in_set_takeD)
  show "sort_key item_cursor (take a msgs @ take b ops) = merge before_item (take a msgs) (take b ops)"
    using m o before_item_total [OF d1]
    by (intro sort_key_cong_set d1 merge_sorted before_item_order) (auto simp: sorted_wrt_take)
  have "sorted_wrt (\<lambda>x y. before_item y x) (merge (\<lambda>x y. before_item y x) (take a (rev msgs)) (take b (rev ops)))"
    using m o before_item_total [OF d2]
    by (intro merge_sorted before_item_order sorted_wrt_take) (auto simp: sorted_wrt_rev)
  then show "sort_key item_cursor (take a (rev msgs) @ take b (rev ops))
      = rev (merge (\<lambda>x y. before_item y x) (take a (rev msgs)) (take b (rev ops)))"
    by (intro sort_key_cong_set d2) (auto simp: sorted_wrt_rev)
qed

lemma rev_merge:
  assumes d: "distinct (map item_cursor (msgs @ ops))" and "sorted_wrt before_item msgs"
    and "sorted_wrt before_item ops"
  shows "merge (\<lambda>x y. before_item y x) (rev msgs) (rev ops) = rev (merge before_item msgs ops)"
proof -
  have "sort_key item_cursor (rev msgs @ rev ops) = rev (merge (\<lambda>x y. before_item y x) (rev msgs) (rev ops))"
    using sort_takes(2) [OF assms, of "length msgs" "length ops"] by simp
  moreover have "sort_key item_cursor (rev msgs @ rev ops) = merge before_item msgs ops"
    using d assms(2,3) before_item_total [OF d]
    by (intro sort_key_cong_set merge_sorted before_item_order) (auto simp: rev_map [symmetric])
  ultimately show ?thesis by (metis rev_rev_ident)
qed

lemma take_min_sum: "(n < min a (Suc n) + min b (Suc n)) = (n < a + (b :: nat))"
  by auto

lemma merge_page_slice:
  assumes "distinct (map item_cursor (msgs @ ops))"
    and "after = (pr_after request \<noteq> None \<or> pr_oldest request)"
    and "rows = slice after (or_else (pr_after request) (pr_before request)) (pr_stop request) (timeline msgs ops)"
  shows "fst (merge_page msgs ops request limit) = (if after then take limit rows else keep_last limit rows)
    \<and> hi_more (snd (merge_page msgs ops request limit)) = (length rows > limit)"
proof -
  let ?c = "or_else (pr_after request) (pr_before request)" and ?s = "pr_stop request"
  let ?m = "sort_key item_cursor (slice after ?c ?s msgs)" and ?o = "sort_key item_cursor (slice after ?c ?s ops)"
  have dm: "distinct (map item_cursor (slice after ?c ?s msgs @ slice after ?c ?s ops))"
    unfolding slice_def by (rule distinct_filters [OF assms(1)])
  then have sm: "sorted_wrt before_item ?m" and so: "sorted_wrt before_item ?o"
    by (auto intro: sort_key_strict)
  have d: "distinct (map item_cursor (?m @ ?o))" using dm by (simp add: distinct_map)
  have rows: "rows = merge before_item ?m ?o"
    unfolding assms(3) by (rule slice_merge [OF assms(1)])
  define items where "items = sort_key item_cursor
      (page_query after ?c ?s (limit + 1) msgs @ page_query after ?c ?s (limit + 1) ops)"
  have len: "(length items > limit) = (length rows > limit)"
    by (cases after) (simp_all add: items_def page_query_def Let_def rows slice_def take_min_sum)
  have page: "(if after then take limit items else keep_last limit items)
      = (if after then take limit rows else keep_last limit rows)"
  proof (cases after)
    case True
    then have "items = merge before_item (take (limit + 1) ?m) (take (limit + 1) ?o)"
      using sort_takes(1) [OF d sm so] by (simp add: items_def page_query_def Let_def slice_def)
    with True show ?thesis by (simp add: rows take_merge)
  next
    case False
    then have "items = rev (merge (\<lambda>x y. before_item y x) (take (limit + 1) (rev ?m)) (take (limit + 1) (rev ?o)))"
      using sort_takes(2) [OF d sm so] by (simp add: items_def page_query_def Let_def slice_def)
    then have "keep_last limit items = rev (take limit (merge (\<lambda>x y. before_item y x) (rev ?m) (rev ?o)))"
      by (simp add: keep_last_def take_merge)
    also have "\<dots> = keep_last limit rows" by (simp add: rows rev_merge [OF d sm so] keep_last_def)
    finally show ?thesis using False by simp
  qed
  have "fst (merge_page msgs ops request limit) = (if after then take limit items else keep_last limit items)"
    by (simp add: merge_page_def Let_def items_def assms(2) keep_last_drop)
  moreover have "hi_more (snd (merge_page msgs ops request limit)) = (length items > limit)"
    by (simp add: merge_page_def Let_def items_def assms(2))
  ultimately show ?thesis using page len by simp
qed

lemma merge_page_cursors:
  "hi_before (snd (merge_page msgs ops request limit)) =
     (if \<not> (pr_after request \<noteq> None \<or> pr_oldest request) \<and> hi_more (snd (merge_page msgs ops request limit))
      then first_cursor (fst (merge_page msgs ops request limit)) else None)"
  "hi_after (snd (merge_page msgs ops request limit)) =
     (if (pr_after request \<noteq> None \<or> pr_oldest request) \<and> hi_more (snd (merge_page msgs ops request limit))
      then last_cursor (fst (merge_page msgs ops request limit)) else None)"
  by (simp_all only: merge_page_def Let_def prod.sel page_history.simps)

section \<open>Reading on\<close>

fun read_back :: "nat \<Rightarrow> thread_item list \<Rightarrow> thread_item list \<Rightarrow> position \<Rightarrow> thread_item list" where
  "read_back 0 msgs ops c = []"
| "read_back (Suc n) msgs ops c =
     (let (page, history) = merge_page msgs ops (default_request\<lparr>pr_before := Some c\<rparr>) 50
      in case hi_before history of None \<Rightarrow> page | Some c' \<Rightarrow> read_back n msgs ops c' @ page)"

fun read_gap ::
  "nat \<Rightarrow> thread_item list \<Rightarrow> thread_item list \<Rightarrow> position \<Rightarrow> position option \<Rightarrow> thread_item list" where
  "read_gap 0 msgs ops c stop = []"
| "read_gap (Suc n) msgs ops c stop =
     (let (page, history) = merge_page msgs ops (default_request\<lparr>pr_after := Some c, pr_stop := stop\<rparr>) 50
      in page @ (case hi_after history of None \<Rightarrow> [] | Some c' \<Rightarrow> read_gap n msgs ops c' stop))"

lemma strict_split:
  assumes "sorted_wrt before_item (xs @ y # ys)"
  shows "filter (\<lambda>i. item_cursor i < item_cursor y) (xs @ y # ys) = xs"
    and "filter (\<lambda>i. item_cursor y < item_cursor i) (xs @ y # ys) = ys"
  using assms by (fastforce simp: sorted_wrt_append before_item_def filter_empty_conv filter_id_conv)+

lemma timeline_sorted:
  "distinct (map item_cursor (msgs @ ops)) \<Longrightarrow> sorted_wrt before_item (slice after c s (timeline msgs ops))"
  unfolding slice_def timeline_def by (intro sorted_wrt_filter sort_key_strict)

lemma slice_before:
  assumes "k < c"
  shows "slice False (Some k) None items = filter (\<lambda>i. item_cursor i < k) (slice False (Some c) None items)"
  unfolding slice_def in_range_def filter_filter
  by (rule filter_cong [OF refl]) (simp, meson assms less_trans)

lemma slice_after:
  assumes "c < k"
  shows "slice True (Some k) s items = filter (\<lambda>i. k < item_cursor i) (slice True (Some c) s items)"
  unfolding slice_def in_range_def filter_filter
  by (rule filter_cong [OF refl]) (simp, meson assms less_trans)

lemma slice_bounds:
  "i \<in> set (slice False (Some c) s items) \<Longrightarrow> item_cursor i < c"
  "i \<in> set (slice True (Some c) s items) \<Longrightarrow> c < item_cursor i"
  by (simp_all add: slice_def in_range_def)

lemma read_back_all:
  assumes d: "distinct (map item_cursor (msgs @ ops))"
  shows "length (slice False (Some c) None (timeline msgs ops)) \<le> n
    \<Longrightarrow> read_back n msgs ops c = slice False (Some c) None (timeline msgs ops)"
proof (induction n arbitrary: c)
  case (Suc n)
  let ?req = "default_request\<lparr>pr_before := Some c\<rparr>" and ?rows = "slice False (Some c) None (timeline msgs ops)"
  let ?p = "merge_page msgs ops ?req 50"
  have page: "fst ?p = keep_last 50 ?rows" "hi_more (snd ?p) = (length ?rows > 50)"
    using merge_page_slice [OF d refl refl, of ?req 50] by (simp_all add: default_request_def or_else_def)
  have before: "hi_before (snd ?p) = (if length ?rows > 50 then first_cursor (fst ?p) else None)"
    unfolding merge_page_cursors(1) page(2) by (simp add: default_request_def)
  show ?case
  proof (cases "length ?rows > 50")
    case False
    then have "read_back (Suc n) msgs ops c = fst ?p" using before by (simp add: case_prod_beta)
    with False page(1) show ?thesis by (simp add: keep_last_drop)
  next
    case True
    let ?k = "length ?rows - 50"
    obtain y ys where y: "drop ?k ?rows = y # ys" using True by (cases "drop ?k ?rows") auto
    then have split: "?rows = take ?k ?rows @ y # ys" by (metis append_take_drop_id)
    then have "filter (\<lambda>i. item_cursor i < item_cursor y) ?rows = take ?k ?rows"
      using strict_split(1) timeline_sorted [OF d] by metis
    moreover have "item_cursor y < c"
      by (rule slice_bounds(1)) (subst split, simp)
    ultimately have rest: "slice False (Some (item_cursor y)) None (timeline msgs ops) = take ?k ?rows"
      by (simp add: slice_before)
    have "fst ?p = y # ys" using True y page(1) by (simp add: keep_last_drop)
    then have "read_back (Suc n) msgs ops c
        = read_back n msgs ops (item_cursor y) @ y # ys"
      using before True by (simp add: case_prod_beta first_cursor_def)
    moreover have "read_back n msgs ops (item_cursor y) = take ?k ?rows"
      using Suc.IH [of "item_cursor y"] Suc.prems True rest by simp
    ultimately show ?thesis using split by simp
  qed
qed simp

lemma read_gap_all:
  assumes d: "distinct (map item_cursor (msgs @ ops))"
  shows "length (slice True (Some c) stop (timeline msgs ops)) \<le> n
    \<Longrightarrow> read_gap n msgs ops c stop = slice True (Some c) stop (timeline msgs ops)"
proof (induction n arbitrary: c)
  case (Suc n)
  let ?req = "default_request\<lparr>pr_after := Some c, pr_stop := stop\<rparr>"
  let ?rows = "slice True (Some c) stop (timeline msgs ops)" and ?p = "merge_page msgs ops ?req 50"
  have page: "fst ?p = take 50 ?rows" "hi_more (snd ?p) = (length ?rows > 50)"
    using merge_page_slice [OF d refl refl, of ?req 50] by (simp_all add: default_request_def or_else_def)
  have after: "hi_after (snd ?p) = (if length ?rows > 50 then last_cursor (fst ?p) else None)"
    unfolding merge_page_cursors(2) page(2) by (simp add: default_request_def)
  show ?case
  proof (cases "length ?rows > 50")
    case False
    then have "read_gap (Suc n) msgs ops c stop = fst ?p" using after by (simp add: case_prod_beta)
    with False page(1) show ?thesis by simp
  next
    case True
    then obtain xs y where y: "take 50 ?rows = xs @ [y]"
      by (cases "take 50 ?rows" rule: rev_cases) auto
    then have split: "?rows = xs @ y # drop 50 ?rows"
      by (metis append_take_drop_id append.assoc append_Cons append_Nil)
    then have "filter (\<lambda>i. item_cursor y < item_cursor i) ?rows = drop 50 ?rows"
      using strict_split(2) timeline_sorted [OF d] by metis
    moreover have "c < item_cursor y"
      by (rule slice_bounds(2)) (subst split, simp)
    ultimately have rest: "slice True (Some (item_cursor y)) stop (timeline msgs ops) = drop 50 ?rows"
      by (simp add: slice_after)
    have "fst ?p = xs @ [y]" using y page(1) by simp
    then have "read_gap (Suc n) msgs ops c stop = xs @ y # read_gap n msgs ops (item_cursor y) stop"
      using after True by (simp add: case_prod_beta last_cursor_def first_cursor_def)
    moreover have "read_gap n msgs ops (item_cursor y) stop = drop 50 ?rows"
      using Suc.IH [of "item_cursor y"] Suc.prems True rest by simp
    ultimately show ?thesis using split by simp
  qed
qed simp

text \<open>Everything a reader gets who opens a thread and follows its cursors.\<close>

definition whole_thread :: "thread_item list \<Rightarrow> thread_item list \<Rightarrow> bool \<Rightarrow> thread_item list" where
  "whole_thread msgs ops is_puzzle =
     (let (items, history) = thread_page msgs ops is_puzzle default_request;
          n = length msgs + length ops
      in case hi_after history of
           Some c \<Rightarrow> (case items of [] \<Rightarrow> []
               | i # rest \<Rightarrow> i # read_gap n msgs ops c (hi_stop history) @ rest)
         | None \<Rightarrow> (case hi_before history of
               Some c \<Rightarrow> read_back n msgs ops c @ items
             | None \<Rightarrow> items))"

lemma length_slice: "length (slice a c s (timeline msgs ops)) \<le> length msgs + length ops"
  using length_filter_le [of _ "timeline msgs ops"] by (simp add: slice_def timeline_def)

lemma latest_page:
  assumes d: "distinct (map item_cursor (msgs @ ops))"
  shows "fst (merge_page msgs ops default_request 50) = keep_last 50 (timeline msgs ops)"
    and "hi_before (snd (merge_page msgs ops default_request 50))
      = (if length (timeline msgs ops) > 50 then first_cursor (keep_last 50 (timeline msgs ops)) else None)"
    and "hi_after (snd (merge_page msgs ops default_request 50)) = None"
proof -
  have all: "slice False None None (timeline msgs ops) = timeline msgs ops"
    by (simp add: slice_def in_range_def)
  show 1: "fst (merge_page msgs ops default_request 50) = keep_last 50 (timeline msgs ops)"
    using merge_page_slice [OF d refl refl, of default_request 50] all by (simp add: default_request_def or_else_def)
  have "hi_more (snd (merge_page msgs ops default_request 50)) = (length (timeline msgs ops) > 50)"
    using merge_page_slice [OF d refl refl, of default_request 50] all by (simp add: default_request_def or_else_def)
  with 1 show "hi_before (snd (merge_page msgs ops default_request 50))
      = (if length (timeline msgs ops) > 50 then first_cursor (keep_last 50 (timeline msgs ops)) else None)"
    and "hi_after (snd (merge_page msgs ops default_request 50)) = None"
    unfolding merge_page_cursors by (simp_all add: default_request_def)
qed

lemma oldest_page:
  assumes d: "distinct (map item_cursor (msgs @ ops))"
  shows "fst (merge_page msgs ops (default_request\<lparr>pr_oldest := True\<rparr>) 1) = take 1 (timeline msgs ops)"
  using merge_page_slice [OF d refl refl, of "default_request\<lparr>pr_oldest := True\<rparr>" 1]
  by (simp add: default_request_def or_else_def slice_def in_range_def)

lemma gap_page:
  assumes d: "distinct (map item_cursor (msgs @ ops))"
  shows "fst (merge_page msgs ops (default_request\<lparr>pr_after := Some c, pr_stop := s\<rparr>) 1)
    = take 1 (slice True (Some c) s (timeline msgs ops))"
  using merge_page_slice [OF d refl refl, of "default_request\<lparr>pr_after := Some c, pr_stop := s\<rparr>" 1]
  by (simp add: default_request_def or_else_def)

lemma between:
  assumes "sorted_wrt before_item (x # xs @ y # ys)"
  shows "slice True (Some (item_cursor x)) (Some (item_cursor y)) (x # xs @ y # ys) = xs"
  using assms by (fastforce simp: slice_def in_range_def sorted_wrt_append before_item_def filter_empty_conv
      filter_id_conv)

lemma whole_thread_timeline:
  assumes d: "distinct (map item_cursor (msgs @ ops))"
  shows "whole_thread msgs ops is_puzzle = timeline msgs ops"
proof -
  let ?T = "timeline msgs ops" and ?p = "merge_page msgs ops default_request 50" and ?n = "length msgs + length ops"
  have sorted: "sorted_wrt before_item ?T"
    unfolding timeline_def by (rule sort_key_strict [OF d])
  note latest = latest_page [OF d]
  show ?thesis
  proof (cases "length ?T > 50")
    case False
    then have "thread_page msgs ops is_puzzle default_request = (?T, snd ?p)" "hi_before (snd ?p) = None"
      using latest by (simp_all add: thread_page_def default_request_def case_prod_beta Let_def keep_last_drop)
    then show ?thesis using latest(3) by (simp add: whole_thread_def Let_def)
  next
    case long: True
    let ?k = "length ?T - 50"
    obtain y ys where y: "drop ?k ?T = y # ys" using long by (cases "drop ?k ?T") auto
    then have T: "?T = take ?k ?T @ y # ys" by (metis append_take_drop_id)
    have page: "fst ?p = y # ys" and before: "hi_before (snd ?p) = Some (item_cursor y)"
      using latest(1,2) long y by (simp_all add: keep_last_drop first_cursor_def)
    obtain x xs where x: "take ?k ?T = x # xs" using long by (cases "take ?k ?T") auto
    have Tx: "?T = x # xs @ y # ys" using T x by simp
    show ?thesis
    proof (cases is_puzzle)
      case False
      then have "thread_page msgs ops is_puzzle default_request = (y # ys, snd ?p)"
        using page by (simp add: thread_page_def default_request_def case_prod_beta Let_def) (simp add: prod_eq_iff)
      moreover have "slice False (Some (item_cursor y)) None ?T = x # xs"
        using strict_split(1) [of "x # xs" y ys] sorted Tx by (simp add: slice_def in_range_def)
      then have "read_back ?n msgs ops (item_cursor y) = x # xs"
        using read_back_all [OF d length_slice] by simp
      ultimately show ?thesis
        using before latest(3) by (subst Tx) (simp add: whole_thread_def Let_def)
    next
      case True
      have first: "fst (merge_page msgs ops (default_request\<lparr>pr_oldest := True\<rparr>) 1) = [x]"
        using oldest_page [OF d] Tx by simp
      have "item_cursor x < item_cursor z" if "z \<in> set (y # ys)" for z
        using sorted that unfolding Tx before_item_def by auto
      then have new: "\<not> list_ex (\<lambda>i. item_cursor i = item_cursor x) (y # ys)"
        unfolding list_ex_iff by (metis less_irrefl)
      have gap: "slice True (Some (item_cursor x)) (Some (item_cursor y)) ?T = xs"
        using between sorted Tx by metis
      then have probe: "fst (merge_page msgs ops (default_request\<lparr>pr_after := Some (item_cursor x),
          pr_stop := Some (item_cursor y)\<rparr>) 1) = take 1 xs"
        using gap_page [OF d] by simp
      have thread: "thread_page msgs ops is_puzzle default_request = (x # y # ys,
          if xs = [] then no_history\<lparr>hi_newer := last_cursor (x # y # ys)\<rparr>
          else \<lparr>hi_before = None, hi_after = Some (item_cursor x), hi_stop = Some (item_cursor y),
            hi_newer = last_cursor (x # y # ys), hi_more = True\<rparr>)"
        using True page before first new probe
        by (simp add: thread_page_def case_prod_beta Let_def first_cursor_def default_request_def)
      have "read_gap ?n msgs ops (item_cursor x) (Some (item_cursor y)) = xs"
        using read_gap_all [OF d length_slice] gap by metis
      then show ?thesis
        by (subst Tx) (simp add: whole_thread_def thread Let_def no_history_def)
    qed
  qed
qed

section \<open>Threads of tickets\<close>

lemma thread_positions_distinct:
  assumes "distinct (map ms_id (messages d))" and "distinct (map to_id (ticket_operations d))"
  shows "distinct (map item_cursor (message_items now view t d @ operation_items now view t d))"
proof -
  have "inj_on item_cursor (set (message_items now view t d))"
    using assms(1) by (auto simp: message_items_def show_message_def item_cursor_def inj_on_def distinct_map)
  moreover have "distinct (message_items now view t d)"
    using distinct_map_filter [OF assms(1)]
    by (auto simp: message_items_def distinct_map inj_on_def show_message_def)
  moreover have "inj_on item_cursor (set (operation_items now view t d))"
    using assms(2) by (auto simp: operation_items_def show_operation_def item_cursor_def inj_on_def distinct_map)
  moreover have "distinct (operation_items now view t d)"
    using distinct_map_filter [OF assms(2)]
    by (auto simp: operation_items_def distinct_map inj_on_def show_operation_def)
  moreover have "item_cursor i \<noteq> item_cursor j"
    if "i \<in> set (message_items now view t d)" "j \<in> set (operation_items now view t d)" for i j
    using that by (auto simp: message_items_def operation_items_def item_cursor_def split: if_splits)
  ultimately show ?thesis by (simp add: distinct_map disjoint_iff) (metis image_iff)
qed

definition ticket_timeline :: "time \<Rightarrow> bool \<Rightarrow> nat \<Rightarrow> db \<Rightarrow> thread_item list" where
  "ticket_timeline now view t d = timeline (message_items now view t d) (operation_items now view t d)"

text \<open>
  A page is the right part of the thread. Although each of the two tables is asked for only one row
  more than a page holds, the merged page is exactly the first rows after the cursor, or the last rows
  before it, of the whole thread in order; and it says there is more if and only if there is.
\<close>

theorem page_is_slice:
  assumes "distinct (map ms_id (messages d))" and "distinct (map to_id (ticket_operations d))"
    and "after = (pr_after request \<noteq> None \<or> pr_oldest request)"
    and "rows = slice after (or_else (pr_after request) (pr_before request)) (pr_stop request)
      (ticket_timeline now view t d)"
    and "get_ticket_messages_page now d t view request limit = (page, history)"
  shows "page = (if after then take limit rows else keep_last limit rows)
    \<and> hi_more history = (length rows > limit)"
  using merge_page_slice [OF thread_positions_distinct [OF assms(1,2)] assms(3) assms(4) [unfolded ticket_timeline_def]]
    assms(5) unfolding get_ticket_messages_page_def by (metis prod.sel)

text \<open>
  C36: a thread is shown whole. A reader who opens a ticket and follows the cursors of the pages, back from
  the latest page or, for a puzzle's ticket, through the gap between its first item and the latest page,
  gets every item of the thread exactly once and in order.
\<close>

theorem thread_is_shown_whole:
  assumes "distinct (map ms_id (messages d))" and "distinct (map to_id (ticket_operations d))"
  shows "whole_thread (message_items now view t d) (operation_items now view t d) is_puzzle
      = ticket_timeline now view t d
    \<and> set (ticket_timeline now view t d)
      = set (message_items now view t d) \<union> set (operation_items now view t d)
    \<and> sorted_wrt before_item (ticket_timeline now view t d)"
proof -
  note d = thread_positions_distinct [OF assms, of now view t]
  show ?thesis
    unfolding ticket_timeline_def using whole_thread_timeline [OF d] sort_key_strict [OF d]
    by (simp add: timeline_def)
qed

text \<open>A ticket with its opening message and one reply.\<close>

definition thread_db :: db where
  "thread_db = empty_db\<lparr>
     tickets := [\<lparr>tk_id = 7, tk_team = 3, tk_puzzle = Some 6, tk_state = 1, tk_assignee = None\<rparr>],
     ticket_operations := [\<lparr>to_id = 1, to_ticket = 7, to_action = OpOpen, to_actor = 8, to_actor_type = 0,
       to_message = Some 1, to_ctime = 5\<rparr>],
     messages := [new_message 5 1 7 \<lparr>sd_content = [97], sd_content_type = 2, sd_sender = 8, sd_sender_type = 0,
         sd_cost_id = None, sd_cost_amount = 0, sd_unlock_after = 0\<rparr>,
       new_message 9 2 7 \<lparr>sd_content = [98], sd_content_type = 2, sd_sender = 10, sd_sender_type = 1,
         sd_cost_id = Some 5, sd_cost_amount = 10, sd_unlock_after = 0\<rparr>]\<rparr>"

lemma thread_db_ids: "distinct (map ms_id (messages thread_db))" "distinct (map to_id (ticket_operations thread_db))"
  by (simp_all add: thread_db_def new_message_def)

lemma page_is_slice_witness:
  "\<exists>page history. get_ticket_messages_page 10 thread_db 7 False default_request 1 = (page, history)
    \<and> page = keep_last 1 (slice False None None (ticket_timeline 10 False 7 thread_db))"
proof -
  obtain page history where p: "get_ticket_messages_page 10 thread_db 7 False default_request 1 = (page, history)"
    by (cases "get_ticket_messages_page 10 thread_db 7 False default_request 1")
  from page_is_slice [OF thread_db_ids refl refl p] p show ?thesis
    by (simp add: default_request_def or_else_def)
qed

lemma thread_is_shown_whole_witness:
  "whole_thread (message_items 10 False 7 thread_db) (operation_items 10 False 7 thread_db) True
    = ticket_timeline 10 False 7 thread_db"
  using thread_is_shown_whole [OF thread_db_ids, of 10 False 7 True] by blast

end
