(* ===== verification/Ticket_Laws.thy ===== *)
theory Ticket_Laws
  imports Ticket_Routes Ticket_Thread
begin

text \<open>
  What holds of tickets and direct messages over every sequence of requests: one open ticket per team,
  a bounded number of unanswered messages, one charge per paid message, and the agreement of what the
  ticket page announces with what the routes then do.
\<close>

section \<open>The invariant\<close>

text \<open>The columns of tickets and messages the invariant is about.\<close>

definition ticket_shape :: "ticket_row \<Rightarrow> nat \<times> nat \<times> nat option \<times> int" where
  "ticket_shape tk = (tk_id tk, tk_team tk, tk_puzzle tk, tk_state tk)"

definition message_shape :: "message_row \<Rightarrow> nat \<times> nat \<times> int" where
  "message_shape m = (ms_id m, ms_ticket m, ms_sender_type m)"

definition message_limit :: "nat option \<Rightarrow> nat" where
  "message_limit p = (if p = None then 3 else 1)"

definition pending_shapes :: "(nat \<times> nat \<times> int) list \<Rightarrow> nat \<Rightarrow> (nat \<times> nat \<times> int) list" where
  "pending_shapes ms t = filter (\<lambda>m. fst (snd m) = t \<and> snd (snd m) = by_team
     \<and> \<not> (\<exists>r \<in> set ms. fst (snd r) = t \<and> snd (snd r) = by_host \<and> fst m < fst r)) ms"

definition tables_ok ::
  "(nat \<times> nat \<times> nat option \<times> int) list \<Rightarrow> (nat \<times> nat \<times> int) list \<Rightarrow> nat list \<Rightarrow> bool" where
  "tables_ok ts ms os \<longleftrightarrow>
     distinct (map fst ts) \<and> distinct (map fst ms) \<and> distinct os
     \<and> (\<forall>m \<in> set ms. fst (snd m) \<in> fst ` set ts)
     \<and> (\<forall>team. length (filter (\<lambda>(i, tm, p, s). tm = team \<and> p \<noteq> None \<and> s = state_open) ts) \<le> 1)
     \<and> (\<forall>team. length (filter (\<lambda>(i, tm, p, s). tm = team \<and> p = None) ts) \<le> 1)
     \<and> (\<forall>(i, tm, p, s) \<in> set ts. length (pending_shapes ms i) \<le> message_limit p)"

definition tickets_ok :: "db \<Rightarrow> bool" where
  "tickets_ok d \<longleftrightarrow> tables_ok (map ticket_shape (tickets d)) (map message_shape (messages d))
     (map to_id (ticket_operations d))"

lemma pending_shapes_count: "length (pending_shapes (map message_shape (messages d)) t) = get_pending_count d t"
  unfolding pending_shapes_def get_pending_count_def is_pending_def filter_map length_map
  by (rule arg_cong [where f = length], rule filter_cong)
    (auto simp: message_shape_def exists_row_iff)

lemma tickets_okI:
  assumes "tickets_ok d" and "map ticket_shape (tickets d') = map ticket_shape (tickets d)"
    and "map message_shape (messages d') = map message_shape (messages d)"
    and "map to_id (ticket_operations d') = map to_id (ticket_operations d)"
  shows "tickets_ok d'"
  using assms unfolding tickets_ok_def by (simp only:)

section \<open>What the statements keep\<close>

lemma same_shapes_update:
  "(\<And>r. ticket_shape (f r) = ticket_shape r) \<Longrightarrow> tickets_ok d \<Longrightarrow> tickets_ok (update_ticket p f d)"
  by (erule tickets_okI) (simp_all add: update_ticket_def)

lemma auto_assign_ok: "tickets_ok d \<Longrightarrow> tickets_ok (auto_assign_ticket_on_staff_message_conn t data d)"
  unfolding auto_assign_ticket_on_staff_message_conn_def
  by (simp add: same_shapes_update ticket_shape_def)

lemma insert_event_ok [simp]: "tickets_ok (insert_event e d) = tickets_ok d"
  by (simp add: tickets_ok_def insert_event_def)

lemma log_operation_ok:
  "tickets_ok d \<Longrightarrow> tickets_ok (log_operation now t a actor at m d)"
  using next_id_fresh [of to_id "ticket_operations d"]
  by (simp add: tickets_ok_def tables_ok_def log_operation_def new_operation_def)

lemma closing_ok:
  assumes ok: "tables_ok (map ticket_shape ts) ms os" and f: "\<And>r. f r = r\<lparr>tk_state := 0\<rparr>"
  shows "tables_ok (map ticket_shape (update_rows p f ts)) ms os"
proof -
  have ids: "map fst (map ticket_shape (update_rows p f ts)) = map fst (map ticket_shape ts)"
    by (simp add: update_rows_def ticket_shape_def f)
  have mono: "length (filter (\<lambda>(i, tm, q, s). tm = team \<and> q \<noteq> None \<and> s = state_open)
        (map ticket_shape (update_rows p f ts)))
      \<le> length (filter (\<lambda>(i, tm, q, s). tm = team \<and> q \<noteq> None \<and> s = state_open) (map ticket_shape ts))" for team
    by (induction ts) (auto simp: tbl_simps ticket_shape_def f state_open_def)
  have dm: "length (filter (\<lambda>(i, tm, q, s). tm = team \<and> q = None) (map ticket_shape (update_rows p f ts)))
      = length (filter (\<lambda>(i, tm, q, s). tm = team \<and> q = None) (map ticket_shape ts))" for team
    by (induction ts) (auto simp: tbl_simps ticket_shape_def f)
  have pend: "\<forall>(i, tm, q, s) \<in> set (map ticket_shape (update_rows p f ts)).
      length (pending_shapes ms i) \<le> message_limit q"
    using ok by (auto simp: tables_ok_def set_update_rows ticket_shape_def f split: if_splits)
  have "fst ` set (map ticket_shape (update_rows p f ts)) = fst ` set (map ticket_shape ts)"
    using arg_cong [OF ids, of set] by (simp only: set_map image_image)
  with ok ids mono dm pend show ?thesis
    unfolding tables_ok_def by (metis (no_types, lifting) order_trans)
qed

lemma pending_append_team:
  assumes "\<And>m. m \<in> set ms \<Longrightarrow> fst m < i"
  shows "pending_shapes (ms @ [(i, t, s)]) u
    = (if t = u \<and> s = by_host then []
       else if t = u \<and> s = by_team then pending_shapes ms u @ [(i, t, s)] else pending_shapes ms u)"
  using assms
  by (fastforce simp: pending_shapes_def by_team_def by_host_def filter_empty_conv intro!: filter_cong)

lemma insert_message_shapes:
  "tickets (snd (insert_ticket_message_conn now t data d)) = tickets d
   \<and> ticket_operations (snd (insert_ticket_message_conn now t data d)) = ticket_operations d
   \<and> messages (snd (insert_ticket_message_conn now t data d))
     = messages d @ [new_message now (next_id ms_id (messages d)) t data]"
  by (simp add: insert_ticket_message_conn_def Let_def)

lemma message_shape_new: "message_shape (new_message now i t data) = (i, t, sd_sender_type data)"
  by (simp add: message_shape_def new_message_def)

text \<open>A message may go to an existing ticket that has room for it, or comes from the host.\<close>

lemma find_ticket_shape:
  "find_ticket d t = Some tk \<Longrightarrow> (t, tk_team tk, tk_puzzle tk, tk_state tk) \<in> set (map ticket_shape (tickets d))"
  unfolding find_ticket_def find_Some_iff by (force simp: ticket_shape_def image_iff)

lemma tables_ok_limit:
  "tables_ok ts ms os \<Longrightarrow> (i, tm, p, s) \<in> set ts \<Longrightarrow> length (pending_shapes ms i) \<le> message_limit p"
  by (auto simp: tables_ok_def)

lemma tables_ok_same_id:
  assumes "tables_ok ts ms os" "(i, tm, p, s) \<in> set ts" "(i, tm', p', s') \<in> set ts"
  shows "p' = p"
proof -
  have "distinct (map fst ts)" using assms(1) by (simp add: tables_ok_def)
  from eq_key_imp_eq_value [OF this assms(2,3)] show ?thesis by simp
qed

lemma tables_ok_new_message:
  assumes ok: "tables_ok ts ms os" and less: "\<And>m. m \<in> set ms \<Longrightarrow> fst m < i"
    and tk: "(t, tm, p, s) \<in> set ts"
    and room: "w \<noteq> by_host \<Longrightarrow> length (pending_shapes ms t) < message_limit p"
  shows "tables_ok ts (ms @ [(i, t, w)]) os"
proof -
  have "length (pending_shapes (ms @ [(i, t, w)]) i') \<le> message_limit p'" if "(i', tm', p', s') \<in> set ts" for i' tm' p' s'
    using room tables_ok_limit [OF ok that] tables_ok_same_id [OF ok tk, of tm' p' s'] that
    by (auto simp: pending_append_team [of ms i, OF less] by_team_def by_host_def)
  then have "\<forall>(i', tm', p', s') \<in> set ts. length (pending_shapes (ms @ [(i, t, w)]) i') \<le> message_limit p'"
    by blast
  moreover have "t \<in> fst ` set ts" using tk by force
  then have "\<forall>m \<in> set (ms @ [(i, t, w)]). fst (snd m) \<in> fst ` set ts"
    using ok by (simp add: tables_ok_def)
  moreover have "i \<notin> fst ` set ms" using less by blast
  then have "distinct (map fst (ms @ [(i, t, w)]))" using ok by (simp add: tables_ok_def)
  ultimately show ?thesis
    using ok unfolding tables_ok_def by blast
qed

lemma insert_message_ok:
  assumes ok: "tickets_ok d" and tk: "find_ticket d t = Some tk"
    and room: "sd_sender_type data \<noteq> by_host \<Longrightarrow> get_pending_count d t < message_limit (tk_puzzle tk)"
  shows "tickets_ok (snd (insert_ticket_message_conn now t data d))"
proof -
  have "fst m < next_id ms_id (messages d)" if "m \<in> set (map message_shape (messages d))" for m
    using that next_id_gt [of _ "messages d" ms_id] by (auto simp: message_shape_def)
  from tables_ok_new_message [OF ok [unfolded tickets_ok_def] this find_ticket_shape [OF tk],
      of "sd_sender_type data"] room
  show ?thesis
    by (simp add: tickets_ok_def insert_message_shapes message_shape_new pending_shapes_count)
qed

text \<open>A new ticket has no messages; its team must have none of its sort.\<close>

definition same_sort :: "nat \<Rightarrow> nat option \<Rightarrow> ticket_row \<Rightarrow> bool" where
  "same_sort team_id p tk \<longleftrightarrow> tk_team tk = team_id
     \<and> (if p = None then tk_puzzle tk = None else tk_puzzle tk \<noteq> None \<and> tk_state tk = state_open)"

lemma tables_ok_new_ticket:
  assumes ok: "tables_ok ts ms os" and fresh: "i \<notin> fst ` set ts"
    and free: "\<And>j q s. (j, team_id, q, s) \<in> set ts \<Longrightarrow>
      if p = None then q \<noteq> None else q = None \<or> s \<noteq> state_open"
  shows "tables_ok (ts @ [(i, team_id, p, state_open)]) ms os"
proof -
  have "pending_shapes ms i = []"
    using ok fresh unfolding tables_ok_def pending_shapes_def filter_empty_conv by metis
  moreover have "filter (\<lambda>(i, tm, q, s). tm = team_id \<and> q \<noteq> None \<and> s = state_open) ts = []" if "p \<noteq> None"
    using free that by (fastforce simp: filter_empty_conv)
  moreover have "filter (\<lambda>(i, tm, q, s). tm = team_id \<and> q = None) ts = []" if "p = None"
    using free that by (fastforce simp: filter_empty_conv)
  ultimately show ?thesis
    using ok fresh unfolding tables_ok_def by (cases "p = None") auto
qed

lemma insert_ticket_ok:
  assumes ok: "tickets_ok d" and free: "\<not> exists_row (same_sort team_id p) (tickets d)"
  shows "tickets_ok (snd (insert_ticket team_id p d))"
proof -
  have "next_id tk_id (tickets d) \<notin> fst ` set (map ticket_shape (tickets d))"
    using next_id_fresh [of tk_id "tickets d"] by (auto simp: ticket_shape_def)
  moreover have "if p = None then q \<noteq> None else q = None \<or> s \<noteq> state_open"
    if "(j, team_id, q, s) \<in> set (map ticket_shape (tickets d))" for j q s
    using free that by (auto simp: same_sort_def exists_row_iff ticket_shape_def)
  ultimately show ?thesis
    using tables_ok_new_ticket [OF ok [unfolded tickets_ok_def]]
    by (simp add: tickets_ok_def insert_ticket_def Let_def ticket_shape_def)
qed

section \<open>What the operations keep\<close>

lemma find_update_rows_key:
  "(\<And>r. key (f r) = key r) \<Longrightarrow> find (\<lambda>r. key r = k) (update_rows p f rs)
    = map_option (\<lambda>r. if p r then f r else r) (find (\<lambda>r. key r = k) rs)"
  by (induction rs) (auto simp: tbl_simps)

lemma find_update_ticket:
  "(\<And>r. tk_id (f r) = tk_id r) \<Longrightarrow>
    find_ticket (update_ticket p f d) t = map_option (\<lambda>tk. if p tk then f tk else tk) (find_ticket d t)"
  unfolding find_ticket_def update_ticket_def by (simp add: find_update_rows_key)

lemma update_ticket_tables [simp]:
  "messages (update_ticket p f d) = messages d" "ticket_operations (update_ticket p f d) = ticket_operations d"
  "teams (update_ticket p f d) = teams d"
  by (simp_all add: update_ticket_def)

lemma pending_count_update [simp]: "get_pending_count (update_ticket p f d) t = get_pending_count d t"
  by (simp add: get_pending_count_def is_pending_def [abs_def])

lemma find_auto_assign:
  "find_ticket d t = Some tk \<Longrightarrow>
    \<exists>tk'. find_ticket (auto_assign_ticket_on_staff_message_conn u data d) t = Some tk' \<and> tk_puzzle tk' = tk_puzzle tk"
  by (simp add: auto_assign_ticket_on_staff_message_conn_def find_update_ticket)

lemma pending_count_auto_assign [simp]:
  "get_pending_count (auto_assign_ticket_on_staff_message_conn u data d) t = get_pending_count d t"
  by (simp add: auto_assign_ticket_on_staff_message_conn_def)

lemma assigned_message_ok:
  assumes ok: "tickets_ok d" and tk: "find_ticket d t = Some tk"
    and room: "sd_sender_type data \<noteq> by_host \<Longrightarrow> get_pending_count d t < message_limit (tk_puzzle tk)"
  shows "tickets_ok (snd (insert_ticket_message_conn now t data (auto_assign_ticket_on_staff_message_conn u data d)))"
proof -
  obtain tk' where "find_ticket (auto_assign_ticket_on_staff_message_conn u data d) t = Some tk'"
    and p: "tk_puzzle tk' = tk_puzzle tk"
    using find_auto_assign [OF tk] by blast
  from insert_message_ok [OF auto_assign_ok [OF ok] this(1)] room show ?thesis by (simp add: p)
qed

lemma send_ticket_message_ok:
  assumes ok: "tickets_ok d" and sent: "send_ticket_message now t data max_pending force d = Inr (r, d')"
    and host: "sd_sender_type data = by_team \<or> sd_sender_type data = by_host"
    and room: "\<And>tk. sd_sender_type data = by_team \<Longrightarrow> find_ticket d t = Some tk \<Longrightarrow>
      max_pending = Some (message_limit (tk_puzzle tk))"
  shows "tickets_ok d'"
proof -
  from sent obtain tk where tk: "find_ticket d t = Some tk"
    by (auto simp: send_ticket_message_def split: option.splits)
  consider "d' = d"
    | "d' = snd (insert_ticket_message_conn now t data (auto_assign_ticket_on_staff_message_conn t data d))"
      "sd_sender_type data = by_team \<longrightarrow> \<not> reached max_pending (get_pending_count d t)"
    using sent tk
    by (auto simp: send_ticket_message_def Let_def case_prod_beta res_bind_eq_Inr split: option.splits if_splits)
  then show ?thesis
  proof cases
    case 2
    from 2 show ?thesis
      using assigned_message_ok [OF ok tk] host room [OF _ tk] by (auto simp: reached_def)
  qed (use ok in simp)
qed

lemma get_or_create_dm_ok:
  assumes "tickets_ok d"
  shows "tickets_ok (snd (get_or_create_dm_ticket_id now team u at d))"
proof (cases "get_dm_ticket_id d team")
  case None
  then have "\<not> exists_row (same_sort team None) (tickets d)"
    by (auto simp: get_dm_ticket_id_def find_None_iff exists_row_iff same_sort_def)
  from log_operation_ok [OF insert_ticket_ok [OF assms this]] None show ?thesis
    by (simp add: get_or_create_dm_ticket_id_def case_prod_beta Let_def)
qed (use assms in \<open>simp add: get_or_create_dm_ticket_id_def\<close>)

lemma assign_ok: "tickets_ok d \<Longrightarrow> tickets_ok (snd (assign_ticket_self t u force d))"
  by (simp add: assign_ticket_self_def same_shapes_update ticket_shape_def split: option.splits)

lemma unassign_ok: "tickets_ok d \<Longrightarrow> tickets_ok (snd (unassign_ticket t u d))"
  by (simp add: unassign_ticket_def Let_def same_shapes_update ticket_shape_def)

lemma assign_route_ok: "tickets_ok d \<Longrightarrow> tickets_ok (snd (assign_route u t force info d))"
  by (simp add: assign_route_def case_prod_beta Let_def assign_ok)

lemma unassign_route_ok: "tickets_ok d \<Longrightarrow> tickets_ok (snd (unassign_route u t info d))"
  by (simp add: unassign_route_def case_prod_beta Let_def unassign_ok)

lemma close_update_ok:
  "tickets_ok d \<Longrightarrow> tickets_ok (update_ticket p (\<lambda>tk. tk\<lparr>tk_state := state_closed\<rparr>) d)"
  unfolding tickets_ok_def update_ticket_def by (simp add: closing_ok state_closed_def)

lemma close_ticket_ok:
  assumes ok: "tickets_ok d"
    and host: "\<And>data. msg = Some data \<Longrightarrow> sd_sender_type data = by_host"
  shows "tickets_ok (snd (close_ticket now t u at msg force d))"
proof (cases "find_ticket d t")
  case (Some tk)
  define d1 where "d1 = update_ticket (\<lambda>tk. tk_id tk = t \<and> tk_state tk \<noteq> state_closed)
    (\<lambda>tk. tk\<lparr>tk_state := state_closed\<rparr>) d"
  have d1: "tickets_ok d1" unfolding d1_def by (rule close_update_ok [OF ok])
  obtain tk' where tk': "find_ticket d1 t = Some tk'"
    using Some by (simp add: d1_def find_update_ticket)
  have "tickets_ok (snd (insert_ticket_message_conn now t data (auto_assign_ticket_on_staff_message_conn t data d1)))"
    if "msg = Some data" for data
    using assigned_message_ok [OF d1 tk'] host [OF that] by simp
  with d1 ok Some show ?thesis
    by (auto simp: close_ticket_def Let_def case_prod_beta d1_def [symmetric] log_operation_ok
        split: option.splits)
qed (use ok in \<open>simp add: close_ticket_def\<close>)

lemma charge_member_tables:
  assumes "charge_member now u team c a d = Inr (paid, d')"
  shows "tickets d' = tickets d \<and> messages d' = messages d \<and> ticket_operations d' = ticket_operations d"
  using assms deduct_cases [of now team c "affords a" a d paid d']
  by (auto simp: charge_member_def set_amount_def update_tc_def split: option.splits if_splits)

lemma unlock_message_ok: "tickets_ok d \<Longrightarrow> tickets_ok (unlock_message now t m d)"
  by (erule tickets_okI) (simp_all add: unlock_message_def message_shape_def)

lemma purchase_ticket_message_ok:
  assumes ok: "tickets_ok d" and bought: "purchase_ticket_message now needs_pay u t m d = Inr (r, d')"
  shows "tickets_ok d'"
proof -
  have step: "tickets_ok (insert_event e (unlock_message now t m d1))"
    if "tickets d1 = tickets d \<and> messages d1 = messages d \<and> ticket_operations d1 = ticket_operations d" for e d1
    using tickets_okI [OF ok, of d1] that by (simp add: unlock_message_ok)
  have "d' = d \<or> (\<exists>e d1. d' = insert_event e (unlock_message now t m d1)
      \<and> tickets d1 = tickets d \<and> messages d1 = messages d \<and> ticket_operations d1 = ticket_operations d)"
    using bought
    by (auto simp: purchase_ticket_message_def res_bind_eq_Inr Let_def dest: charge_member_tables
        split: option.splits if_splits)
  with step ok show ?thesis by blast
qed

lemma open_puzzle_ticket_ok:
  assumes ok: "tickets_ok d"
  shows "tickets_ok (snd (open_puzzle_ticket now team p msg d))"
proof (cases "has_open_ticket d team")
  case False
  then have free: "\<not> exists_row (same_sort team (Some p)) (tickets d)"
    by (auto simp: has_open_ticket_def exists_row_iff same_sort_def)
  define i where "i = next_id tk_id (tickets d)"
  define d1 where "d1 = snd (insert_ticket team (Some p) d)"
  have d1: "tickets_ok d1" unfolding d1_def by (rule insert_ticket_ok [OF ok free])
  have fresh: "tk_id tk \<noteq> i" if "tk \<in> set (tickets d)" for tk
    using next_id_gt [OF that, of tk_id] by (simp add: i_def)
  then have "find (\<lambda>tk. tk_id tk = i) (tickets d) = None" by (auto simp: find_None_iff)
  then have tk: "find_ticket d1 i = Some \<lparr>tk_id = i, tk_team = team, tk_puzzle = Some p, tk_state = state_open,
      tk_assignee = None\<rparr>"
    by (simp add: d1_def insert_ticket_def Let_def find_ticket_def find_append flip: i_def)
  have "ms_ticket m \<noteq> i" if "m \<in> set (messages d)" for m
  proof -
    have "fst (snd (message_shape m)) \<in> fst ` set (map ticket_shape (tickets d))"
      using ok that by (simp add: tickets_ok_def tables_ok_def)
    then obtain tk where "tk \<in> set (tickets d)" "tk_id tk = ms_ticket m"
      by (auto simp: message_shape_def ticket_shape_def)
    with fresh [of tk] show ?thesis by simp
  qed
  then have "get_pending_count d1 i = 0"
    by (auto simp: get_pending_count_def is_pending_def d1_def insert_ticket_def Let_def filter_empty_conv)
  then have "tickets_ok (snd (insert_ticket_message_conn now i msg d1))"
    using insert_message_ok [OF d1 tk] by (simp add: message_limit_def)
  then show ?thesis
    using ok by (auto simp: open_puzzle_ticket_def Let_def case_prod_beta d1_def i_def insert_ticket_def log_operation_ok
        split: option.splits)
qed (use ok in \<open>simp add: open_puzzle_ticket_def\<close>)

lemma new_operations_ids: "map to_id (new_operations now a u at i ids) = [i..<i + length ids]"
proof (induction ids arbitrary: i)
  case (Cons x ids)
  then show ?case using upt_conv_Cons [of i "i + length (x # ids)"] by simp
qed simp

lemma auto_close_ok:
  assumes "tickets_ok d"
  shows "tickets_ok (close_puzzle_tickets_on_solve_conn now team p u d)"
proof -
  let ?os = "map to_id (ticket_operations d)" and ?i = "next_id to_id (ticket_operations d)"
  have "set ?os \<inter> set [?i..<?i + n] = {}" for n
    using next_id_gt [of _ "ticket_operations d" to_id] by fastforce
  then have "tables_ok ts ms (?os @ [?i..<?i + n])" if "tables_ok ts ms ?os" for ts ms n
    using that by (simp add: tables_ok_def)
  from this [OF closing_ok [OF assms [unfolded tickets_ok_def], of "\<lambda>tk. tk\<lparr>tk_state := 0\<rparr>"]] show ?thesis
    by (simp add: tickets_ok_def close_puzzle_tickets_on_solve_conn_def Let_def new_operations_ids)
qed

section \<open>What the requests keep\<close>

lemma normalized_sender: "normalize_unlock_requirements req team d = Some req' \<Longrightarrow> rq_sender_type req' = rq_sender_type req"
  by (auto simp: normalize_unlock_requirements_def normalize_unlock_values_def Let_def
      split: if_splits option.splits)

lemma do_send_ok:
  assumes ok: "tickets_ok d"
    and room: "\<And>tk. rq_sender_type req = by_team \<Longrightarrow> find_ticket d (tu_ticket info) = Some tk \<Longrightarrow>
      max_pending = Some (message_limit (tk_puzzle tk))"
  shows "tickets_ok (snd (do_send_ticket_message now role u req info max_pending d))"
proof -
  let ?r = "do_send_ticket_message now role u req info max_pending d"
  have "snd ?r = d \<or> (\<exists>req' team r. normalize_unlock_requirements req team d = Some req'
      \<and> (rq_sender_type req = by_team \<or> rq_sender_type req = by_host)
      \<and> send_ticket_message now (tu_ticket info) (data_of req' u (rq_sender_type req')) max_pending
        (rq_force req') d = Inr (r, snd ?r))"
    by (auto simp: do_send_ticket_message_def split: option.splits sum.splits send_result.splits)
  moreover have "tickets_ok d'" if "normalize_unlock_requirements req team d = Some req'"
      "rq_sender_type req = by_team \<or> rq_sender_type req = by_host"
      "send_ticket_message now (tu_ticket info) (data_of req' u (rq_sender_type req')) max_pending
        (rq_force req') d = Inr (r, d')" for req' team r d'
    by (rule send_ticket_message_ok [OF ok that(3)]) (use that room in \<open>auto simp: data_of_def normalized_sender\<close>)
  ultimately show ?thesis using ok by metis
qed

lemma middleware_ticket:
  assumes "check_ticket_middleware now us d t u = Some info"
  shows "tu_ticket info = t \<and> (\<forall>tk. find_ticket d t = Some tk \<longrightarrow> tk_puzzle tk \<noteq> None)"
  using assms
  by (auto simp: check_ticket_middleware_def get_ticket_user_info_def get_ticket_summary_def make_puzzle_def
      res_bind_eq_Inr split: option.splits if_splits sum.splits)

lemma find_SomeD: "find p xs = Some x \<Longrightarrow> x \<in> set xs \<and> p x"
  by (auto simp: find_Some_iff)

lemma dm_ticket_no_puzzle:
  assumes ok: "tickets_ok d" and i: "get_or_create_dm_ticket_id now team u at d = (i, d')"
    and tk: "find_ticket d' i = Some tk"
  shows "tk_puzzle tk = None"
proof (cases "get_dm_ticket_id d team")
  case None
  then have "find (\<lambda>tk. tk_id tk = i) (tickets d) = None"
    using i next_id_gt [of _ "tickets d" tk_id]
    by (fastforce simp: get_or_create_dm_ticket_id_def insert_ticket_def Let_def find_None_iff)
  with None i tk show ?thesis
    by (auto simp: get_or_create_dm_ticket_id_def insert_ticket_def Let_def log_operation_def find_ticket_def
        find_append)
next
  case (Some j)
  then have d: "d' = d" and j: "j = i" using i by (simp_all add: get_or_create_dm_ticket_id_def)
  from Some j obtain tk' where tk': "tk' \<in> set (tickets d)" "tk_puzzle tk' = None" "tk_id tk' = i"
    by (auto simp: get_dm_ticket_id_def dest: find_SomeD)
  have "ticket_shape tk' \<in> set (map ticket_shape (tickets d))" using tk' by simp
  then show ?thesis
    using tables_ok_same_id [OF ok [unfolded tickets_ok_def] find_ticket_shape [OF tk [unfolded d]],
        of "tk_team tk'" "tk_puzzle tk'" "tk_state tk'"] tk' by (simp add: ticket_shape_def)
qed

lemma user_info_ticket: "get_ticket_user_info us d t u = Some info \<Longrightarrow> tu_ticket info = t"
  by (auto simp: get_ticket_user_info_def split: option.splits)

lemma send_dm_ok:
  assumes ok: "tickets_ok d"
  shows "tickets_ok (snd (send_dm_ticket_message now us role u team req d))"
proof -
  obtain i d1 where i: "get_or_create_dm_ticket_id now team u by_team d = (i, d1)" by fastforce
  have d1: "tickets_ok d1" using get_or_create_dm_ok [OF ok, of now team u by_team] i by simp
  have "tickets_ok (snd (do_send_ticket_message now role u req info (Some 3) d1))"
    if "get_ticket_user_info us d1 i u = Some info" for info
    by (rule do_send_ok [OF d1]) (use dm_ticket_no_puzzle [OF ok i] user_info_ticket [OF that] in
        \<open>auto simp: message_limit_def\<close>)
  with ok d1 i show ?thesis
    by (simp add: send_dm_ticket_message_def Let_def case_prod_beta split: option.splits)
qed

lemma send_staff_dm_ok:
  assumes ok: "tickets_ok d"
  shows "tickets_ok (snd (send_staff_dm_ticket_message now us role u g team req d))"
proof -
  obtain i d1 where i: "get_or_create_dm_ticket_id now team u by_host d = (i, d1)" by fastforce
  have d1: "tickets_ok d1" using get_or_create_dm_ok [OF ok, of now team u by_host] i by simp
  have "tickets_ok (snd (do_send_ticket_message now role u (req\<lparr>rq_sender_type := by_host\<rparr>) info None d1))" for info
    by (rule do_send_ok [OF d1]) (simp add: by_host_def by_team_def)
  with ok d1 i show ?thesis
    by (simp add: send_staff_dm_ticket_message_def Let_def case_prod_beta split: option.splits)
qed

lemma close_route_ok:
  assumes ok: "tickets_ok d"
  shows "tickets_ok (snd (close_ticket_route now role u info req d))"
proof -
  have "tickets_ok (snd (close_ticket now t u by_host (map_option (\<lambda>m. data_of m u by_host) msg) force d))" for t msg force
    by (rule close_ticket_ok [OF ok]) (auto simp: data_of_def)
  then have "tickets_ok d'" if "close_ticket now t u by_host (map_option (\<lambda>m. data_of m u by_host) msg) force d = (r, d')"
    for t msg force r d' using that by (metis snd_conv)
  with ok show ?thesis
    by (auto simp: close_ticket_route_def Let_def split: sum.splits prod.splits close_result.splits)
qed

lemma open_for_team_ok:
  assumes ok: "tickets_ok d"
  shows "tickets_ok (snd (open_ticket_for_team now role u req team p st d))"
proof -
  have "tickets_ok d'" if "open_puzzle_ticket now team p msg d = (r, d')" for msg r d'
    using open_puzzle_ticket_ok [OF ok, of now team p msg] that by simp
  with ok show ?thesis
    by (auto simp: open_ticket_for_team_def split: option.split prod.split open_result.split sum.split list.split)
qed

lemma ticket_handle_ok:
  assumes ok: "tickets_ok d"
  shows "tickets_ok (snd (ticket_handle now us role u own req d))"
proof (cases req)
  case (SendToTicket t r)
  have "tickets_ok (snd (do_send_ticket_message now role u r info (Some 1) d))"
    if "check_ticket_middleware now us d t u = Some info" for info
    by (rule do_send_ok [OF ok]) (use middleware_ticket [OF that] in \<open>auto simp: message_limit_def\<close>)
  with ok SendToTicket show ?thesis by (simp add: case_prod_beta Let_def split: option.split)
next
  case (SendOwnDm g r)
  with ok show ?thesis by (simp add: send_dm_ok split: option.split)
next
  case (SendStaffDm g team r)
  with ok show ?thesis by (simp add: send_staff_dm_ok)
next
  case (SendStaffDmById g t r)
  have "tickets_ok (snd (do_send_ticket_message now role u (r\<lparr>rq_sender_type := by_host\<rparr>) info None d))" for info
    by (rule do_send_ok [OF ok]) (simp add: by_host_def by_team_def)
  with ok SendStaffDmById show ?thesis by (simp add: case_prod_beta Let_def split: option.split)
next
  case (CloseTicketReq t r)
  with ok show ?thesis by (simp add: case_prod_beta Let_def close_route_ok split: option.split)
next
  case (AssignReq t force)
  with ok show ?thesis by (simp add: assign_route_ok split: option.split)
next
  case (UnassignReq t)
  with ok show ?thesis by (simp add: unassign_route_ok split: option.split)
next
  case (AssignDmReq g t force)
  with ok show ?thesis by (simp add: assign_route_ok split: option.split)
next
  case (UnassignDmReq g t)
  with ok show ?thesis by (simp add: unassign_route_ok split: option.split)
next
  case (PurchaseReq t m)
  with ok show ?thesis
    by (auto dest: purchase_ticket_message_ok split: option.split sum.split)
next
  case (OpenReq p r)
  with ok show ?thesis
    by (simp add: case_prod_beta Let_def open_ticket_def open_for_team_ok split: option.split)
next
  case (OpenStaffReq g p team r)
  with ok show ?thesis
    by (simp add: case_prod_beta Let_def open_staff_team_puzzle_ticket_def open_for_team_ok)
qed

section \<open>Histories\<close>

text \<open>
  Any sequence of requests, of solves that close tickets, and of anything that leaves the three tables
  alone, from a database without tickets.
\<close>

inductive ticket_history :: "db \<Rightarrow> bool" where
  history_start: "tickets d = [] \<Longrightarrow> messages d = [] \<Longrightarrow> ticket_operations d = [] \<Longrightarrow> ticket_history d"
| history_request: "ticket_history d \<Longrightarrow> ticket_history (snd (ticket_handle now us role u own req d))"
| history_solve: "ticket_history d \<Longrightarrow> ticket_history (close_puzzle_tickets_on_solve_conn now team p u d)"
| history_other: "ticket_history d \<Longrightarrow> tickets d' = tickets d \<Longrightarrow> messages d' = messages d
    \<Longrightarrow> ticket_operations d' = ticket_operations d \<Longrightarrow> ticket_history d'"

lemma ticket_history_ok: "ticket_history d \<Longrightarrow> tickets_ok d"
proof (induction rule: ticket_history.induct)
  case (history_start d)
  then show ?case by (simp add: tickets_ok_def tables_ok_def)
next
  case (history_other d d')
  then show ?case using tickets_okI [of d d'] by simp
qed (simp_all add: ticket_handle_ok auto_close_ok)

text \<open>
  C32: one ticket at a time. Whatever requests arrive in whatever order, every team has at most one open
  ticket for a puzzle and at most one thread of direct messages, and tickets, messages and operations
  keep distinct identifiers.
\<close>

theorem one_ticket_at_a_time:
  assumes "ticket_history d"
  shows "affected (\<lambda>tk. tk_team tk = team \<and> tk_puzzle tk \<noteq> None \<and> tk_state tk = state_open) (tickets d) \<le> 1
    \<and> affected (\<lambda>tk. tk_team tk = team \<and> tk_puzzle tk = None) (tickets d) \<le> 1
    \<and> distinct (map tk_id (tickets d)) \<and> distinct (map ms_id (messages d))
    \<and> distinct (map to_id (ticket_operations d))"
  using ticket_history_ok [OF assms] unfolding tickets_ok_def tables_ok_def affected_def filter_map length_map map_map
  by (simp add: ticket_shape_def message_shape_def o_def)

text \<open>
  C33: unanswered messages are bounded. In every reachable state a puzzle's ticket holds at most one
  message of the team after the last reply, and a thread of direct messages at most three.
\<close>

theorem unanswered_messages_bounded:
  assumes "ticket_history d" and "find_ticket d t = Some tk"
  shows "get_pending_count d t \<le> (if tk_puzzle tk = None then 3 else 1)"
  using tables_ok_limit [OF ticket_history_ok [OF assms(1), unfolded tickets_ok_def] find_ticket_shape [OF assms(2)]]
  by (simp add: pending_shapes_count message_limit_def)

section \<open>Payment\<close>

lemma find_message_unlock:
  assumes "find_message d m = Some row"
  shows "find_message (unlock_message now t m d) m
    = Some (if ms_ticket row = t \<and> \<not> ms_unlocked row then row\<lparr>ms_unlocked := True, ms_utime := Some now\<rparr> else row)"
  using assms by (auto simp: find_message_def unlock_message_def find_update_rows_key dest: find_SomeD)

lemma charge_member_paid:
  assumes "charge_member now u team cid a d = Inr (Some paid, d')"
  shows "\<exists>b. raw_current now team cid d = Inr (Some b) \<and> affords a b \<and> d' = set_amount now team cid (b - a) d
    \<and> exists_row (member_of team u) (members d)"
  using assms deduct_cases [of now team cid "affords a" a d "Some paid" d']
  by (auto simp: charge_member_def split: option.splits if_splits dest: find_SomeD simp: exists_row_iff)

lemma purchase_done:
  assumes "purchase_ticket_message now needs_pay u t m d = Inr (PurchaseDone s, d')"
  obtains row tk e d1 where "find_message d m = Some row" "find_ticket d t = Some tk" "ms_ticket row = t"
    "purchasable now row" "d' = insert_event e (unlock_message now t m d1)" "messages d1 = messages d"
    "if needs_pay then (\<exists>cid paid. ms_cost_id row = Some cid
        \<and> charge_member now u (tk_team tk) cid (ms_cost_amount row) d = Inr (Some paid, d1)) else d1 = d"
    "get_ticket_message now d' m True = Some s"
  using assms
  by (auto simp: purchase_ticket_message_def res_bind_eq_Inr Let_def ok_or_def charge_member_tables
      split: option.splits if_splits)

text \<open>
  C34: a reply is paid for once. When a purchase succeeds, the message was locked and its time to be
  unlocked, if it has one, was reached; the team of the member who asked is charged exactly its cost in
  its currency, which the team could afford (staff are not charged), nothing else of the accounts changes,
  and the message is shown unlocked; every later purchase of it by anyone is refused and changes nothing.
  A purchase that does not succeed changes nothing either.
\<close>

theorem message_is_paid_once:
  assumes bought: "purchase_ticket_message now needs_pay u t m d = Inr (r, d')"
  shows "case r of
      PurchaseDone s \<Rightarrow> sm_unlocked s \<and> sm_id s = m
        \<and> (\<exists>row tk. find_message d m = Some row \<and> find_ticket d t = Some tk \<and> ms_ticket row = t
            \<and> \<not> ms_unlocked row \<and> (\<forall>at. ms_unlock_at row = Some at \<longrightarrow> at \<le> now)
            \<and> (if needs_pay
               then \<exists>cid b. ms_cost_id row = Some cid \<and> raw_current now (tk_team tk) cid d = Inr (Some b)
                 \<and> affords (ms_cost_amount row) b \<and> exists_row (member_of (tk_team tk) u) (members d)
                 \<and> team_currencies d' = team_currencies (set_amount now (tk_team tk) cid (b - ms_cost_amount row) d)
               else team_currencies d' = team_currencies d))
        \<and> purchase_ticket_message later pays someone t m d' = Inr (PurchaseUnavailable, d')
    | _ \<Rightarrow> d' = d"
proof (cases r)
  case (PurchaseDone s)
  from bought [unfolded PurchaseDone] obtain row tk e d1 where p: "find_message d m = Some row" "find_ticket d t = Some tk" "ms_ticket row = t"
    "purchasable now row" "d' = insert_event e (unlock_message now t m d1)" "messages d1 = messages d"
    "if needs_pay then (\<exists>cid paid. ms_cost_id row = Some cid
        \<and> charge_member now u (tk_team tk) cid (ms_cost_amount row) d = Inr (Some paid, d1)) else d1 = d"
    "get_ticket_message now d' m True = Some s"
    by (rule purchase_done)
  have locked: "\<not> ms_unlocked row" and due: "\<forall>at. ms_unlock_at row = Some at \<longrightarrow> at \<le> now"
    using p(4) by (auto simp: purchasable_def)
  have "find_message d1 m = Some row" using p(1,6) by (simp add: find_message_def)
  then have found: "find_message d' m = Some (row\<lparr>ms_unlocked := True, ms_utime := Some now\<rparr>)"
    using find_message_unlock [of d1 m row now t] p(3,5) locked
    by (simp add: find_message_def insert_event_def)
  then have "purchase_ticket_message later pays someone t m d' = Inr (PurchaseUnavailable, d')"
    by (simp add: purchase_ticket_message_def purchasable_def split: option.split)
  moreover have "sm_unlocked s \<and> sm_id s = m"
    using p(8) found find_SomeD [OF p(1) [unfolded find_message_def]]
    by (auto simp: get_ticket_message_def show_message_def message_open_def)
  moreover have "if needs_pay
      then \<exists>cid b. ms_cost_id row = Some cid \<and> raw_current now (tk_team tk) cid d = Inr (Some b)
        \<and> affords (ms_cost_amount row) b \<and> exists_row (member_of (tk_team tk) u) (members d)
        \<and> team_currencies d' = team_currencies (set_amount now (tk_team tk) cid (b - ms_cost_amount row) d)
      else team_currencies d' = team_currencies d"
    using p(5,7) by (auto simp: insert_event_def unlock_message_def dest!: charge_member_paid split: if_splits)
  ultimately show ?thesis using PurchaseDone p(1-3) locked due by simp
qed (use bought in \<open>auto simp: purchase_ticket_message_def res_bind_eq_Inr Let_def split: option.splits if_splits\<close>)

section \<open>What the pages announce\<close>

lemma set_open_tickets:
  "set (open_puzzle_tickets d team) = {(tk_id tk, p) | tk p. tk \<in> set (tickets d) \<and> tk_puzzle tk = Some p
    \<and> tk_state tk = state_open \<and> tk_team tk = team}"
  by (auto simp: open_puzzle_tickets_def split: option.splits if_splits)

lemma open_tickets_list: "open_puzzle_tickets d team \<noteq> [] \<longleftrightarrow> has_open_ticket d team"
proof -
  have "open_puzzle_tickets d team \<noteq> [] \<longleftrightarrow> set (open_puzzle_tickets d team) \<noteq> {}" by simp
  also have "\<dots> \<longleftrightarrow> has_open_ticket d team"
    unfolding set_open_tickets has_open_ticket_def exists_row_iff by auto
  finally show ?thesis .
qed

lemma cooldown_ready_visible:
  "cooldown_ready now d team p \<Longrightarrow> tp_open d team (p_id p)"
  by (auto simp: cooldown_ready_def cooldown_from_ctime_def tp_open_def split: option.splits if_splits)

lemma find_puzzle_id: "find_puzzle d p = Some row \<Longrightarrow> p_id row = p"
  unfolding find_puzzle_def by (drule find_SomeD) simp

text \<open>
  C35: the page of a puzzle tells the truth about its ticket button. The list of tickets says that a new
  ticket can be opened exactly when the request to open one, made at the same time by the team, succeeds.
\<close>

theorem open_block_agrees:
  assumes "sd_sender_type msg = by_team"
  shows "tl_block (get_team_puzzle_tickets now team p False d) = BlockOk
    \<longleftrightarrow> (\<exists>i m. fst (open_puzzle_ticket now team p msg d) = OpenOk i m)"
proof (cases "find_puzzle d p")
  case None
  then show ?thesis
    by (auto simp: open_puzzle_ticket_def get_team_puzzle_tickets_def Let_def)
next
  case (Some row)
  show ?thesis
  proof (cases "has_open_ticket d team")
    case True
    then show ?thesis
      using open_tickets_list [of d team]
      by (simp add: open_puzzle_ticket_def get_team_puzzle_tickets_def Let_def)
  next
    case False
    then have "open_puzzle_tickets d team = []" using open_tickets_list [of d team] by blast
    then show ?thesis
      using False Some assms cooldown_ready_visible [of now d team row] find_puzzle_id [OF Some]
      by (auto simp: open_puzzle_ticket_def get_team_puzzle_tickets_def Let_def case_prod_beta
          split: option.splits)
  qed
qed

lemma plain_message_stored:
  assumes tk: "find_ticket d (tu_ticket info) = Some tk" and who: "tu_member info" "\<not> is_admin role"
    and req: "valid_request req" "rq_sender_type req = by_team" "rq_content_type req = 2"
      "rq_cost_id req = None" "rq_cost_amount req = 0" "rq_unlock_after req = 0"
  shows "thread_block now d info (tu_state info) True pending = SendOk
    \<longleftrightarrow> messages (snd (do_send_ticket_message now role u req info pending d)) \<noteq> messages d"
proof -
  have norm: "normalize_unlock_requirements req team d = Some req" for team
    using req by (simp add: normalize_unlock_requirements_def normalize_unlock_values_def)
  have access: "feature_access_error (access_block a True) = None \<longleftrightarrow> access_block a True = SendOk" for a
    by (cases a) auto
  have sent: "\<exists>m d'. send_ticket_message now (tu_ticket info) (data_of req u by_team) pending (rq_force req) d
      = Inr (MessageSent m, d') \<and> messages d' \<noteq> messages d"
    if "\<not> reached pending (get_pending_count d (tu_ticket info))"
  proof -
    have "get_ticket_message now (snd (insert_ticket_message_conn now (tu_ticket info) (data_of req u by_team) d))
        (next_id ms_id (messages d)) True \<noteq> None"
      by (simp add: get_ticket_message_def find_message_def insert_message_shapes find_append split: option.split)
        (simp add: new_message_def)
    then obtain m where "get_ticket_message now
        (snd (insert_ticket_message_conn now (tu_ticket info) (data_of req u by_team) d))
        (next_id ms_id (messages d)) True = Some m" by blast
    then show ?thesis
      using that tk
      by (simp add: send_ticket_message_def other_assignee_def data_of_def by_team_def by_host_def Let_def
          auto_assign_ticket_on_staff_message_conn_def insert_ticket_message_conn_def)
  qed
  show ?thesis
  proof (cases "reached pending (get_pending_count d (tu_ticket info))")
    case True
    then have "send_ticket_message now (tu_ticket info) (data_of req u by_team) pending (rq_force req) d
        = Inr (MessagePending, d)"
      using tk by (simp add: send_ticket_message_def other_assignee_def data_of_def by_team_def by_host_def)
    with True show ?thesis
      using who req tk norm
      by (simp add: thread_block_def Let_def calc_send_block_def do_send_ticket_message_def is_trusted_def
          split: option.splits)
  next
    case False
    from sent [OF this] False show ?thesis
      using who req tk norm access
      by (auto simp: thread_block_def Let_def calc_send_block_def do_send_ticket_message_def is_trusted_def
          split: option.splits sum.splits)
  qed
qed

text \<open>
  The thread tells the truth about its reply box. For a team member who reads a thread and sends a plain
  message at the same moment, the thread announces that a message can be sent exactly when the request
  stores one.
\<close>

theorem send_block_agrees:
  assumes "get_ticket_user_info us d t u = Some info" "tu_member info" "\<not> is_admin role"
    and "valid_request req" "rq_sender_type req = by_team" "rq_content_type req = 2"
      "rq_cost_id req = None" "rq_cost_amount req = 0" "rq_unlock_after req = 0"
  shows "thread_block now d info (tu_state info) True pending = SendOk
    \<longleftrightarrow> messages (snd (do_send_ticket_message now role u req info pending d)) \<noteq> messages d"
proof -
  from assms(1) obtain tk where "find_ticket d (tu_ticket info) = Some tk"
    by (auto simp: get_ticket_user_info_def split: option.splits)
  from plain_message_stored [OF this assms(2-9)] show ?thesis .
qed

section \<open>A message to a closed ticket\<close>

lemma access_after_close:
  "player_ticket_feature_access now (insert_event e (log_operation now' i a u at m
      (update_ticket p (\<lambda>tk. tk\<lparr>tk_state := state_closed\<rparr>) d))) t = player_ticket_feature_access now d t"
proof -
  let ?d = "insert_event e (log_operation now' i a u at m (update_ticket p (\<lambda>tk. tk\<lparr>tk_state := state_closed\<rparr>) d))"
  have "find_ticket ?d t = find_ticket (update_ticket p (\<lambda>tk. tk\<lparr>tk_state := state_closed\<rparr>) d) t"
    by (simp add: log_operation_def find_ticket_def insert_event_def)
  moreover have "released now ?d q = released now d q" "find_team ?d q = find_team d q"
    "team_feature_enabled ?d q f = team_feature_enabled d q f"
    "feature_state_or_open ?d q f = feature_state_or_open d q f" for q f
    by (simp_all add: log_operation_def update_ticket_def insert_event_def released_def effective_release_def
        find_puzzle_def find_team_def team_feature_enabled_def feature_state_or_open_def find_feature_def
        cong: option.case_cong)
  ultimately show ?thesis
    by (simp add: player_ticket_feature_access_def find_update_ticket split: option.split)
qed

text \<open>
  C38: a closed ticket still takes a message. The state a request is checked against is the one its middleware
  read, and the transaction that stores the message does not look at it again. When a team member may write in
  an open ticket and the staff closes it in between, the ticket is closed and the message is stored in it.
\<close>

theorem closed_ticket_takes_late_message:
  assumes info: "get_ticket_user_info us d t u = Some info" "tu_member info" "\<not> is_admin role"
    and req: "valid_request req" "rq_sender_type req = by_team" "rq_content_type req = 2"
      "rq_cost_id req = None" "rq_cost_amount req = 0" "rq_unlock_after req = 0"
    and may: "thread_block now d info (tu_state info) True pending = SendOk"
    and closed: "close_ticket later t staff by_host None force d = (CloseOk m, d1)"
  shows "map_option tk_state (find_ticket d1 t) = Some state_closed
    \<and> messages (snd (do_send_ticket_message now role u req info pending d1)) \<noteq> messages d1"
proof -
  let ?close = "update_ticket (\<lambda>tk. tk_id tk = t \<and> tk_state tk \<noteq> state_closed) (\<lambda>tk. tk\<lparr>tk_state := state_closed\<rparr>)"
  from closed obtain tk e where tk: "find_ticket d t = Some tk"
    and d1: "d1 = insert_event e (log_operation later t OpClose staff by_host None (?close d))"
    by (auto simp: close_ticket_def Let_def split: option.splits if_splits)
  have t: "tu_ticket info = t" by (rule user_info_ticket [OF info(1)])
  have "tk_id tk = t" using tk by (auto simp: find_ticket_def dest: find_SomeD)
  then have tk1: "map_option tk_state (find_ticket d1 t) = Some state_closed"
    using find_update_ticket [of "\<lambda>tk. tk\<lparr>tk_state := state_closed\<rparr>"
        "\<lambda>tk. tk_id tk = t \<and> tk_state tk \<noteq> state_closed" d t] tk
    by (simp add: d1 find_ticket_def insert_event_def log_operation_def)
  have access: "player_ticket_feature_access now d1 t = player_ticket_feature_access now d t"
    unfolding d1 by (rule access_after_close)
  have "get_pending_count d1 t = get_pending_count d t"
    by (simp add: d1 get_pending_count_def is_pending_def [abs_def] insert_event_def log_operation_def)
  then have calc: "calc_send_block d1 t = calc_send_block d t" by (intro ext) (simp add: calc_send_block_def)
  have "thread_block now d1 info (tu_state info) True pending
      = thread_block now d info (tu_state info) True pending"
    by (simp only: thread_block_def t access calc)
  with may have "thread_block now d1 info (tu_state info) True pending = SendOk" by simp
  moreover obtain tk' where "find_ticket d1 (tu_ticket info) = Some tk'" using tk1 t by auto
  ultimately show ?thesis
    using plain_message_stored [of d1 info tk', OF _ info(2,3) req, of now pending u] tk1 by blast
qed

section \<open>What players see\<close>

fun item_messages :: "thread_item \<Rightarrow> shown_message list" where
  "item_messages (ItemMessage m) = [m]"
| "item_messages (ItemOperation oper) = (case so_message oper of None \<Rightarrow> [] | Some m \<Rightarrow> [m])"

definition shown_messages :: "ticket_thread \<Rightarrow> shown_message list" where
  "shown_messages th = concat (map item_messages (th_items th))"

lemma set_page_query: "set (page_query after c s n items) \<subseteq> set items"
  by (auto simp: page_query_def Let_def dest!: in_set_takeD split: if_splits)

lemma set_merge_page: "set (fst (merge_page msgs ops request limit)) \<subseteq> set msgs \<union> set ops"
  by (auto simp: merge_page_def Let_def dest!: in_set_takeD in_set_dropD set_page_query [THEN subsetD]
      split: if_splits)

lemma set_thread_page: "set (fst (thread_page msgs ops is_puzzle request)) \<subseteq> set msgs \<union> set ops"
proof -
  have "first \<in> set msgs \<union> set ops" if "fst (merge_page msgs ops r n) = first # rest" for first rest r n
    using set_merge_page [of msgs ops r n] that by auto
  then show ?thesis
    using set_merge_page [of msgs ops]
    by (auto simp: thread_page_def Let_def case_prod_beta split: list.splits)
qed

lemma shown_item_messages:
  assumes "item \<in> set (message_items now view t d) \<union> set (operation_items now view t d)"
    and "m \<in> set (item_messages item)"
  shows "\<exists>row \<in> set (messages d). m = show_message now view row"
  using assms
  by (auto simp: message_items_def operation_items_def show_operation_def get_ticket_message_def find_message_def
      bind_eq_Some_conv dest!: sym [of "Some m"] split: option.splits) (blast dest: find_SomeD)

lemma anonymize_item_messages: "item_messages (anonymize_item item) = map anonymize_message (item_messages item)"
  by (cases item) (simp_all split: option.split)

lemma shown_anonymize: "shown_messages (anonymize_thread th) = map anonymize_message (shown_messages th)"
  by (simp add: shown_messages_def anonymize_thread_def map_concat o_def anonymize_item_messages)

fun item_operations :: "thread_item \<Rightarrow> shown_operation list" where
  "item_operations (ItemMessage m) = []"
| "item_operations (ItemOperation oper) = [oper]"

definition shown_operations :: "ticket_thread \<Rightarrow> shown_operation list" where
  "shown_operations th = concat (map item_operations (th_items th))"

text \<open>A thread as a player may see it; \<open>hidden\<close> says whether the staff of the game has an alias.\<close>

definition hides_secrets :: "time \<Rightarrow> db \<Rightarrow> bool \<Rightarrow> ticket_thread \<Rightarrow> bool" where
  "hides_secrets now d hidden th \<longleftrightarrow>
     (\<forall>m \<in> set (shown_messages th). \<exists>row \<in> set (messages d). sm_id m = ms_id row
        \<and> (sm_content m = None \<or> message_open now row \<and> sm_content m = Some (ms_content row))
        \<and> (hidden \<and> sm_sender_type m = by_host \<longrightarrow> sm_sender m = staff_alias))
     \<and> (\<forall>oper \<in> set (shown_operations th). hidden \<and> so_actor_type oper = by_host \<longrightarrow> so_actor oper = staff_alias)
     \<and> (\<forall>s. th_ticket th = Some s \<longrightarrow> su_assignee s = None)"

lemma hides_secrets_thread:
  assumes items: "set (th_items th) \<subseteq> set (message_items now False t d) \<union> set (operation_items now False t d)"
    and assignee: "\<forall>s. th_ticket th = Some s \<longrightarrow> su_assignee s = None"
  shows "hides_secrets now d hidden (if hidden then anonymize_thread th else th)"
proof -
  have row: "\<exists>row \<in> set (messages d). m = show_message now False row" if "m \<in> set (shown_messages th)" for m
    using that shown_item_messages items unfolding shown_messages_def by fastforce
  have plain: "\<exists>row \<in> set (messages d). sm_id m = ms_id row
      \<and> (sm_content m = None \<or> message_open now row \<and> sm_content m = Some (ms_content row))"
    if "m \<in> set (shown_messages th)" for m
    using row [OF that] by (auto simp: show_message_def)
  show ?thesis
  proof (cases hidden)
    case True
    have ops: "so_actor_type oper = by_host \<longrightarrow> so_actor oper = staff_alias"
      if "oper \<in> set (shown_operations (anonymize_thread th))" for oper
    proof -
      from that obtain item where "oper \<in> set (item_operations (anonymize_item item))"
        by (auto simp: shown_operations_def anonymize_thread_def)
      then show ?thesis by (cases item) auto
    qed
    have "\<exists>row \<in> set (messages d). sm_id m = ms_id row
        \<and> (sm_content m = None \<or> message_open now row \<and> sm_content m = Some (ms_content row))
        \<and> (sm_sender_type m = by_host \<longrightarrow> sm_sender m = staff_alias)"
      if "m \<in> set (shown_messages (anonymize_thread th))" for m
    proof -
      from that obtain m0 where "m0 \<in> set (shown_messages th)" "m = anonymize_message m0"
        by (auto simp: shown_anonymize)
      then show ?thesis using plain [of m0] by (auto simp: anonymize_message_def)
    qed
    moreover have "\<forall>s. th_ticket (anonymize_thread th) = Some s \<longrightarrow> su_assignee s = None"
      using assignee by (auto simp: anonymize_thread_def)
    ultimately show ?thesis using True ops by (simp add: hides_secrets_def)
  next
    case False
    then show ?thesis using plain assignee by (simp add: hides_secrets_def)
  qed
qed

lemma player_page_items:
  "set (fst (get_ticket_page now d t False is_puzzle page)) \<subseteq> set (message_items now False t d) \<union> set (operation_items now False t d)"
  unfolding get_ticket_page_def by (rule set_thread_page)

lemma dm_thread_hides:
  assumes "get_dm_ticket_thread now d team False trusted page = Inr th"
  shows "hides_secrets now d hidden (if hidden then anonymize_thread th else th)"
proof (cases "get_dm_ticket_id d team")
  case None
  with assms have "th_items th = []" "th_ticket th = None" by (auto simp: get_dm_ticket_thread_def Let_def)
  then show ?thesis by (intro hides_secrets_thread [where t = 0]) simp_all
next
  case (Some i)
  then obtain s where "th_items th = fst (get_ticket_page now d i False False page)"
    "th_ticket th = map_option (\<lambda>s. s\<lparr>su_assignee := None\<rparr>) s"
    using assms by (auto simp: get_dm_ticket_thread_def Let_def res_bind_eq_Inr case_prod_beta)
  then show ?thesis using player_page_items by (intro hides_secrets_thread [where t = i]) auto
qed

text \<open>
  C37: players see neither locked replies nor, behind an alias, the staff. In the thread of a ticket and in
  the direct messages a team member gets, every message is a stored one, its text is shown only if the
  message is open (paid for, or free and due), the assignee is hidden, and in a game with a staff alias no
  message of the staff names its author and no operation of the staff names its actor.
\<close>

theorem players_see_no_secrets:
  assumes "\<not> tu_mod info" and "\<not> is_moderator role"
  shows "(\<forall>th. get_ticket now d has_alias info page = ThreadOk th \<longrightarrow>
      (\<exists>s. th_ticket th = Some s \<and> hides_secrets now d (has_alias (su_game s)) th))
    \<and> (\<forall>th d'. get_dm_ticket now has_alias role g team page d = (ThreadOk th, d') \<longrightarrow>
      hides_secrets now d (has_alias g) th)"
proof (intro conjI allI impI)
  fix th assume get: "get_ticket now d has_alias info page = ThreadOk th"
  obtain th0 s where th0: "get_ticket_thread now d info page = Inr (Some th0)" "th_ticket th0 = Some s"
    and th: "th = (if has_alias (su_game s) then anonymize_thread th0 else th0)"
    using get assms(1) by (auto simp: get_ticket_def split: sum.splits option.splits)
  have "th_items th0 = fst (get_ticket_page now d (tu_ticket info) False (su_puzzle s \<noteq> None) page)"
    and "su_assignee s = None"
    using th0 assms(1)
    by (auto simp: get_ticket_thread_def Let_def res_bind_eq_Inr case_prod_beta split: option.splits)
  then have "hides_secrets now d (has_alias (su_game s)) th"
    unfolding th using th0(2) player_page_items by (intro hides_secrets_thread [where t = "tu_ticket info"]) auto
  moreover have "\<exists>s'. th_ticket th = Some s' \<and> su_game s' = su_game s"
    using th0(2) by (simp add: th anonymize_thread_def)
  ultimately show "\<exists>s. th_ticket th = Some s \<and> hides_secrets now d (has_alias (su_game s)) th" by metis
next
  fix th d' assume "get_dm_ticket now has_alias role g team page d = (ThreadOk th, d')"
  then obtain i th0 where "get_dm_ticket_thread now d i False (is_admin role) page = Inr th0"
    "th = (if has_alias g then anonymize_thread th0 else th0)"
    using assms(2) by (auto simp: get_dm_ticket_def Let_def split: option.splits sum.splits)
  then show "hides_secrets now d (has_alias g) th" using dm_thread_hides by metis
qed

section \<open>A small desk\<close>

text \<open>Team 3 of game 2 with its open ticket of puzzle 6: a question and a reply that costs 10 of currency 5.\<close>

definition desk_db :: db where
  "desk_db = hint_db\<lparr>tickets := tickets thread_db, ticket_operations := ticket_operations thread_db,
     messages := messages thread_db\<rparr>"

definition desk_users :: "user_row list" where
  "desk_users = [\<lparr>u_id = 8, u_email = [], u_pass = [], u_role = 1, u_nickname = [], u_bio = None,
     u_must_change = False\<rparr>]"

definition plain_request :: send_request where
  "plain_request = \<lparr>rq_content = [63], rq_content_type = 2, rq_sender_type = 0, rq_cost_id = None,
     rq_cost_amount = 0, rq_unlock_after = 0, rq_force = False\<rparr>"

lemma one_ticket_at_a_time_witness:
  "affected (\<lambda>tk. tk_team tk = 3 \<and> tk_puzzle tk \<noteq> None \<and> tk_state tk = state_open)
     (tickets (snd (ticket_handle 5 desk_users User 8 (Some 3) (OpenReq 6 plain_request) hint_db))) \<le> 1"
proof -
  have "ticket_history hint_db"
    by (rule history_start) (simp_all add: hint_db_def purse_db_def empty_db_def)
  from one_ticket_at_a_time [OF history_request [OF this]] show ?thesis by blast
qed

lemma desk_ticket: "find_ticket desk_db 7
    = Some \<lparr>tk_id = 7, tk_team = 3, tk_puzzle = Some 6, tk_state = 1, tk_assignee = None\<rparr>"
  by (simp add: find_ticket_def desk_db_def thread_db_def)

lemma desk_team: "find_team desk_db 3 = Some \<lparr>t_id = 3, t_name = [], t_pass = [], t_bio = [], t_game = 2,
    t_banned = False, t_locked = True, t_beta = False, t_dirty = False, t_start = Some 0, t_finish = None\<rparr>"
  by (simp add: find_team_def desk_db_def hint_db_def)

lemma desk_members: "members desk_db = [\<lparr>m_team = 3, m_user = 8, m_game = 2, m_captain = True, m_ctime = 0\<rparr>,
    \<lparr>m_team = 3, m_user = 9, m_game = 2, m_captain = False, m_ctime = 0\<rparr>]"
  by (simp add: desk_db_def hint_db_def)

lemma desk_currency: "find_currency desk_db 5 = Some \<lparr>c_id = 5, c_game = 2, c_slug = lit ''gold'', c_growth = 10,
    c_init_amount = 0, c_init_hidden = False, c_max = 1000\<rparr>"
  using purse_db_finds(2) [of 1] by (simp add: find_currency_def desk_db_def hint_db_def)

lemma find_message_frame:
  "find_message (insert_event e d) m = find_message d m" "find_message (set_amount now t c v d) m = find_message d m"
  by (simp_all add: find_message_def insert_event_def set_amount_def update_tc_def)

lemma unanswered_messages_bounded_witness:
  "get_pending_count (snd (ticket_handle 5 desk_users Admin 10 None (OpenStaffReq 2 6 3 plain_request) hint_db)) 1 \<le> 1"
proof -
  have h: "ticket_history hint_db"
    by (rule history_start) (simp_all add: hint_db_def purse_db_def empty_db_def)
  have "find_ticket (snd (ticket_handle 5 desk_users Admin 10 None (OpenStaffReq 2 6 3 plain_request) hint_db)) 1
      = Some \<lparr>tk_id = 1, tk_team = 3, tk_puzzle = Some 6, tk_state = 1, tk_assignee = None\<rparr>"
    by code_simp
  from unanswered_messages_bounded [OF history_request [OF h] this] show ?thesis by simp
qed

lemma message_is_paid_once_witness:
  "\<exists>s d'. purchase_ticket_message 120000000 True 8 7 2 desk_db = Inr (PurchaseDone s, d')
    \<and> purchase_ticket_message 120000001 True 9 7 2 d' = Inr (PurchaseUnavailable, d')"
proof -
  have raw: "raw_current 120000000 3 5 desk_db = Inr (Some 60)"
    by (simp add: desk_db_def raw_current_def hint_db_def purse_db_def empty_db_def find_tc_def is_tc_def
        find_currency_def raw_amount_def i64_defs minutes_between_def clamped_growth_def)
  then have "charge_member 120000000 8 3 5 10 desk_db
      = Inr (Some (60, 50), set_amount 120000000 3 5 50 desk_db)"
    by (simp add: charge_member_def desk_members desk_currency deduct_def affords_def i64_defs member_of_def)
  moreover have "find_message desk_db 2 = Some (new_message 9 2 7 \<lparr>sd_content = [98], sd_content_type = 2,
      sd_sender = 10, sd_sender_type = 1, sd_cost_id = Some 5, sd_cost_amount = 10, sd_unlock_after = 0\<rparr>)"
    by (simp add: find_message_def desk_db_def thread_db_def new_message_def)
  moreover from this have "find_message (unlock_message 120000000 7 2 (set_amount 120000000 3 5 50 desk_db)) 2 \<noteq> None"
    using find_message_unlock [of "set_amount 120000000 3 5 50 desk_db" 2] by (simp add: find_message_frame)
  ultimately obtain s d' where bought: "purchase_ticket_message 120000000 True 8 7 2 desk_db = Inr (PurchaseDone s, d')"
    by (auto simp: purchase_ticket_message_def desk_ticket desk_team purchasable_def new_message_def
        get_ticket_message_def find_message_frame Let_def)
  with message_is_paid_once [OF bought, of 120000001 True 9] show ?thesis by auto
qed

lemma open_block_agrees_witness:
  "tl_block (get_team_puzzle_tickets 5 3 6 False hint_db) = BlockOk
    \<longleftrightarrow> (\<exists>i m. fst (open_puzzle_ticket 5 3 6 (data_of plain_request 8 by_team) hint_db) = OpenOk i m)"
  by (rule open_block_agrees) (simp add: data_of_def)

definition desk_reader :: ticket_user where
  "desk_reader = \<lparr>tu_ticket = 7, tu_state = 1, tu_member = True, tu_mod = False, tu_admin = False\<rparr>"

lemma desk_info: "get_ticket_user_info desk_users desk_db 7 8 = Some desk_reader"
  by (simp add: get_ticket_user_info_def desk_ticket desk_users_def find_user_def exists_row_def desk_members
      role_of_i16_def is_moderator_def is_admin_def desk_reader_def)

lemma plain_facts: "valid_request plain_request" "rq_sender_type plain_request = by_team"
  "rq_content_type plain_request = 2" "rq_cost_id plain_request = None" "rq_cost_amount plain_request = 0"
  "rq_unlock_after plain_request = 0"
  by (simp_all add: plain_request_def valid_request_def by_team_def)

lemma desk_access: "player_ticket_feature_access 5 desk_db 7 = AccessOpen"
proof -
  have "released 5 desk_db 6" using hint_db_reads(2) by (simp add: released_def desk_db_def effective_release_def find_puzzle_def cong: option.case_cong)
  moreover have "team_feature_enabled desk_db 3 PuzzleTicket" "feature_state_or_open desk_db 2 PuzzleTicket = 2"
    by (simp_all add: team_feature_enabled_def feature_state_or_open_def find_feature_def desk_db_def hint_db_def
        purse_db_def empty_db_def)
  ultimately show ?thesis
    by (simp add: player_ticket_feature_access_def desk_ticket desk_team access_of_value_def)
qed

lemma desk_pending: "get_pending_count desk_db 7 = 0"
  by (simp add: get_pending_count_def is_pending_def exists_row_def desk_db_def thread_db_def new_message_def
      by_team_def by_host_def)

lemma desk_may_write: "thread_block 5 desk_db desk_reader 1 True (Some 1) = SendOk"
  by (simp add: thread_block_def desk_reader_def desk_access desk_pending calc_send_block_def reached_def
      state_closed_def)

lemma send_block_agrees_witness:
  "messages (snd (do_send_ticket_message 5 User 8 plain_request desk_reader (Some 1) desk_db)) \<noteq> messages desk_db"
  using send_block_agrees [OF desk_info _ _ plain_facts, of User 5 "Some 1"] desk_may_write
  by (simp add: desk_reader_def is_admin_def)

lemma closed_ticket_takes_late_message_witness:
  "map_option tk_state (find_ticket (snd (close_ticket 6 7 10 by_host None False desk_db)) 7) = Some 0
    \<and> messages (snd (do_send_ticket_message 5 User 8 plain_request desk_reader (Some 1)
        (snd (close_ticket 6 7 10 by_host None False desk_db))))
      \<noteq> messages (snd (close_ticket 6 7 10 by_host None False desk_db))"
proof -
  have "fst (close_ticket 6 7 10 by_host None False desk_db) = CloseOk None"
    by (simp add: close_ticket_def desk_ticket Let_def desk_team state_closed_def)
  then obtain d1 where closed: "close_ticket 6 7 10 by_host None False desk_db = (CloseOk None, d1)"
    by (metis prod.collapse)
  from closed_ticket_takes_late_message [OF desk_info _ _ plain_facts _ closed, of User 5 "Some 1"]
    desk_may_write show ?thesis
    by (simp add: desk_reader_def is_admin_def closed state_closed_def)
qed

lemma players_see_no_secrets_witness:
  "\<exists>th s. get_ticket 10 desk_db (\<lambda>_. True) desk_reader default_request = ThreadOk th
    \<and> shown_messages th \<noteq> [] \<and> th_ticket th = Some s \<and> hides_secrets 10 desk_db True th"
proof -
  have "case get_ticket 10 desk_db (\<lambda>_. True) desk_reader default_request of
      ThreadOk th \<Rightarrow> shown_messages th \<noteq> [] | _ \<Rightarrow> False"
    by code_simp
  then obtain th where th: "get_ticket 10 desk_db (\<lambda>_. True) desk_reader default_request = ThreadOk th"
    "shown_messages th \<noteq> []"
    by (cases "get_ticket 10 desk_db (\<lambda>_. True) desk_reader default_request") simp_all
  have "\<not> tu_mod desk_reader" "\<not> is_moderator User" by (simp_all add: desk_reader_def is_moderator_def)
  from players_see_no_secrets [OF this] th show ?thesis by blast
qed

end
