(* ===== verification/Staff.thy ===== *)
theory Staff
  imports Ticket_Routes
begin

text \<open>
  The staff's page of a game (\<^verbatim>\<open>src/api/ticket.rs\<close> from \<^verbatim>\<open>StaffTicketListQuery\<close> on, with
  \<^verbatim>\<open>list_staff_tickets\<close> of \<^verbatim>\<open>src/db/ticket.rs\<close>): the list of tickets, a team's access, and its
  currencies. All of these routes are for moderators.
\<close>

section \<open>The list of tickets\<close>

definition newest_message :: "db \<Rightarrow> nat \<Rightarrow> message_row option" where
  "newest_message d ticket_id =
     (case sort_key ms_id (filter (\<lambda>m. ms_ticket m = ticket_id) (messages d)) of
        [] \<Rightarrow> None | m # ms \<Rightarrow> Some (last (m # ms)))"

record staff_filter =
  sf_kind :: int
  sf_state :: "int option"
  sf_waiting :: int
  sf_assignee :: int
  sf_puzzle :: "nat option"
  sf_team :: "nat option"

definition listed :: "db \<Rightarrow> nat \<Rightarrow> nat \<Rightarrow> staff_filter \<Rightarrow> ticket_row \<Rightarrow> bool" where
  "listed d game_id user_id f tk \<longleftrightarrow>
     (case find_team d (tk_team tk) of None \<Rightarrow> False | Some t \<Rightarrow> t_game t = game_id)
     \<and> (sf_kind f = 0 \<or> (sf_kind f = 1 \<and> tk_puzzle tk \<noteq> None) \<or> (sf_kind f = 2 \<and> tk_puzzle tk = None))
     \<and> (sf_state f = None \<or> sf_state f = Some (tk_state tk))
     \<and> (sf_waiting f = 0
        \<or> (sf_waiting f = 1 \<and> map_option ms_sender_type (newest_message d (tk_id tk)) = Some by_team)
        \<or> (sf_waiting f = 2 \<and> map_option ms_sender_type (newest_message d (tk_id tk)) = Some by_host))
     \<and> (sf_assignee f = 0 \<or> (sf_assignee f = 1 \<and> tk_assignee tk = Some user_id)
        \<or> (sf_assignee f = 2 \<and> tk_assignee tk = None))
     \<and> (sf_puzzle f = None \<or> tk_puzzle tk = sf_puzzle f)
     \<and> (sf_team f = None \<or> sf_team f = Some (tk_team tk))"

text \<open>\<open>ORDER BY\<close> the newest message's time, descending with missing ones last, then the identifier.\<close>

definition staff_order :: "db \<Rightarrow> ticket_row \<Rightarrow> bool \<times> time \<times> nat" where
  "staff_order d tk =
     (case newest_message d (tk_id tk) of
        None \<Rightarrow> (False, 0, tk_id tk) | Some m \<Rightarrow> (True, ms_ctime m, tk_id tk))"

definition staff_summary :: "db \<Rightarrow> nat \<Rightarrow> ticket_row \<Rightarrow> ticket_summary" where
  "staff_summary d game_id tk =
     \<lparr>su_id = tk_id tk, su_state = tk_state tk, su_game = game_id, su_team = Some (tk_team tk),
      su_currencies = [],
      su_puzzle = (case tk_puzzle tk of None \<Rightarrow> None
        | Some puzzle_id \<Rightarrow> (case find_puzzle d puzzle_id of None \<Rightarrow> None
            | Some p \<Rightarrow> if find_round d (p_round p) \<noteq> None then Some puzzle_id else None)),
      su_count = Some (affected (\<lambda>m. ms_ticket m = tk_id tk) (messages d)),
      su_last_at = map_option ms_ctime (newest_message d (tk_id tk)),
      su_last_by = map_option ms_sender_type (newest_message d (tk_id tk)),
      su_assignee = tk_assignee tk\<rparr>"

definition list_staff_tickets ::
  "db \<Rightarrow> nat \<Rightarrow> nat \<Rightarrow> staff_filter \<Rightarrow> nat \<Rightarrow> nat \<Rightarrow> ticket_summary list" where
  "list_staff_tickets d game_id user_id f limit offset =
     map (staff_summary d game_id)
       (take limit (drop offset (rev (sort_key (staff_order d)
          (filter (listed d game_id user_id f) (tickets d))))))"

record staff_query =
  sq_kind :: "string option"
  sq_state :: "string option"
  sq_waiting :: "string option"
  sq_assignee :: "string option"
  sq_puzzle :: "nat option"
  sq_team :: "nat option"
  sq_limit :: "int option"
  sq_offset :: "int option"

definition choice_of :: "string \<Rightarrow> string \<Rightarrow> string option \<Rightarrow> int option" where
  "choice_of one two x =
     (case x of
        None \<Rightarrow> Some 0
      | Some s \<Rightarrow> if s = ''all'' then Some 0 else if s = one then Some 1 else if s = two then Some 2 else None)"

definition state_choice :: "string option \<Rightarrow> int option option" where
  "state_choice x =
     (case x of
        None \<Rightarrow> Some None
      | Some s \<Rightarrow> if s = ''all'' then Some None else if s = ''open'' then Some (Some state_open)
          else if s = ''closed'' then Some (Some state_closed) else None)"

definition clamp_limit :: "int option \<Rightarrow> nat" where
  "clamp_limit x = nat (max 1 (min 100 (case x of None \<Rightarrow> 50 | Some n \<Rightarrow> n)))"

text \<open>A page has one row less than is asked for: the extra row says that there are more.\<close>

definition staff_ticket_list :: "db \<Rightarrow> nat \<Rightarrow> nat \<Rightarrow> staff_query \<Rightarrow> (ticket_summary list \<times> bool) option" where
  "staff_ticket_list d game_id user_id q =
     (case (choice_of ''puzzle'' ''dm'' (sq_kind q), state_choice (sq_state q),
            choice_of ''staff'' ''team'' (sq_waiting q), choice_of ''me'' ''none'' (sq_assignee q)) of
        (Some kind, Some st, Some waiting, Some assignee) \<Rightarrow>
          (let limit = clamp_limit (sq_limit q);
               rows = list_staff_tickets d game_id user_id
                 \<lparr>sf_kind = kind, sf_state = st, sf_waiting = waiting, sf_assignee = assignee,
                  sf_puzzle = sq_puzzle q, sf_team = sq_team q\<rparr> (limit + 1)
                 (nat (max 0 (case sq_offset q of None \<Rightarrow> 0 | Some n \<Rightarrow> n)))
           in Some (take limit rows, length rows > limit))
      | _ \<Rightarrow> None)"

section \<open>A team's access\<close>

record staff_access_update =
  sa_banned :: "bool option"
  sa_locked :: "bool option"
  sa_features :: "(game_feature \<times> bool) list option"
  sa_reason :: "ustr option"

datatype access_validation = AccessValid | AccessInvalid | AccessForbidden

text \<open>The features are read in order; one that was seen before stops the reading.\<close>

fun features_new :: "int list \<Rightarrow> (game_feature \<times> bool) list \<Rightarrow> bool" where
  "features_new seen [] = True"
| "features_new seen ((f, e) # xs) =
     (admin_team_feature f \<and> feature_value f \<notin> set seen \<and> features_new (feature_value f # seen) xs)"

definition validate_staff_team_access_update :: "user_role \<Rightarrow> staff_access_update \<Rightarrow> access_validation" where
  "validate_staff_team_access_update role req =
     (if \<not> (case sa_features req of None \<Rightarrow> True | Some xs \<Rightarrow> features_new [] xs) then AccessInvalid
      else if \<not> is_admin role
        \<and> (sa_banned req \<noteq> None \<or> sa_locked req \<noteq> None
           \<or> (case sa_features req of None \<Rightarrow> False | Some xs \<Rightarrow> list_ex (\<lambda>(f, e). f = Leaderboard) xs))
      then AccessForbidden
      else AccessValid)"

definition access_update_data :: "staff_access_update \<Rightarrow> admin_team_update_data" where
  "access_update_data req =
     \<lparr>au_name = None, au_pass = None, au_bio = None, au_banned = sa_banned req, au_locked = sa_locked req,
      au_started = None, au_currency_action = None, au_beta = None, au_features = sa_features req,
      au_reason = sa_reason req\<rparr>"

definition update_staff_team_access ::
  "time \<Rightarrow> time \<Rightarrow> user_role \<Rightarrow> nat \<Rightarrow> nat \<Rightarrow> nat \<Rightarrow> staff_access_update \<Rightarrow> db \<Rightarrow> team_response \<times> db" where
  "update_staff_team_access now clock role game_id team_id actor req d =
     (if \<not> valid_length 0 500 (sa_reason req) then (BadRequest, d)
      else case validate_staff_team_access_update role req of
        AccessInvalid \<Rightarrow> (BadRequest, d)
      | AccessForbidden \<Rightarrow> (Forbidden, d)
      | AccessValid \<Rightarrow>
          (case admin_update now clock game_id team_id actor (access_update_data req) d of
             (AdminUpdateOk, d') \<Rightarrow> (Done, d')
           | (AdminUpdateInvalid, d') \<Rightarrow> (BadRequest, d')
           | (AdminUpdateNotFound, d') \<Rightarrow> (NotFound, d')))"

text \<open>What the answer says the user may edit: banning, locking, features.\<close>

definition editable :: "user_role \<Rightarrow> bool \<times> bool \<times> game_feature list" where
  "editable role = (is_admin role, is_admin role,
     if is_admin role then [DirectMessage, PuzzleTicket, Leaderboard] else [DirectMessage, PuzzleTicket])"

section \<open>A team's currencies\<close>

datatype adjust_reply = AdjustBadRequest | AdjustMissing | AdjustConflict currency_show | AdjustDone currency_show
  | AdjustFailed db_error

definition adjust_staff_team_currency ::
  "time \<Rightarrow> nat \<Rightarrow> nat \<Rightarrow> nat \<Rightarrow> int \<Rightarrow> ustr option \<Rightarrow> nat \<Rightarrow> db \<Rightarrow> adjust_reply \<times> db" where
  "adjust_staff_team_currency now game_id team_id cid delta reason actor d =
     (if delta = 0 \<or> \<not> valid_length 0 500 reason then (AdjustBadRequest, d)
      else case staff_adjust_currency now game_id team_id cid delta actor d of
        Inl e \<Rightarrow> (AdjustFailed e, d)
      | Inr (AdjustNotFound, d') \<Rightarrow> (AdjustMissing, d')
      | Inr (AdjustOverflow, d') \<Rightarrow> (AdjustBadRequest, d')
      | Inr (AdjustAboveMax c, d') \<Rightarrow> (AdjustConflict c, d')
      | Inr (AdjustUpdated c, d') \<Rightarrow> (AdjustDone c, d'))"

definition get_staff_team_currencies ::
  "time \<Rightarrow> nat \<Rightarrow> nat \<Rightarrow> db \<Rightarrow> db_error + currency_show list option" where
  "get_staff_team_currencies now game_id team_id d =
     (if \<not> exists_row (\<lambda>t. t_id t = team_id \<and> t_game t = game_id) (teams d) then Inr None
      else res_bind (get_currency_info_conn now team_id False d) (\<lambda>cs. Inr (Some cs)))"

section \<open>What a moderator can change\<close>

definition message_feature_row :: "nat \<Rightarrow> team_feature_row \<Rightarrow> bool" where
  "message_feature_row team_id r \<longleftrightarrow> tf_team r = team_id \<and> (tf_type r = 1 \<or> tf_type r = 2)"

lemma upsert_feature_keeps:
  assumes "f = DirectMessage \<or> f = PuzzleTicket"
  shows "filter (\<lambda>r. \<not> message_feature_row t r) (upsert_feature t (f, e) rows)
    = filter (\<lambda>r. \<not> message_feature_row t r) rows"
  using assms
  by (auto simp: upsert_feature_def Let_def message_feature_row_def intro!: filter_update_rows_other)

lemma fold_upsert_keeps:
  "list_all (\<lambda>(f, e). f = DirectMessage \<or> f = PuzzleTicket) xs \<Longrightarrow>
    filter (\<lambda>r. \<not> message_feature_row t r) (fold (upsert_feature t) xs rows)
    = filter (\<lambda>r. \<not> message_feature_row t r) rows"
  by (induction xs arbitrary: rows) (auto simp: upsert_feature_keeps)

lemma features_new_admin: "features_new seen xs \<Longrightarrow> list_all (\<lambda>(f, e). admin_team_feature f) xs"
  by (induction seen xs rule: features_new.induct) auto

text \<open>
  A moderator who is not an administrator changes at most how a team may write to the staff. Whatever
  update of a team's access such a user sends, the answer marks the rest as not editable, no team is
  banned, locked or otherwise changed, no feature but direct messages and tickets of this team changes, and
  no currency, puzzle state or member changes.
\<close>

theorem moderators_edit_messages_only:
  assumes "\<not> is_admin role"
  shows "editable role = (False, False, [DirectMessage, PuzzleTicket])
    \<and> (case update_staff_team_access now clock role game_id team_id actor req d of (r, d') \<Rightarrow>
        teams d' = teams d \<and> members d' = members d \<and> team_currencies d' = team_currencies d
        \<and> team_puzzles d' = team_puzzles d
        \<and> filter (\<lambda>r. \<not> message_feature_row team_id r) (team_features d')
          = filter (\<lambda>r. \<not> message_feature_row team_id r) (team_features d))"
proof (cases "\<not> valid_length 0 500 (sa_reason req) \<or> validate_staff_team_access_update role req \<noteq> AccessValid")
  case True
  then have "snd (update_staff_team_access now clock role game_id team_id actor req d) = d"
    by (auto simp: update_staff_team_access_def split: access_validation.split)
  then show ?thesis using assms by (simp add: editable_def case_prod_beta)
next
  case False
  then have v: "sa_banned req = None" "sa_locked req = None"
    and f: "\<And>xs. sa_features req = Some xs \<Longrightarrow> list_all (\<lambda>(f, e). f = DirectMessage \<or> f = PuzzleTicket) xs"
    using assms features_new_admin [of "[]"]
    by (auto simp: validate_staff_team_access_update_def list_ex_iff list_all_iff admin_team_feature_def
        split: if_splits option.splits; fastforce)+
  have same: "update_rows p (admin_set_team clock (access_update_data req)) rows = rows" for p rows
    using v by (simp add: update_rows_def admin_set_team_def access_update_data_def or_keep_def map_idI)
  have "snd (update_staff_team_access now clock role game_id team_id actor req d)
      = snd (admin_update now clock game_id team_id actor (access_update_data req) d)"
    using False by (simp add: update_staff_team_access_def split: prod.split admin_team_update_result.split)
  moreover have "teams (snd (admin_update now clock game_id team_id actor (access_update_data req) d)) = teams d
    \<and> members (snd (admin_update now clock game_id team_id actor (access_update_data req) d)) = members d
    \<and> team_currencies (snd (admin_update now clock game_id team_id actor (access_update_data req) d)) = team_currencies d
    \<and> team_puzzles (snd (admin_update now clock game_id team_id actor (access_update_data req) d)) = team_puzzles d
    \<and> filter (\<lambda>r. \<not> message_feature_row team_id r)
        (team_features (snd (admin_update now clock game_id team_id actor (access_update_data req) d)))
      = filter (\<lambda>r. \<not> message_feature_row team_id r) (team_features d)"
    unfolding admin_update_def same Let_def
    using v fold_upsert_keeps [OF f]
    by (simp add: access_update_data_def changed_flag_def insert_event_def split: option.split)
  ultimately show ?thesis using assms by (simp add: editable_def case_prod_beta)
qed

lemma moderators_edit_messages_only_witness:
  "case update_staff_team_access 5 6 Moderator 2 3 10
     \<lparr>sa_banned = Some True, sa_locked = None, sa_features = None, sa_reason = None\<rparr> hint_db of (r, d') \<Rightarrow>
   teams d' = teams hint_db"
  using moderators_edit_messages_only [where role = Moderator and now = 5 and clock = 6 and game_id = 2
      and team_id = 3 and actor = 10 and d = hint_db
      and req = "\<lparr>sa_banned = Some True, sa_locked = None, sa_features = None, sa_reason = None\<rparr>"]
  by (simp add: is_admin_def case_prod_beta)

end
