(* ===== verification/Spec2Isabelle.thy ===== *)
theory Spec2Isabelle
  imports Expr_Cache Judge Access Game_Settings Database Feature Currency Gates Hints Team_Players Submission_Laws Release_Laws Puzzle_Rules Ticket_Laws Staff
begin

text \<open>
  A verification development for the backend of a puzzle-hunt web site: a Rust service (actix-web)
  in front of a PostgreSQL database (sqlx) and a key-value store. Teams of players solve puzzles;
  submitted answers are judged by rules, solving puzzles unlocks others according to conditions
  written in a small expression language, and hints are bought with currencies that grow over time.

  Parts and theories, in the order they build on each other:

  \<^item> Prelude: strings as lists of code points, results, rows of tables, 64-bit range checks.
  \<^item> Expr\_Syntax, Expr\_Parser, Expr\_Compiler, Expr\_Cache: \<^verbatim>\<open>src/expr/\<close>. The tokenizer and parser,
    the compiler with its simplifications, evaluation, and the bounded compile caches. Shown: the
    parser accepts exactly the printed forms and always returns; compiled conditions mean what the
    source means; the caches are invisible and bounded under interleaved use.
  \<^item> Judge: \<^verbatim>\<open>src/game/judge.rs\<close> and the judging loop of \<^verbatim>\<open>submit_answer\<close>. Shown: both agree, judging
    without scripts is first match, trigger keys agree with the compiler's.
  \<^item> Access: \<^verbatim>\<open>src/model/user.rs\<close>, \<^verbatim>\<open>src/db/user.rs\<close>, \<^verbatim>\<open>src/api/admin/user.rs\<close>, \<^verbatim>\<open>src/module/session.rs\<close> and
    the middlewares. Shown: administrators cannot escalate, root accounts are fixed, sessions are
    bounded, what the privilege check lets through.
  \<^item> Game\_Settings: the JSON settings of a game (\<^verbatim>\<open>src/model/game.rs\<close>).
  \<^item> Database: one record \<open>db\<close> of tables, a list of rows each, as the migrations declare them; the
    operations below return it updated. A transaction that fails leaves the database as it was.
  \<^item> Feature, Currency: \<^verbatim>\<open>src/db/feature.rs\<close> and the currency half of \<^verbatim>\<open>src/db/team.rs\<close>. Shown: phase
    changes are idempotent, costs never overdraw, the event log is the ledger of a currency, closing
    a currency freezes it.
  \<^item> Gates, Hints: unlocking and hints of \<^verbatim>\<open>src/db/puzzle.rs\<close>. Shown: an unlock pass is complete and
    idempotent, what a purchase does, and two defects of purchases.
  \<^item> Submit, Submissions, Submission\_Laws: \<^verbatim>\<open>submit_answer\<close> as a whole (who may submit, the verdict and
    what follows from it: solving, starting, finishing, penalties, cooldowns, unlocks), what each of its
    steps changes, and histories of submissions. Shown: the verdict is exact, a right answer gets
    through, a puzzle is solved once, wrong attempts are bounded, no answer is stored twice.
  \<^item> Board, Board\_Laws: \<^verbatim>\<open>src/db/board.rs\<close> and \<^verbatim>\<open>src/module/leaderboard.rs\<close>. Shown: locking freezes the board,
    one pass of the scheduler brings every dirty board up to date, marks of teams survive any
    interleaving with a refresh, pages make up the board, and how requests to rebuild get lost.
  \<^item> Release, Release\_Laws: \<^verbatim>\<open>src/db/release.rs\<close>, \<^verbatim>\<open>src/module/release.rs\<close> and
    \<^verbatim>\<open>src/api/admin/release.rs\<close>. Shown: a pass releases every phase that is due and settles its
    events, the scheduler is in time, players get every event once, released phases cannot be changed
    any more, and what an interrupted pass leaves behind.
  \<^item> Team: the teams of \<^verbatim>\<open>src/db/team.rs\<close> with the routes of \<^verbatim>\<open>src/api/team.rs\<close> and
    \<^verbatim>\<open>src/api/admin/team.rs\<close>.
  \<^item> Roster, Team\_Players: two abstract machines the team requests refine, one for all requests and one
    with the guards of the player requests. Shown: consistent membership, at most one captain, size
    limits, unique names, frozen locked teams, and two defects around a team its captain has left.
  \<^item> Puzzle\_Rules: the JSON documents of a puzzle (judge rules, penalties, requirements, open times), their
    validation in \<^verbatim>\<open>src/api/admin/puzzle.rs\<close> and the decoders that read them when an answer is judged.
    Shown: rules that are accepted as a list of objects can be judged, other forms it accepts cannot.
  \<^item> Ticket, Ticket\_Page, Ticket\_Routes: \<^verbatim>\<open>src/db/ticket.rs\<close>, \<^verbatim>\<open>src/db/notification.rs\<close> and
    \<^verbatim>\<open>src/api/ticket.rs\<close>. Ticket holds the operations of the database (opening, sending, paying, assigning,
    closing), Ticket\_Page how a thread is read page by page, Ticket\_Routes the requests of players and
    moderators as one transition function.
  \<^item> Ticket\_Thread, Ticket\_Laws. Shown: a page is the right slice of the merged thread and following the
    cursors shows the whole of it; over all sequences of requests a team has one open ticket at a time
    and a bounded number of unanswered messages; a message is paid once; the page's reason for not
    opening a ticket is the one the request gives; players are shown no text they have not paid for and
    no names of an anonymous thread.
  \<^item> Staff: the moderators' page of a game. Shown: what its routes may change of a team.

  Conventions. Time is a number of microseconds; \<open>now\<close> is an argument. Fresh identifiers are arguments.
  Amounts of currencies are integers with the 64-bit range checks of the code and of the database
  written out. Errors are values of a sum type, and an operation that ends with an error returns no
  database: its transaction is rolled back. The fuel of the parser is twice the number of tokens plus
  one, which the termination theorem shows to be enough.

  Interfaces are locales: the memo table of the compile caches (\<open>memo_table\<close>, interpreted for both
  caches) and the purse of a team (\<open>purse\<close>, interpreted for the currency operations).

  Not modelled: HTTP framing and JSON decoding by serde, the JavaScript engines that run puzzle
  scripts (a parameter wherever they are called), caches in front of queries, notifications over web
  sockets and the message broker, file storage, captcha, mail and start-up. Also left out is the
  administration of puzzles and rounds beyond their release and their documents of rules.
\<close>

end
